(* ===== verification/Cineyma_Prelude.thy ===== *)
theory Cineyma_Prelude
  imports Main "HOL-Library.Word" "HOL-Library.AList"
begin

text \<open>
  Shared vocabulary of the cineyma development: machine integers and durations, the parts of
  the Rust standard library the crate uses (\<open>HashMap\<close>, \<open>AtomicU64\<close>, \<open>Instant\<close>,
  \<open>Duration\<close>), and the interfaces (locales) that several components implement:
  lookup tables, fresh identifier sources and tasks driven by a sequence of inputs.
\<close>

section \<open>Integers, time, results\<close>

type_synonym u8 = "8 word"
type_synonym u32 = "32 word"
type_synonym u64 = "64 word"
type_synonym bytes = "u8 list"

text \<open>
  An \<open>Instant\<close> is a reading of the monotonic clock and a \<open>Duration\<close> a length of
  time, both counted in nanoseconds. \<open>Instant::duration_since\<close> saturates at zero, which
  is what subtraction on \<open>nat\<close> does.
\<close>

type_synonym instant = nat
type_synonym duration = nat

definition duration_since :: "instant \<Rightarrow> instant \<Rightarrow> duration" where
  "duration_since now t = now - t"

text \<open>
  \<open>Duration\<close> holds at most \<open>u64::MAX\<close> seconds and 999999999 nanoseconds;
  \<open>Duration * u32\<close> panics beyond that, which is the value None here.
\<close>

definition duration_max :: duration where
  "duration_max = (2 ^ 64 - 1) * 1000000000 + 999999999"

definition duration_mul :: "duration \<Rightarrow> nat \<Rightarrow> duration option" where
  "duration_mul d k = (if d * k \<le> duration_max then Some (d * k) else None)"

lemma duration_mul_Some_iff [simp]:
  "duration_mul d k = Some e \<longleftrightarrow> e = d * k \<and> d * k \<le> duration_max"
  by (auto simp: duration_mul_def)

section \<open>Generic facts on lists and maps\<close>

named_theorems table_simps \<open>how the operations of a keyed table act on its lookup function\<close>
named_theorems step_simps \<open>one step of a task, branch by branch\<close>

lemma map_of_filter_value:
  assumes "distinct (map fst m)"
  shows "map_of (filter (\<lambda>(k, v). P k v) m) k =
    (case map_of m k of None \<Rightarrow> None | Some v \<Rightarrow> if P k v then Some v else None)"
  using assms
proof (induction m)
  case Nil
  then show ?case by simp
next
  case (Cons kv m)
  obtain a b where kv: "kv = (a, b)" by (cases kv)
  with Cons.prems have "map_of m a = None"
    by (simp add: map_of_eq_None_iff)
  with Cons kv show ?case by auto
qed

lemma map_of_map_value:
  "map_of (map (\<lambda>(k, v). (k, f k v)) m) k = map_option (f k) (map_of m k)"
  by (induction m) auto

lemma map_fst_map_value: "map fst (map (\<lambda>(k, v). (k, f k v)) m) = map fst m"
  by (induction m) auto

lemma distinct_map_fst_filter: "distinct (map fst m) \<Longrightarrow> distinct (map fst (filter P m))"
  by (induction m) auto

section \<open>std::collections::HashMap\<close>

text \<open>
  A hash map is an association list whose keys are distinct. Its order stands for the iteration
  order, which Rust leaves open; inserting a new key puts it last only because the list has to
  put it somewhere. Theorems speak of a hash map through lookups and through the set of its
  entries, never through the positions of particular entries.
\<close>

type_synonym ('k, 'v) hashmap = "('k \<times> 'v) list"

definition hm_wf :: "('k, 'v) hashmap \<Rightarrow> bool" where
  "hm_wf m \<longleftrightarrow> distinct (map fst m)"

definition hm_get :: "('k, 'v) hashmap \<Rightarrow> 'k \<Rightarrow> 'v option" where
  "hm_get m k = map_of m k"

definition hm_insert :: "'k \<Rightarrow> 'v \<Rightarrow> ('k, 'v) hashmap \<Rightarrow> ('k, 'v) hashmap" where
  "hm_insert k v m = AList.update k v m"

definition hm_remove :: "'k \<Rightarrow> ('k, 'v) hashmap \<Rightarrow> ('k, 'v) hashmap" where
  "hm_remove k m = AList.delete k m"

definition hm_retain :: "('k \<Rightarrow> 'v \<Rightarrow> bool) \<Rightarrow> ('k, 'v) hashmap \<Rightarrow> ('k, 'v) hashmap" where
  "hm_retain P m = filter (\<lambda>(k, v). P k v) m"

definition hm_values :: "('k, 'v) hashmap \<Rightarrow> 'v list" where
  "hm_values m = map snd m"

definition hm_keys :: "('k, 'v) hashmap \<Rightarrow> 'k set" where
  "hm_keys m = fst ` set m"

lemma hm_wf_empty [simp, intro]: "hm_wf []"
  by (simp add: hm_wf_def)

lemma hm_wf_insert [simp, intro]: "hm_wf m \<Longrightarrow> hm_wf (hm_insert k v m)"
  by (simp add: hm_wf_def hm_insert_def distinct_update)

lemma hm_wf_remove [simp, intro]: "hm_wf m \<Longrightarrow> hm_wf (hm_remove k m)"
  by (simp add: hm_wf_def hm_remove_def distinct_delete)

lemma hm_wf_retain [simp, intro]: "hm_wf m \<Longrightarrow> hm_wf (hm_retain P m)"
  by (simp add: hm_wf_def hm_retain_def distinct_map_fst_filter)

lemma hm_get_empty [simp, table_simps]: "hm_get [] = (\<lambda>_. None)"
  by (simp add: hm_get_def fun_eq_iff)

lemma hm_get_insert [simp, table_simps]: "hm_get (hm_insert k v m) = (hm_get m)(k \<mapsto> v)"
  by (simp add: hm_get_def hm_insert_def update_conv' fun_eq_iff)

lemma hm_get_remove [simp, table_simps]: "hm_get (hm_remove k m) = (hm_get m)(k := None)"
  by (simp add: hm_get_def hm_remove_def delete_conv' fun_eq_iff)

lemma hm_get_retain [table_simps]:
  "hm_wf m \<Longrightarrow> hm_get (hm_retain P m) k =
    (case hm_get m k of None \<Rightarrow> None | Some v \<Rightarrow> if P k v then Some v else None)"
  unfolding hm_wf_def hm_get_def hm_retain_def by (rule map_of_filter_value)

lemma hm_keys_get: "k \<in> hm_keys m \<longleftrightarrow> hm_get m k \<noteq> None"
  by (auto simp: hm_keys_def hm_get_def map_of_eq_None_iff)

lemma hm_keys_insert [simp]: "hm_keys (hm_insert k v m) = insert k (hm_keys m)"
  by (auto simp: hm_keys_def hm_insert_def dom_update)

lemma hm_entry_get: "hm_wf m \<Longrightarrow> (k, v) \<in> set m \<longleftrightarrow> hm_get m k = Some v"
  by (simp add: hm_wf_def hm_get_def)

lemma hm_values_get: "hm_wf m \<Longrightarrow> v \<in> set (hm_values m) \<longleftrightarrow> (\<exists>k. hm_get m k = Some v)"
  by (force simp: hm_values_def hm_entry_get [symmetric])

section \<open>Interface: a keyed table\<close>

text \<open>
  What a client may expect of a table that stores one value per key: a lookup after a store
  returns what was stored last and other keys are untouched. The name registry, the cluster's
  actor table, the message router, the connection pool, the table of pending requests and the
  key-value example all promise it.
\<close>

locale lookup_table =
  fixes start :: "'t"
    and put :: "'k \<Rightarrow> 'v \<Rightarrow> 't \<Rightarrow> 't"
    and get :: "'t \<Rightarrow> 'k \<Rightarrow> 'v option"
    and invar :: "'t \<Rightarrow> bool"
  assumes invar_start: "invar start"
    and invar_put: "invar t \<Longrightarrow> invar (put k v t)"
    and get_start: "get start k = None"
    and get_put: "invar t \<Longrightarrow> get (put k v t) = (get t)(k \<mapsto> v)"
begin

lemma get_put_same: "invar t \<Longrightarrow> get (put k v t) k = Some v"
  by (simp add: get_put)

lemma get_put_other: "invar t \<Longrightarrow> k' \<noteq> k \<Longrightarrow> get (put k v t) k' = get t k'"
  by (simp add: get_put)

lemma invar_puts: "invar t \<Longrightarrow> invar (fold (\<lambda>(k, v). put k v) kvs t)"
  by (induction kvs arbitrary: t) (auto intro: invar_put)

lemma get_puts:
  "invar t \<Longrightarrow> get (fold (\<lambda>(k, v). put k v) kvs t) = get t ++ map_of (rev kvs)"
proof (induction kvs rule: rev_induct)
  case Nil
  then show ?case by simp
next
  case (snoc kv kvs)
  obtain k v where "kv = (k, v)" by (cases kv)
  with snoc show ?case
    by (simp add: get_put invar_puts map_add_upd [symmetric] fun_eq_iff map_add_def)
qed

lemma get_puts_start: "get (fold (\<lambda>(k, v). put k v) kvs start) k = map_of (rev kvs) k"
  by (simp add: get_puts invar_start get_start map_add_def split: option.splits)

end

locale name_table = lookup_table +
  fixes del :: "'k \<Rightarrow> 't \<Rightarrow> 't"
  assumes invar_del: "invar t \<Longrightarrow> invar (del k t)"
    and get_del: "invar t \<Longrightarrow> get (del k t) = (get t)(k := None)"
begin

lemma get_del_same: "invar t \<Longrightarrow> get (del k t) k = None"
  by (simp add: get_del)

lemma get_del_other: "invar t \<Longrightarrow> k' \<noteq> k \<Longrightarrow> get (del k t) k' = get t k'"
  by (simp add: get_del)

lemma get_del_put: "invar t \<Longrightarrow> get (del k (put k v t)) = (get t)(k := None)"
  by (simp add: get_del get_put invar_put)

lemma get_put_del: "invar t \<Longrightarrow> get (put k v (del k t)) = get (put k v t)"
  by (simp add: get_del get_put invar_del)

end

interpretation hashmap: name_table "[]" hm_insert hm_get hm_wf hm_remove
  by unfold_locales auto

section \<open>Interface: a task driven by inputs\<close>

text \<open>
  A spawned task or a shared object is a step function on its state; which input comes next
  (a message, a signal, a clock reading) is the environment's choice, so a run is a list of
  inputs. An invariant every step keeps holds after every run.
\<close>

locale task =
  fixes step :: "'p \<Rightarrow> 's \<Rightarrow> 's"
    and inv :: "'s \<Rightarrow> bool"
  assumes inv_step: "inv s \<Longrightarrow> inv (step p s)"
begin

lemma inv_run: "inv s \<Longrightarrow> inv (fold step ps s)"
  by (induction ps arbitrary: s) (auto intro: inv_step)

end

text \<open>A task that has ended ignores every further input.\<close>

locale ending_task = task +
  fixes ended :: "'s \<Rightarrow> bool"
  assumes ended_step: "ended s \<Longrightarrow> step p s = s"
begin

lemma ended_run: "ended s \<Longrightarrow> fold step ps s = s"
  by (induction ps arbitrary: s) (auto simp: ended_step)

lemma ended_stable: "ended (fold step ps s) \<Longrightarrow> fold step (ps @ qs) s = fold step ps s"
  by (simp add: ended_run)

end

section \<open>Interface: a source of fresh identifiers\<close>

text \<open>
  \<open>AtomicU64::fetch_add(1)\<close> returns the old value and wraps around at \<open>2 ^ 64\<close>.
\<close>

definition fetch_add :: "u64 \<Rightarrow> u64 \<Rightarrow> u64 \<times> u64" where
  "fetch_add d c = (c, c + d)"

fun take_ids :: "('c \<Rightarrow> 'i \<times> 'c) \<Rightarrow> nat \<Rightarrow> 'c \<Rightarrow> 'i list" where
  "take_ids next_id 0 c = []"
| "take_ids next_id (Suc n) c = (case next_id c of (i, c') \<Rightarrow> i # take_ids next_id n c')"

locale id_source =
  fixes next_id :: "u64 \<Rightarrow> 'i \<times> u64"
    and code :: "'i \<Rightarrow> u64"
  assumes next_id_code: "next_id c = (i, c') \<Longrightarrow> code i = c \<and> c' = c + 1"
begin

lemma take_ids_code: "map code (take_ids next_id n c) = map (\<lambda>j. c + of_nat j) [0..<n]"
proof (induction n arbitrary: c)
  case 0
  then show ?case by simp
next
  case (Suc n)
  obtain i c' where ic: "next_id c = (i, c')" by (cases "next_id c")
  have "map (\<lambda>j. c' + of_nat j) [0..<n] = map (\<lambda>j. c + of_nat (Suc j)) [0..<n]"
    using next_id_code [OF ic] by simp
  also have "\<dots> = map (\<lambda>j. c + of_nat j) (map Suc [0..<n])"
    by simp
  finally show ?case
    using ic next_id_code [OF ic] Suc.IH [of c'] by (simp add: upt_conv_Cons map_Suc_upt del: upt_Suc)
qed

lemma take_ids_distinct:
  assumes "n \<le> 2 ^ 64"
  shows "distinct (take_ids next_id n c)"
proof -
  have "inj_on (\<lambda>j. c + of_nat j) {0..<n}"
  proof (rule inj_onI)
    fix i j
    assume ij: "i \<in> {0..<n}" "j \<in> {0..<n}" and eq: "c + of_nat i = c + of_nat j"
    from eq have "unat (of_nat i :: u64) = unat (of_nat j :: u64)" by simp
    with ij assms show "i = j" by (simp add: unat_of_nat)
  qed
  then have "distinct (map code (take_ids next_id n c))"
    by (simp add: take_ids_code distinct_map)
  then show ?thesis by (simp add: distinct_map)
qed

end

end
