(* ===== verification/Mailbox.thy ===== *)
theory Mailbox
  imports Cineyma_Prelude
begin

text \<open>
  Actor identifiers, mailbox errors, envelopes and addresses: \<open>src/actor.rs\<close>,
  \<open>src/error.rs\<close>, \<open>src/message.rs\<close>, \<open>src/envelope.rs\<close>, \<open>src/watcher.rs\<close>
  and \<open>src/address.rs\<close>. Tokio's bounded channel is a parameter (the record
  \<open>mpsc\<close>); what its documentation promises is the predicate \<open>mpsc_laws\<close>.
\<close>

section \<open>Actor identifiers\<close>

datatype ActorId = ActorId u64

definition NEXT_ID :: u64 where
  "NEXT_ID = 1"

definition ActorId_new :: "u64 \<Rightarrow> ActorId \<times> u64" where
  "ActorId_new counter = (case fetch_add 1 counter of (i, counter') \<Rightarrow> (ActorId i, counter'))"

primrec actor_code :: "ActorId \<Rightarrow> u64" where
  "actor_code (ActorId c) = c"

interpretation actor_ids: id_source ActorId_new actor_code
  by unfold_locales (auto simp: ActorId_new_def fetch_add_def)

section \<open>Mailbox errors\<close>

datatype MailboxError = MailboxClosed | Timeout | MailboxFull

fun MailboxError_fmt :: "MailboxError \<Rightarrow> string" where
  "MailboxError_fmt MailboxClosed = ''Actor's mailbox is closed''"
| "MailboxError_fmt Timeout = ''Requested operation timed out''"
| "MailboxError_fmt MailboxFull = ''Actor's mailbox is full''"

section \<open>Messages and envelopes\<close>

text \<open>
  \<open>'m\<close> is the type of the messages the program's own actors exchange; the crate itself sends
  only \<open>Terminated\<close>. A response channel is named by a number.
\<close>

datatype 'm message = User 'm | Terminated ActorId

record 'm MessageEnvelope =
  msg :: "'m message option"
  response_tx :: "nat option"

record 'm AsyncMessageEnvelope =
  async_msg :: "'m message option"
  async_response_tx :: "nat option"

datatype 'm ActorMessage =
    Sync "'m MessageEnvelope"
  | Async "'m AsyncMessageEnvelope"

definition MessageEnvelope_new :: "'m message \<Rightarrow> 'm MessageEnvelope" where
  "MessageEnvelope_new m = \<lparr>msg = Some m, response_tx = None\<rparr>"

definition MessageEnvelope_with_response :: "'m message \<Rightarrow> nat \<Rightarrow> 'm MessageEnvelope" where
  "MessageEnvelope_with_response m tx = \<lparr>msg = Some m, response_tx = Some tx\<rparr>"

definition AsyncMessageEnvelope_new :: "'m message \<Rightarrow> 'm AsyncMessageEnvelope" where
  "AsyncMessageEnvelope_new m = \<lparr>async_msg = Some m, async_response_tx = None\<rparr>"

definition AsyncMessageEnvelope_with_response :: "'m message \<Rightarrow> nat \<Rightarrow> 'm AsyncMessageEnvelope" where
  "AsyncMessageEnvelope_with_response m tx = \<lparr>async_msg = Some m, async_response_tx = Some tx\<rparr>"

section \<open>The bounded channel (parameter)\<close>

text \<open>
  \<open>mpsc_channel\<close> is None where \<open>mpsc::channel\<close> panics; \<open>mpsc_send\<close> is one poll of the
  future \<open>Sender::send\<close> (None: still waiting, Some True: Ok, Some False: Err);
  \<open>mpsc_recv\<close> is one poll of \<open>Receiver::recv\<close> (None: pending, Some None: the channel
  is closed); \<open>mpsc_drop_rx\<close> is the drop of the \<open>Receiver\<close>.
\<close>

datatype try_send_result = Sent | Full | Closed

record ('q, 'x) mpsc =
  mpsc_channel :: "nat \<Rightarrow> 'q option"
  mpsc_try_send :: "'x \<Rightarrow> 'q \<Rightarrow> try_send_result \<times> 'q"
  mpsc_send :: "'x \<Rightarrow> 'q \<Rightarrow> bool option \<times> 'q"
  mpsc_recv :: "'q \<Rightarrow> 'x option option \<times> 'q"
  mpsc_is_closed :: "'q \<Rightarrow> bool"
  mpsc_drop_rx :: "'q \<Rightarrow> 'q"

text \<open>
  The documented behaviour of a channel whose contents, capacity and state of the receiving
  half are read by \<open>contents\<close>, \<open>cap\<close> and \<open>live\<close>: a send appends and succeeds exactly
  while the receiver lives and there is room, a failed send changes nothing, a receive takes
  the oldest message, and dropping the receiver closes the channel and drops what it holds.
\<close>

definition try_send_law :: "('q \<Rightarrow> 'x list) \<Rightarrow> ('q \<Rightarrow> nat) \<Rightarrow> ('q \<Rightarrow> bool) \<Rightarrow> 'x \<Rightarrow> 'q \<Rightarrow> try_send_result \<Rightarrow> 'q \<Rightarrow> bool" where
  "try_send_law contents cap live x q r q' \<longleftrightarrow>
     cap q' = cap q \<and> live q' = live q \<and>
     r = (if \<not> live q then Closed else if length (contents q) < cap q then Sent else Full) \<and>
     contents q' = (if live q \<and> length (contents q) < cap q then contents q @ [x] else contents q)"

definition send_law :: "('q \<Rightarrow> 'x list) \<Rightarrow> ('q \<Rightarrow> nat) \<Rightarrow> ('q \<Rightarrow> bool) \<Rightarrow> 'x \<Rightarrow> 'q \<Rightarrow> bool option \<Rightarrow> 'q \<Rightarrow> bool" where
  "send_law contents cap live x q r q' \<longleftrightarrow>
     cap q' = cap q \<and> live q' = live q \<and>
     r = (if \<not> live q then Some False else if length (contents q) < cap q then Some True else None) \<and>
     contents q' = (if live q \<and> length (contents q) < cap q then contents q @ [x] else contents q)"

definition recv_law :: "('q \<Rightarrow> 'x list) \<Rightarrow> ('q \<Rightarrow> nat) \<Rightarrow> ('q \<Rightarrow> bool) \<Rightarrow> 'q \<Rightarrow> 'x option option \<Rightarrow> 'q \<Rightarrow> bool" where
  "recv_law contents cap live q r q' \<longleftrightarrow>
     cap q' = cap q \<and> live q' = live q \<and>
     (case contents q of
        [] \<Rightarrow> contents q' = [] \<and> (r = None \<or> r = Some None)
      | x # xs \<Rightarrow> contents q' = xs \<and> r = Some (Some x))"

definition mpsc_laws ::
    "('q, 'x) mpsc \<Rightarrow> ('q \<Rightarrow> 'x list) \<Rightarrow> ('q \<Rightarrow> nat) \<Rightarrow> ('q \<Rightarrow> bool) \<Rightarrow> bool" where
  "mpsc_laws M contents cap live \<longleftrightarrow>
     (\<forall>n q. mpsc_channel M n = Some q \<longrightarrow> contents q = [] \<and> cap q = n \<and> live q) \<and>
     (\<forall>x q. try_send_law contents cap live x q (fst (mpsc_try_send M x q)) (snd (mpsc_try_send M x q))) \<and>
     (\<forall>x q. send_law contents cap live x q (fst (mpsc_send M x q)) (snd (mpsc_send M x q))) \<and>
     (\<forall>q. recv_law contents cap live q (fst (mpsc_recv M q)) (snd (mpsc_recv M q))) \<and>
     (\<forall>q. mpsc_is_closed M q \<longleftrightarrow> \<not> live q) \<and>
     (\<forall>q. \<not> live (mpsc_drop_rx M q) \<and> contents (mpsc_drop_rx M q) = [] \<and> cap (mpsc_drop_rx M q) = cap q)"

lemma mpsc_try_sendD:
  assumes "mpsc_laws M contents cap live" and "mpsc_try_send M x q = (r, q')"
  shows "try_send_law contents cap live x q r q'"
proof -
  from assms(1) have "try_send_law contents cap live x q (fst (mpsc_try_send M x q)) (snd (mpsc_try_send M x q))"
    by (simp add: mpsc_laws_def)
  with assms(2) show ?thesis by simp
qed

lemma mpsc_sendD:
  assumes "mpsc_laws M contents cap live" and "mpsc_send M x q = (r, q')"
  shows "send_law contents cap live x q r q'"
proof -
  from assms(1) have "send_law contents cap live x q (fst (mpsc_send M x q)) (snd (mpsc_send M x q))"
    by (simp add: mpsc_laws_def)
  with assms(2) show ?thesis by simp
qed

lemma mpsc_recvD:
  assumes "mpsc_laws M contents cap live" and "mpsc_recv M q = (r, q')"
  shows "recv_law contents cap live q r q'"
proof -
  from assms(1) have "recv_law contents cap live q (fst (mpsc_recv M q)) (snd (mpsc_recv M q))"
    by (simp add: mpsc_laws_def)
  with assms(2) show ?thesis by simp
qed

text \<open>A channel that satisfies the laws, to evaluate concrete runs on.\<close>

type_synonym 'x list_channel = "nat \<times> bool \<times> 'x list"

definition list_mpsc :: "('x list_channel, 'x) mpsc" where
  "list_mpsc =
     \<lparr>mpsc_channel = (\<lambda>n. if n = 0 then None else Some (n, True, [])),
      mpsc_try_send = (\<lambda>x (n, live, xs).
        if \<not> live then (Closed, (n, live, xs))
        else if length xs < n then (Sent, (n, live, xs @ [x])) else (Full, (n, live, xs))),
      mpsc_send = (\<lambda>x (n, live, xs).
        if \<not> live then (Some False, (n, live, xs))
        else if length xs < n then (Some True, (n, live, xs @ [x])) else (None, (n, live, xs))),
      mpsc_recv = (\<lambda>(n, live, xs).
        case xs of [] \<Rightarrow> (None, (n, live, xs)) | x # ys \<Rightarrow> (Some (Some x), (n, live, ys))),
      mpsc_is_closed = (\<lambda>(n, live, xs). \<not> live),
      mpsc_drop_rx = (\<lambda>(n, live, xs). (n, False, []))\<rparr>"

lemma list_mpsc_laws: "mpsc_laws list_mpsc (\<lambda>(n, live, xs). xs) fst (\<lambda>(n, live, xs). live)"
  by (simp add: mpsc_laws_def list_mpsc_def try_send_law_def send_law_def recv_law_def
      split: list.split)

section \<open>The state actors share\<close>

text \<open>
  What the addresses of all actors of a process share: the identifier counter, the numbers of
  the \<open>Notify\<close> objects, response channels and timer handles created so far, each actor's mailbox and
  each actor's list of watchers (the \<open>Arc<Mutex<Vec<..>>>\<close> of its address).
\<close>

text \<open>The sending half and the watcher list of an address are found under its identifier.\<close>

record Addr =
  addr_id :: ActorId
  addr_stop_signal :: nat

record 'q world =
  next_actor_id :: u64
  next_notify :: nat
  next_oneshot :: nat
  next_timer :: nat
  mailbox :: "ActorId \<Rightarrow> 'q"
  watchers :: "ActorId \<Rightarrow> Addr list"

definition Addr_new :: "ActorId \<Rightarrow> nat \<Rightarrow> Addr" where
  "Addr_new i stop = \<lparr>addr_id = i, addr_stop_signal = stop\<rparr>"

definition set_mailbox :: "ActorId \<Rightarrow> 'q \<Rightarrow> 'q world \<Rightarrow> 'q world" where
  "set_mailbox i q w = w\<lparr>mailbox := (mailbox w)(i := q)\<rparr>"

lemma set_mailbox_sel [simp]:
  "mailbox (set_mailbox i q w) j = (if j = i then q else mailbox w j)"
  "watchers (set_mailbox i q w) = watchers w"
  "next_actor_id (set_mailbox i q w) = next_actor_id w"
  "next_notify (set_mailbox i q w) = next_notify w"
  "next_oneshot (set_mailbox i q w) = next_oneshot w"
  "next_timer (set_mailbox i q w) = next_timer w"
  by (simp_all add: set_mailbox_def)

text \<open>The receiver of an actor's mailbox is owned by its task and dropped when the task is over.\<close>

definition drop_rx :: "('q, 'x) mpsc \<Rightarrow> ActorId \<Rightarrow> 'q world \<Rightarrow> 'q world" where
  "drop_rx M i w = set_mailbox i (mpsc_drop_rx M (mailbox w i)) w"

section \<open>Sending through an address\<close>

type_synonym ('q, 'm) channel = "('q, 'm ActorMessage) mpsc"

fun map_try_send :: "try_send_result \<Rightarrow> MailboxError + unit" where
  "map_try_send Sent = Inr ()"
| "map_try_send Full = Inl MailboxFull"
| "map_try_send Closed = Inl MailboxClosed"

definition Addr_try_send ::
    "('q, 'm) channel \<Rightarrow> Addr \<Rightarrow> 'm message \<Rightarrow> 'q world \<Rightarrow> (MailboxError + unit) \<times> 'q world" where
  "Addr_try_send M a m w =
     (case mpsc_try_send M (Sync (MessageEnvelope_new m)) (mailbox w (addr_id a)) of
        (r, q) \<Rightarrow> (map_try_send r, set_mailbox (addr_id a) q w))"

definition Addr_try_send_async ::
    "('q, 'm) channel \<Rightarrow> Addr \<Rightarrow> 'm message \<Rightarrow> 'q world \<Rightarrow> (MailboxError + unit) \<times> 'q world" where
  "Addr_try_send_async M a m w =
     (case mpsc_try_send M (Async (AsyncMessageEnvelope_new m)) (mailbox w (addr_id a)) of
        (r, q) \<Rightarrow> (map_try_send r, set_mailbox (addr_id a) q w))"

text \<open>
  An async method is a future; a definition below is one poll of it, None while it waits.
\<close>

definition enqueue_poll ::
    "('q, 'm) channel \<Rightarrow> Addr \<Rightarrow> 'm ActorMessage \<Rightarrow> 'q world
      \<Rightarrow> (MailboxError + unit) option \<times> 'q world" where
  "enqueue_poll M a x w =
     (case mpsc_send M x (mailbox w (addr_id a)) of
        (r, q) \<Rightarrow> (map_option (\<lambda>ok. if ok then Inr () else Inl MailboxClosed) r,
                   set_mailbox (addr_id a) q w))"

definition Addr_do_send ::
    "('q, 'm) channel \<Rightarrow> Addr \<Rightarrow> 'm message \<Rightarrow> 'q world
      \<Rightarrow> (MailboxError + unit) option \<times> 'q world" where
  "Addr_do_send M a m w = enqueue_poll M a (Sync (MessageEnvelope_new m)) w"

definition Addr_do_send_async ::
    "('q, 'm) channel \<Rightarrow> Addr \<Rightarrow> 'm message \<Rightarrow> 'q world
      \<Rightarrow> (MailboxError + unit) option \<times> 'q world" where
  "Addr_do_send_async M a m w = enqueue_poll M a (Async (AsyncMessageEnvelope_new m)) w"

text \<open>
  A request first waits for room in the mailbox and then for the response. The response
  channel is polled through \<open>rx\<close>: None while nothing happened, Some None when the sending
  half was dropped, Some (Some r) when it was used.
\<close>

datatype 'm request =
    Enqueueing "'m ActorMessage" nat
  | Awaiting nat

definition Addr_send_start :: "'m message \<Rightarrow> 'q world \<Rightarrow> 'm request \<times> 'q world" where
  "Addr_send_start m w =
     (let tx = next_oneshot w
      in (Enqueueing (Sync (MessageEnvelope_with_response m tx)) tx, w\<lparr>next_oneshot := Suc tx\<rparr>))"

definition Addr_send_async_start :: "'m message \<Rightarrow> 'q world \<Rightarrow> 'm request \<times> 'q world" where
  "Addr_send_async_start m w =
     (let tx = next_oneshot w
      in (Enqueueing (Async (AsyncMessageEnvelope_with_response m tx)) tx, w\<lparr>next_oneshot := Suc tx\<rparr>))"

fun map_reply :: "'r option option \<Rightarrow> (MailboxError + 'r) option" where
  "map_reply None = None"
| "map_reply (Some None) = Some (Inl MailboxClosed)"
| "map_reply (Some (Some r)) = Some (Inr r)"

fun Addr_send_poll ::
    "('q, 'm) channel \<Rightarrow> Addr \<Rightarrow> (nat \<Rightarrow> 'r option option) \<Rightarrow> 'm request \<Rightarrow> 'q world
      \<Rightarrow> (MailboxError + 'r) option \<times> 'm request \<times> 'q world" where
  "Addr_send_poll M a rx (Enqueueing x tx) w =
     (case enqueue_poll M a x w of
        (None, w') \<Rightarrow> (None, Enqueueing x tx, w')
      | (Some (Inl e), w') \<Rightarrow> (Some (Inl e), Awaiting tx, w')
      | (Some (Inr _), w') \<Rightarrow> (map_reply (rx tx), Awaiting tx, w'))"
| "Addr_send_poll M a rx (Awaiting tx) w = (map_reply (rx tx), Awaiting tx, w)"

text \<open>
  \<open>send_timeout\<close> puts only the wait for the response under the timer, whose state is
  \<open>elapsed\<close>; the timer is looked at after the response channel.
\<close>

fun map_timeout :: "bool \<Rightarrow> 'r option option \<Rightarrow> (MailboxError + 'r) option" where
  "map_timeout elapsed None = (if elapsed then Some (Inl Timeout) else None)"
| "map_timeout elapsed (Some res) = map_reply (Some res)"

fun Addr_send_timeout_poll ::
    "('q, 'm) channel \<Rightarrow> Addr \<Rightarrow> bool \<Rightarrow> (nat \<Rightarrow> 'r option option) \<Rightarrow> 'm request \<Rightarrow> 'q world
      \<Rightarrow> (MailboxError + 'r) option \<times> 'm request \<times> 'q world" where
  "Addr_send_timeout_poll M a elapsed rx (Enqueueing x tx) w =
     (case enqueue_poll M a x w of
        (None, w') \<Rightarrow> (None, Enqueueing x tx, w')
      | (Some (Inl e), w') \<Rightarrow> (Some (Inl e), Awaiting tx, w')
      | (Some (Inr _), w') \<Rightarrow> (map_timeout elapsed (rx tx), Awaiting tx, w'))"
| "Addr_send_timeout_poll M a elapsed rx (Awaiting tx) w =
     (map_timeout elapsed (rx tx), Awaiting tx, w)"

definition Addr_is_alive :: "('q, 'm) channel \<Rightarrow> Addr \<Rightarrow> 'q world \<Rightarrow> bool" where
  "Addr_is_alive M a w = (\<not> mpsc_is_closed M (mailbox w (addr_id a)))"

section \<open>Watchers\<close>

definition Addr_add_watcher :: "Addr \<Rightarrow> Addr \<Rightarrow> 'q world \<Rightarrow> 'q world" where
  "Addr_add_watcher a watcher w =
     w\<lparr>watchers := (watchers w)(addr_id a := watchers w (addr_id a) @ [watcher])\<rparr>"

definition Watcher_notify ::
    "('q, 'm) channel \<Rightarrow> ActorId \<Rightarrow> Addr \<Rightarrow> 'q world \<Rightarrow> 'q world" where
  "Watcher_notify M i watcher w = snd (Addr_try_send M watcher (Terminated i) w)"

definition Addr_notify_watchers :: "('q, 'm) channel \<Rightarrow> Addr \<Rightarrow> 'q world \<Rightarrow> 'q world" where
  "Addr_notify_watchers M a w = fold (Watcher_notify M (addr_id a)) (watchers w (addr_id a)) w"

section \<open>What a send does to the mailboxes\<close>

abbreviation terminated_envelope :: "ActorId \<Rightarrow> 'm ActorMessage" where
  "terminated_envelope i \<equiv> Sync (MessageEnvelope_new (Terminated i))"

lemma try_send_mailbox:
  assumes "mpsc_laws M contents cap live" and "Addr_try_send M a m w = (r, w')"
  shows "try_send_law contents cap live (Sync (MessageEnvelope_new m)) (mailbox w (addr_id a))
           (fst (mpsc_try_send M (Sync (MessageEnvelope_new m)) (mailbox w (addr_id a))))
           (mailbox w' (addr_id a))"
    and "i \<noteq> addr_id a \<Longrightarrow> mailbox w' i = mailbox w i"
    and "watchers w' = watchers w"
    and "r = map_try_send (fst (mpsc_try_send M (Sync (MessageEnvelope_new m)) (mailbox w (addr_id a))))"
  using assms by (auto simp: Addr_try_send_def split: prod.splits dest: mpsc_try_sendD)

lemma try_send_effect:
  assumes "mpsc_laws M contents cap live"
  shows "cap (mailbox (snd (Addr_try_send M x m w)) v) = cap (mailbox w v)"
    and "live (mailbox (snd (Addr_try_send M x m w)) v) = live (mailbox w v)"
    and "contents (mailbox (snd (Addr_try_send M x m w)) v) =
      contents (mailbox w v) @
        (if v = addr_id x \<and> live (mailbox w v) \<and> length (contents (mailbox w v)) < cap (mailbox w v)
         then [Sync (MessageEnvelope_new m)] else [])"
proof -
  obtain r w' where t: "Addr_try_send M x m w = (r, w')"
    by (cases "Addr_try_send M x m w")
  note f = try_send_mailbox [OF assms t]
  show "cap (mailbox (snd (Addr_try_send M x m w)) v) = cap (mailbox w v)"
    using f(1) f(2) [of v] t by (cases "v = addr_id x") (auto simp: try_send_law_def)
  show "live (mailbox (snd (Addr_try_send M x m w)) v) = live (mailbox w v)"
    using f(1) f(2) [of v] t by (cases "v = addr_id x") (auto simp: try_send_law_def)
  show "contents (mailbox (snd (Addr_try_send M x m w)) v) =
      contents (mailbox w v) @
        (if v = addr_id x \<and> live (mailbox w v) \<and> length (contents (mailbox w v)) < cap (mailbox w v)
         then [Sync (MessageEnvelope_new m)] else [])"
    using f(1) f(2) [of v] t by (cases "v = addr_id x") (auto simp: try_send_law_def)
qed

definition room :: "('q \<Rightarrow> 'x list) \<Rightarrow> ('q \<Rightarrow> nat) \<Rightarrow> ('q \<Rightarrow> bool) \<Rightarrow> 'q \<Rightarrow> nat" where
  "room contents cap live q = (if live q then cap q - length (contents q) else 0)"

lemma fold_try_send:
  assumes "mpsc_laws M contents cap live"
  shows "contents (mailbox (fold (\<lambda>x w. snd (Addr_try_send M x m w)) ws w) v) =
    contents (mailbox w v) @
      replicate (min (length (filter (\<lambda>x. addr_id x = v) ws)) (room contents cap live (mailbox w v)))
        (Sync (MessageEnvelope_new m))"
proof (induction ws arbitrary: w)
  case Nil
  then show ?case by simp
next
  case (Cons x ws)
  let ?w = "snd (Addr_try_send M x m w)"
  note n = try_send_effect [OF assms, of x m w v]
  have "room contents cap live (mailbox ?w v) =
      (if v = addr_id x then room contents cap live (mailbox w v) - 1 else room contents cap live (mailbox w v))"
    using n by (auto simp: room_def)
  moreover have "room contents cap live (mailbox w v) > 0 \<longleftrightarrow>
      live (mailbox w v) \<and> length (contents (mailbox w v)) < cap (mailbox w v)"
    by (auto simp: room_def)
  ultimately show ?case
    using Cons [of ?w] n(3)
    by (cases "room contents cap live (mailbox w v)") (auto simp: min_Suc_Suc)
qed

text \<open>
  C19. Death notification. When an actor ends, every registered watcher gets one
  \<open>Terminated\<close> message per registration, appended behind what its mailbox already
  holds, but only as long as its mailbox has room and its receiver lives; the rest is dropped
  without an error, and no other mailbox changes.
\<close>

theorem notify_watchers_delivers:
  assumes "mpsc_laws M contents cap live"
  shows "contents (mailbox (Addr_notify_watchers M a w) v) =
    contents (mailbox w v) @
      replicate (min (length (filter (\<lambda>x. addr_id x = v) (watchers w (addr_id a))))
                     (room contents cap live (mailbox w v)))
        (terminated_envelope (addr_id a))"
  using fold_try_send [OF assms, of "Terminated (addr_id a)" "watchers w (addr_id a)" w v]
  by (simp add: Addr_notify_watchers_def Watcher_notify_def [abs_def])

theorem notify_watchers_delivers_witness:
  "\<exists>w :: nat ActorMessage list_channel world. \<exists>a.
     (\<lambda>(n, live, xs). xs) (mailbox (Addr_notify_watchers list_mpsc a w) (ActorId 2)) = [terminated_envelope (ActorId 1)] \<and>
     (\<lambda>(n, live, xs). xs) (mailbox (Addr_notify_watchers list_mpsc a w) (ActorId 3)) = [terminated_envelope (ActorId 9)]"
proof -
  let ?a = "\<lparr>addr_id = ActorId 1, addr_stop_signal = 0\<rparr>"
  let ?b = "\<lparr>addr_id = ActorId 2, addr_stop_signal = 0\<rparr>"
  let ?c = "\<lparr>addr_id = ActorId 3, addr_stop_signal = 0\<rparr>"
  let ?full = "(1, True, [terminated_envelope (ActorId 9)]) :: nat ActorMessage list_channel"
  let ?free = "(1, True, []) :: nat ActorMessage list_channel"
  let ?w = "\<lparr>next_actor_id = 4, next_notify = 4, next_oneshot = 0, next_timer = 0,
     mailbox = (\<lambda>i. if i = ActorId 3 then ?full else ?free),
     watchers = (\<lambda>i. if i = ActorId 1 then [?b, ?c] else [])\<rparr>"
  note d = notify_watchers_delivers [OF list_mpsc_laws, of ?a ?w]
  show ?thesis
    by (rule exI [of _ ?w], rule exI [of _ ?a])
      (use d [of "ActorId 2"] d [of "ActorId 3"] in \<open>simp add: room_def\<close>)
qed

section \<open>Mailboxes are bounded and keep the order of accepted sends\<close>

datatype 'm send_op =
    OpTrySend Addr "'m message"
  | OpTrySendAsync Addr "'m message"
  | OpDoSend Addr "'m message"
  | OpDoSendAsync Addr "'m message"

primrec op_target :: "'m send_op \<Rightarrow> ActorId" where
  "op_target (OpTrySend a m) = addr_id a"
| "op_target (OpTrySendAsync a m) = addr_id a"
| "op_target (OpDoSend a m) = addr_id a"
| "op_target (OpDoSendAsync a m) = addr_id a"

primrec op_envelope :: "'m send_op \<Rightarrow> 'm ActorMessage" where
  "op_envelope (OpTrySend a m) = Sync (MessageEnvelope_new m)"
| "op_envelope (OpTrySendAsync a m) = Async (AsyncMessageEnvelope_new m)"
| "op_envelope (OpDoSend a m) = Sync (MessageEnvelope_new m)"
| "op_envelope (OpDoSendAsync a m) = Async (AsyncMessageEnvelope_new m)"

text \<open>One send, with whether its caller saw \<open>Ok\<close>.\<close>

primrec run_send_op :: "('q, 'm) channel \<Rightarrow> 'm send_op \<Rightarrow> 'q world \<Rightarrow> bool \<times> 'q world" where
  "run_send_op M (OpTrySend a m) w = map_prod (\<lambda>r. r = Inr ()) id (Addr_try_send M a m w)"
| "run_send_op M (OpTrySendAsync a m) w = map_prod (\<lambda>r. r = Inr ()) id (Addr_try_send_async M a m w)"
| "run_send_op M (OpDoSend a m) w = map_prod (\<lambda>r. r = Some (Inr ())) id (Addr_do_send M a m w)"
| "run_send_op M (OpDoSendAsync a m) w = map_prod (\<lambda>r. r = Some (Inr ())) id (Addr_do_send_async M a m w)"

fun run_send_ops :: "('q, 'm) channel \<Rightarrow> 'm send_op list \<Rightarrow> 'q world \<Rightarrow> 'm send_op list \<times> 'q world" where
  "run_send_ops M [] w = ([], w)"
| "run_send_ops M (p # ps) w =
     (case run_send_op M p w of
        (ok, w') \<Rightarrow> map_prod (\<lambda>acc. if ok then p # acc else acc) id (run_send_ops M ps w'))"

lemma map_try_send_ok: "map_try_send r = Inr () \<longleftrightarrow> r = Sent"
  by (cases r) auto

lemma map_send_ok:
  "map_option (\<lambda>ok. if ok then Inr () else Inl MailboxClosed) r = Some (Inr ()) \<longleftrightarrow> r = Some True"
  by (cases r) auto

lemma run_send_op_cases:
  "run_send_op M p w = (case mpsc_try_send M (op_envelope p) (mailbox w (op_target p)) of
     (r, q) \<Rightarrow> (r = Sent, set_mailbox (op_target p) q w)) \<or>
   run_send_op M p w = (case mpsc_send M (op_envelope p) (mailbox w (op_target p)) of
     (r, q) \<Rightarrow> (r = Some True, set_mailbox (op_target p) q w))"
  by (cases p)
    (simp_all add: Addr_try_send_def Addr_try_send_async_def Addr_do_send_def Addr_do_send_async_def
      enqueue_poll_def map_try_send_ok map_send_ok split: prod.split del: map_option_eq_Some)

lemma run_send_op_mailbox:
  assumes "mpsc_laws M contents cap live" and "run_send_op M p w = (ok, w')"
  shows "ok \<longleftrightarrow> live (mailbox w (op_target p)) \<and> length (contents (mailbox w (op_target p))) < cap (mailbox w (op_target p))"
    and "contents (mailbox w' i) = contents (mailbox w i) @ (if ok \<and> op_target p = i then [op_envelope p] else [])"
    and "cap (mailbox w' i) = cap (mailbox w i)"
proof -
  let ?q = "mailbox w (op_target p)"
  obtain q where w': "w' = set_mailbox (op_target p) q w" and q: "cap q = cap ?q"
    "contents q = (if ok then contents ?q @ [op_envelope p] else contents ?q)"
    and ok: "ok \<longleftrightarrow> live ?q \<and> length (contents ?q) < cap ?q"
    using run_send_op_cases [of M p w] assms(2)
      mpsc_try_sendD [OF assms(1), of "op_envelope p" ?q] mpsc_sendD [OF assms(1), of "op_envelope p" ?q]
    by (auto simp: try_send_law_def send_law_def split: prod.splits if_splits)
  from ok show "ok \<longleftrightarrow> live ?q \<and> length (contents ?q) < cap ?q" .
  from w' q show "contents (mailbox w' i) = contents (mailbox w i) @ (if ok \<and> op_target p = i then [op_envelope p] else [])"
    by simp
  from w' q show "cap (mailbox w' i) = cap (mailbox w i)" by simp
qed

text \<open>
  C10. Bounded FIFO mailboxes. Whatever sends are made to whatever actors, a mailbox ends up
  holding what it held before followed by exactly the messages whose send reported success, in
  the order of the sends, and it never exceeds its capacity; a send that reports
  \<open>MailboxFull\<close> or \<open>MailboxClosed\<close>, or still waits, leaves every mailbox as it was.
\<close>

theorem mailbox_fifo_bounded:
  assumes "mpsc_laws M contents cap live"
    and "\<And>j. length (contents (mailbox w j)) \<le> cap (mailbox w j)"
    and "run_send_ops M ps w = (acc, w')"
  shows "contents (mailbox w' i) = contents (mailbox w i) @ map op_envelope (filter (\<lambda>p. op_target p = i) acc)
    \<and> length (contents (mailbox w' i)) \<le> cap (mailbox w i)"
  using assms(2,3)
proof (induction ps arbitrary: w acc)
  case Nil
  then show ?case by simp
next
  case (Cons p ps)
  obtain ok w1 where r: "run_send_op M p w = (ok, w1)" by (cases "run_send_op M p w")
  obtain acc1 where r1: "run_send_ops M ps w1 = (acc1, w')" and acc: "acc = (if ok then p # acc1 else acc1)"
    using Cons.prems(2) r by (cases "run_send_ops M ps w1") auto
  note m = run_send_op_mailbox [OF assms(1) r]
  have "length (contents (mailbox w1 j)) \<le> cap (mailbox w1 j)" for j
    using Cons.prems(1) [of j] m(1) m(2) [of j] m(3) [of j] by auto
  from Cons.IH [OF this r1] m(2) [of i] m(3) [of i] acc show ?case by auto
qed

definition sample_world :: "nat ActorMessage list_channel world" where
  "sample_world = \<lparr>next_actor_id = 4, next_notify = 4, next_oneshot = 0, next_timer = 0,
     mailbox = (\<lambda>i. (2, True, [])), watchers = (\<lambda>i. [])\<rparr>"

theorem mailbox_fifo_bounded_witness:
  "(\<lambda>(n, live, xs). xs)
     (mailbox (snd (run_send_ops list_mpsc
        [OpTrySend (Addr_new (ActorId 1) 0) (User 7), OpTrySend (Addr_new (ActorId 2) 0) (User 8),
         OpDoSendAsync (Addr_new (ActorId 1) 0) (User 9), OpTrySend (Addr_new (ActorId 1) 0) (User 10)] sample_world)) (ActorId 1))
   = [Sync (MessageEnvelope_new (User 7)), Async (AsyncMessageEnvelope_new (User 9))]"
proof -
  let ?ps = "[OpTrySend (Addr_new (ActorId 1) 0) (User 7), OpTrySend (Addr_new (ActorId 2) 0) (User 8),
         OpDoSendAsync (Addr_new (ActorId 1) 0) (User 9), OpTrySend (Addr_new (ActorId 1) 0) (User (10 :: nat))]"
  have acc: "fst (run_send_ops list_mpsc ?ps sample_world) = take 3 ?ps"
    by (simp add: Addr_try_send_def Addr_do_send_async_def enqueue_poll_def list_mpsc_def Addr_new_def sample_world_def)
  have wf: "length ((\<lambda>(n, live, xs). xs) (mailbox sample_world j)) \<le> fst (mailbox sample_world j)" for j
    by (simp add: sample_world_def)
  show ?thesis
    using mailbox_fifo_bounded [OF list_mpsc_laws wf surjective_pairing, of ?ps "ActorId 1"]
    unfolding acc by (simp add: sample_world_def Addr_new_def)
qed

section \<open>Requests\<close>

text \<open>
  C40. The timeout of \<open>send_timeout\<close> does not bound the wait for a full mailbox: while the
  target lives and its mailbox is full, a poll of the request stays pending, elapsed timer or
  not, and leaves the request and the mailbox where they were.
\<close>

theorem send_timeout_waits_for_room:
  assumes "mpsc_laws M contents cap live"
    and "live (mailbox w (addr_id a))"
    and "cap (mailbox w (addr_id a)) \<le> length (contents (mailbox w (addr_id a)))"
    and "Addr_send_timeout_poll M a elapsed rx (Enqueueing x tx) w = (res, req', w')"
  shows "res = None \<and> req' = Enqueueing x tx \<and> contents (mailbox w' i) = contents (mailbox w i)"
  using assms
  by (auto simp: enqueue_poll_def send_law_def split: prod.splits if_splits dest!: mpsc_sendD)

theorem send_timeout_waits_for_room_witness:
  "fst (Addr_send_timeout_poll list_mpsc (Addr_new (ActorId 1) 0) True (\<lambda>_. None :: nat option option)
      (Enqueueing (Sync (MessageEnvelope_with_response (User 1) 0)) 0)
      (set_mailbox (ActorId 1) (1, True, [Sync (MessageEnvelope_new (User 0))]) sample_world)) = None"
proof -
  let ?w = "set_mailbox (ActorId 1) (1, True, [Sync (MessageEnvelope_new (User (0 :: nat)))]) sample_world"
  let ?p = "Addr_send_timeout_poll list_mpsc (Addr_new (ActorId 1) 0) True (\<lambda>_. None :: nat option option)
      (Enqueueing (Sync (MessageEnvelope_with_response (User 1) 0)) 0) ?w"
  obtain res req' w' where p: "?p = (res, req', w')" by (cases ?p)
  have "res = None"
    using send_timeout_waits_for_room [OF list_mpsc_laws _ _ p] by (simp add: Addr_new_def)
  with p show ?thesis by simp
qed

text \<open>
  Actor identifiers are unique: the first \<open>2 ^ 64\<close> identifiers handed out by a process
  are pairwise different, whatever the counter starts from.
\<close>

lemma actor_ids_unique:
  assumes "n \<le> 2 ^ 64"
  shows "distinct (take_ids ActorId_new n counter)"
  using assms by (rule actor_ids.take_ids_distinct)

end
