(* ===== verification/Supervisor.thy ===== *)
theory Supervisor
  imports Cineyma_Prelude
begin

text \<open>
  The supervision policy of \<open>src/supervisor.rs\<close>: the strategies and the restart tracker,
  which grants a restart when fewer than \<open>max_restarts\<close> restarts were granted in the last
  \<open>within\<close>. The tracker forgets old timestamps; the lemmas compare it with a
  specification that remembers every restart it ever granted.
\<close>

section \<open>Strategies\<close>

datatype SupervisorStrategy =
    Stop
  | Restart u32 duration
  | Escalate

definition default_strategy :: SupervisorStrategy where
  "default_strategy = Stop"

definition restart :: "u32 \<Rightarrow> duration \<Rightarrow> SupervisorStrategy" where
  "restart max_restarts within = Restart max_restarts within"

section \<open>The restart tracker\<close>

record RestartTracker =
  restart_times :: "instant list"
  max_restarts :: u32
  within :: duration

definition RestartTracker_new :: "u32 \<Rightarrow> duration \<Rightarrow> RestartTracker" where
  "RestartTracker_new m w = \<lparr>restart_times = [], max_restarts = m, within = w\<rparr>"

text \<open>\<open>record_restart\<close> reads the clock once; the reading is the first argument.\<close>

definition record_restart :: "instant \<Rightarrow> RestartTracker \<Rightarrow> bool \<times> RestartTracker" where
  "record_restart now t =
     (let recent = filter (\<lambda>time. duration_since now time \<le> within t) (restart_times t)
      in if length recent < unat (max_restarts t)
         then (True, t\<lparr>restart_times := recent @ [now]\<rparr>)
         else (False, t\<lparr>restart_times := recent\<rparr>))"

text \<open>A sequence of failures at the given clock readings: the readings that were granted.\<close>

fun granted_restarts :: "instant list \<Rightarrow> RestartTracker \<Rightarrow> instant list" where
  "granted_restarts [] t = []"
| "granted_restarts (now # ts) t =
     (case record_restart now t of
        (ok, t') \<Rightarrow> (if ok then [now] else []) @ granted_restarts ts t')"

lemma record_restart_config [simp]:
  "max_restarts (snd (record_restart now t)) = max_restarts t"
  "within (snd (record_restart now t)) = within t"
  by (simp_all add: record_restart_def Let_def)

section \<open>The specification: remember everything\<close>

definition in_window :: "duration \<Rightarrow> instant \<Rightarrow> instant \<Rightarrow> bool" where
  "in_window w now g \<longleftrightarrow> duration_since now g \<le> w"

fun granted_spec :: "u32 \<Rightarrow> duration \<Rightarrow> instant list \<Rightarrow> instant list \<Rightarrow> instant list" where
  "granted_spec m w hist [] = []"
| "granted_spec m w hist (now # ts) =
     (if length (filter (in_window w now) hist) < unat m
      then now # granted_spec m w (hist @ [now]) ts
      else granted_spec m w hist ts)"

text \<open>
  The tracker's list and the full history agree on every window that ends now or later: what
  was forgotten can never be inside a window again, because the clock does not go back.
\<close>

definition tracks :: "instant \<Rightarrow> RestartTracker \<Rightarrow> instant list \<Rightarrow> bool" where
  "tracks since t hist \<longleftrightarrow>
     (\<forall>now\<ge>since. filter (in_window (within t) now) (restart_times t)
               = filter (in_window (within t) now) hist)"

lemma in_window_later: "now \<le> now' \<Longrightarrow> in_window w now' g \<Longrightarrow> in_window w now g"
  by (simp add: in_window_def duration_since_def)

lemma filter_window_later:
  "now \<le> now' \<Longrightarrow> filter (in_window w now') (filter (in_window w now) xs) = filter (in_window w now') xs"
  by (auto simp: filter_filter intro!: filter_cong dest: in_window_later)

lemma record_restart_window:
  "record_restart now t =
     (let recent = filter (in_window (within t) now) (restart_times t)
      in if length recent < unat (max_restarts t)
         then (True, t\<lparr>restart_times := recent @ [now]\<rparr>)
         else (False, t\<lparr>restart_times := recent\<rparr>))"
  by (simp add: record_restart_def in_window_def [abs_def])

lemma tracks_step:
  assumes "tracks since t hist" and "since \<le> now" and "record_restart now t = (ok, t')"
  shows "ok \<longleftrightarrow> length (filter (in_window (within t) now) hist) < unat (max_restarts t)"
    and "tracks now t' (if ok then hist @ [now] else hist)"
proof -
  let ?F = "\<lambda>n. filter (in_window (within t) n)"
  have eq: "?F n (restart_times t) = ?F n hist" if "now \<le> n" for n
    using assms(1,2) that by (simp add: tracks_def)
  have later: "?F n (?F now (restart_times t)) = ?F n hist" if "now \<le> n" for n
    using filter_window_later [OF that] eq [OF that] by simp
  show "ok \<longleftrightarrow> length (?F now hist) < unat (max_restarts t)"
    using assms(3) eq [of now] by (auto simp: record_restart_window Let_def split: if_splits)
  show "tracks now t' (if ok then hist @ [now] else hist)"
    using assms(3) later
    by (auto simp: record_restart_window tracks_def Let_def split: if_splits)
qed

lemma granted_restarts_refines:
  "sorted (since # ts) \<Longrightarrow> tracks since t hist \<Longrightarrow>
     granted_restarts ts t = granted_spec (max_restarts t) (within t) hist ts"
proof (induction ts arbitrary: since t hist)
  case Nil
  then show ?case by simp
next
  case (Cons now ts)
  obtain ok t' where r: "record_restart now t = (ok, t')" by (cases "record_restart now t")
  have le: "since \<le> now" and srt: "sorted (now # ts)" using Cons.prems(1) by auto
  have cfg: "max_restarts t' = max_restarts t" "within t' = within t"
    using record_restart_config [of now t] r by simp_all
  note st = tracks_step [OF Cons.prems(2) le r]
  from Cons.IH [OF srt st(2)] st(1) r cfg show ?case by simp
qed

section \<open>At most max_restarts grants in any window\<close>

lemma granted_spec_window:
  assumes "sorted (hist @ ts)"
    and "\<And>x. length (filter (\<lambda>g. x \<le> g \<and> g \<le> x + w) hist) \<le> unat m"
  shows "length (filter (\<lambda>g. x \<le> g \<and> g \<le> x + w) (hist @ granted_spec m w hist ts)) \<le> unat m"
  using assms
proof (induction ts arbitrary: hist)
  case Nil
  then show ?case by simp
next
  case (Cons now ts)
  show ?case
  proof (cases "length (filter (in_window w now) hist) < unat m")
    case False
    with Cons show ?thesis by (simp add: sorted_append)
  next
    case True
    have "length (filter (\<lambda>g. y \<le> g \<and> g \<le> y + w) (hist @ [now])) \<le> unat m" for y
    proof (cases "y \<le> now \<and> now \<le> y + w")
      case True
      have "filter (\<lambda>g. y \<le> g \<and> g \<le> y + w) hist
          = filter (\<lambda>g. y \<le> g \<and> g \<le> y + w) (filter (in_window w now) hist)"
        using True by (auto simp: filter_filter in_window_def duration_since_def intro!: filter_cong)
      then have "length (filter (\<lambda>g. y \<le> g \<and> g \<le> y + w) hist) < unat m"
        using \<open>length (filter (in_window w now) hist) < unat m\<close>
        by (metis length_filter_le order.strict_trans1)
      with True show ?thesis by simp
    next
      case False
      with Cons.prems(2) [of y] show ?thesis by auto
    qed
    with Cons.IH [of "hist @ [now]"] Cons.prems(1) True show ?thesis by simp
  qed
qed

lemma tracks_new: "tracks 0 (RestartTracker_new m w) []"
  by (simp add: tracks_def RestartTracker_new_def)

lemma RestartTracker_new_config [simp]:
  "max_restarts (RestartTracker_new m w) = m" "within (RestartTracker_new m w) = w"
  "restart_times (RestartTracker_new m w) = []"
  by (simp_all add: RestartTracker_new_def)

section \<open>The tracker's memory is bounded\<close>

definition tracker_ok :: "RestartTracker \<Rightarrow> bool" where
  "tracker_ok t \<longleftrightarrow> length (restart_times t) \<le> unat (max_restarts t)"

lemma tracker_ok_new [simp]: "tracker_ok (RestartTracker_new m w)"
  by (simp add: tracker_ok_def)

interpretation tracker: task "\<lambda>now t. snd (record_restart now t)" tracker_ok
proof unfold_locales
  fix t now
  assume "tracker_ok t"
  then have "length (filter P (restart_times t)) \<le> unat (max_restarts t)" for P
    by (meson length_filter_le order_trans tracker_ok_def)
  then show "tracker_ok (snd (record_restart now t))"
    by (simp add: tracker_ok_def record_restart_def Let_def Suc_le_eq)
qed

text \<open>
  Restart intensity. However often a supervised actor fails, no time window of length
  \<open>within\<close> ever contains more than \<open>max_restarts\<close> granted restarts, provided the clock
  readings do not decrease.
\<close>

lemma restart_intensity:
  assumes "sorted nows"
  shows "length (filter (\<lambda>g. x \<le> g \<and> g \<le> x + w)
           (granted_restarts nows (RestartTracker_new m w))) \<le> unat m"
proof -
  have "granted_restarts nows (RestartTracker_new m w) = granted_spec m w [] nows"
    using granted_restarts_refines [OF _ tracks_new] assms by simp
  with granted_spec_window [of "[]" nows w m x] assms show ?thesis by simp
qed

text \<open>
  C18. The tracker decides as if it remembered every restart. With non-decreasing clock
  readings, dropping timestamps older than \<open>within\<close> never changes a decision: the granted
  restarts are those of the specification that keeps the full history.
\<close>

theorem restart_tracker_refines_history:
  assumes "sorted nows"
  shows "granted_restarts nows (RestartTracker_new m w) = granted_spec m w [] nows"
  using granted_restarts_refines [OF _ tracks_new, of nows m w] assms by simp

theorem restart_tracker_refines_history_witness:
  "granted_restarts [0, 5, 5, 20] (RestartTracker_new 1 9) = granted_spec 1 9 [] [0, 5, 5, 20]"
  by (rule restart_tracker_refines_history) simp

end
