(* ===== verification/Actor_Context.thy ===== *)
theory Actor_Context
  imports Mailbox Supervisor
begin

text \<open>
  The runtime context an actor's handlers see (\<open>src/context.rs\<close>), the hooks of the
  \<open>Actor\<close>, \<open>Handler\<close>, \<open>AsyncHandler\<close> and \<open>StreamHandler\<close> traits
  (\<open>src/actor.rs\<close>) and the handling of one envelope (\<open>src/envelope.rs\<close>). The code of
  an actor is a parameter: a program that may call the context and address methods any number
  of times, look at their results, and then returns or panics.
\<close>

section \<open>The context\<close>

record 'st Context =
  ctx_addr :: Addr
  ctx_stop_signal :: "nat option"
  ctx_shutdown :: nat
  ctx_children :: "Addr list"
  ctx_escalate_signal :: nat
  ctx_streams :: "'st list"

text \<open>\<open>Arc::new(Notify::new())\<close> is the next unused number.\<close>

definition fresh_notify :: "'q world \<Rightarrow> nat \<times> 'q world" where
  "fresh_notify w = (next_notify w, w\<lparr>next_notify := Suc (next_notify w)\<rparr>)"

definition Context_new :: "Addr \<Rightarrow> nat \<Rightarrow> 'q world \<Rightarrow> 'st Context \<times> 'q world" where
  "Context_new a shutdown w =
     (case fresh_notify w of (e, w') \<Rightarrow>
        (\<lparr>ctx_addr = a, ctx_stop_signal = None, ctx_shutdown = shutdown, ctx_children = [],
          ctx_escalate_signal = e, ctx_streams = []\<rparr>, w'))"

definition Context_with_stop_signal :: "Addr \<Rightarrow> nat \<Rightarrow> nat \<Rightarrow> 'q world \<Rightarrow> 'st Context \<times> 'q world" where
  "Context_with_stop_signal a stop shutdown w =
     (case fresh_notify w of (e, w') \<Rightarrow>
        (\<lparr>ctx_addr = a, ctx_stop_signal = Some stop, ctx_shutdown = shutdown, ctx_children = [],
          ctx_escalate_signal = e, ctx_streams = []\<rparr>, w'))"

definition Context_with_signals :: "Addr \<Rightarrow> nat \<Rightarrow> nat \<Rightarrow> nat \<Rightarrow> 'st Context" where
  "Context_with_signals a stop shutdown escalate =
     \<lparr>ctx_addr = a, ctx_stop_signal = Some stop, ctx_shutdown = shutdown, ctx_children = [],
      ctx_escalate_signal = escalate, ctx_streams = []\<rparr>"

section \<open>What the runtime of one actor can touch\<close>

text \<open>
  The calls a task makes, in order, into tokio (\<open>Notify\<close>, one-shot channels, spawned
  tasks) and into the actor's code. The effect of a \<open>Notify\<close> on other tasks is tokio's
  business; sends are carried out on the shared mailboxes.
\<close>

datatype ('m, 'r) call =
    NotifyOne nat
  | NotifyEscalate nat
  | OneshotSend nat 'r
  | SpawnChildTask Addr SupervisorStrategy nat nat
  | SpawnTimer nat duration "'m message" bool
  | FactoryCalled
  | StartedCalled
  | HandleCalled "'m message"
  | ItemCalled
  | FinishedCalled
  | StoppedCalled
  | WatchersNotified

record ('a, 'm, 'st, 'r, 'q) cell =
  actor :: 'a
  ctx :: "'st Context"
  shared :: "'q world"
  log :: "('m, 'r) call list"

definition emit :: "('m, 'r) call \<Rightarrow> ('a, 'm, 'st, 'r, 'q) cell \<Rightarrow> ('a, 'm, 'st, 'r, 'q) cell" where
  "emit c s = s\<lparr>log := log s @ [c]\<rparr>"

lemma emit_sel [simp]:
  "actor (emit c s) = actor s" "ctx (emit c s) = ctx s" "shared (emit c s) = shared s"
  "log (emit c s) = log s @ [c]"
  by (simp_all add: emit_def)

section \<open>Methods of the context\<close>

definition Context_stop :: "('a, 'm, 'st, 'r, 'q) cell \<Rightarrow> ('a, 'm, 'st, 'r, 'q) cell" where
  "Context_stop s = (case ctx_stop_signal (ctx s) of None \<Rightarrow> s | Some signal \<Rightarrow> emit (NotifyOne signal) s)"

definition ChildHandle_stop :: "Addr \<Rightarrow> ('a, 'm, 'st, 'r, 'q) cell \<Rightarrow> ('a, 'm, 'st, 'r, 'q) cell" where
  "ChildHandle_stop a s = emit (NotifyOne (addr_stop_signal a)) s"

definition Context_stop_children :: "('a, 'm, 'st, 'r, 'q) cell \<Rightarrow> ('a, 'm, 'st, 'r, 'q) cell" where
  "Context_stop_children s = fold ChildHandle_stop (ctx_children (ctx s)) s"

definition Context_watch :: "Addr \<Rightarrow> ('a, 'm, 'st, 'r, 'q) cell \<Rightarrow> ('a, 'm, 'st, 'r, 'q) cell" where
  "Context_watch a s = s\<lparr>shared := Addr_add_watcher a (ctx_addr (ctx s)) (shared s)\<rparr>"

definition Context_add_stream :: "'st \<Rightarrow> ('a, 'm, 'st, 'r, 'q) cell \<Rightarrow> ('a, 'm, 'st, 'r, 'q) cell" where
  "Context_add_stream st s = s\<lparr>ctx := (ctx s)\<lparr>ctx_streams := ctx_streams (ctx s) @ [st]\<rparr>\<rparr>"

definition Context_take_streams ::
    "('a, 'm, 'st, 'r, 'q) cell \<Rightarrow> 'st list \<times> ('a, 'm, 'st, 'r, 'q) cell" where
  "Context_take_streams s = (ctx_streams (ctx s), s\<lparr>ctx := (ctx s)\<lparr>ctx_streams := []\<rparr>\<rparr>)"

definition Context_return_streams ::
    "'st list \<Rightarrow> ('a, 'm, 'st, 'r, 'q) cell \<Rightarrow> ('a, 'm, 'st, 'r, 'q) cell" where
  "Context_return_streams sts s = s\<lparr>ctx := (ctx s)\<lparr>ctx_streams := sts @ ctx_streams (ctx s)\<rparr>\<rparr>"

text \<open>
  \<open>run_later\<close> and \<open>run_interval\<close> create a handle and spawn the task that sends the message;
  the tasks themselves are modelled in the theory of timers.
\<close>

definition spawn_timer ::
    "bool \<Rightarrow> duration \<Rightarrow> 'm message \<Rightarrow> ('a, 'm, 'st, 'r, 'q) cell \<Rightarrow> nat \<times> ('a, 'm, 'st, 'r, 'q) cell" where
  "spawn_timer periodic d m s =
     (let t = next_timer (shared s)
      in (t, emit (SpawnTimer t d m periodic) (s\<lparr>shared := (shared s)\<lparr>next_timer := Suc t\<rparr>\<rparr>)))"

definition Context_run_later ::
    "duration \<Rightarrow> 'm message \<Rightarrow> ('a, 'm, 'st, 'r, 'q) cell \<Rightarrow> nat \<times> ('a, 'm, 'st, 'r, 'q) cell" where
  "Context_run_later delay m s = spawn_timer False delay m s"

definition Context_run_interval ::
    "duration \<Rightarrow> 'm message \<Rightarrow> ('a, 'm, 'st, 'r, 'q) cell \<Rightarrow> nat \<times> ('a, 'm, 'st, 'r, 'q) cell" where
  "Context_run_interval interval m s = spawn_timer True interval m s"

text \<open>
  The part of spawning a child that runs in the parent: the channel (whose creation panics for
  a capacity tokio rejects, then nothing has happened), the identifier, the stop signal, the
  spawned task, the watch and the entry in the parent's list of children.
\<close>

definition spawn_child_with_strategy_and_capacity ::
    "('q, 'm) channel \<Rightarrow> SupervisorStrategy \<Rightarrow> nat \<Rightarrow> ('a, 'm, 'st, 'r, 'q) cell
      \<Rightarrow> (Addr \<times> ('a, 'm, 'st, 'r, 'q) cell) option" where
  "spawn_child_with_strategy_and_capacity M strategy capacity s =
     (case mpsc_channel M capacity of
        None \<Rightarrow> None
      | Some q \<Rightarrow>
          (case ActorId_new (next_actor_id (shared s)) of (child_id, counter) \<Rightarrow>
          (case fresh_notify ((shared s)\<lparr>next_actor_id := counter\<rparr>) of (child_stop, w) \<Rightarrow>
             let child_addr = Addr_new child_id child_stop;
                 w' = (set_mailbox child_id q w)\<lparr>watchers := (watchers w)(child_id := [])\<rparr>;
                 s1 = emit (SpawnChildTask child_addr strategy (ctx_escalate_signal (ctx s)) (ctx_shutdown (ctx s)))
                        (s\<lparr>shared := w'\<rparr>);
                 s2 = Context_watch child_addr s1;
                 s3 = s2\<lparr>ctx := (ctx s2)\<lparr>ctx_children := ctx_children (ctx s2) @ [child_addr]\<rparr>\<rparr>
             in Some (child_addr, s3))))"

definition spawn_child_with_strategy ::
    "('q, 'm) channel \<Rightarrow> SupervisorStrategy \<Rightarrow> ('a, 'm, 'st, 'r, 'q) cell
      \<Rightarrow> (Addr \<times> ('a, 'm, 'st, 'r, 'q) cell) option" where
  "spawn_child_with_strategy M strategy s = spawn_child_with_strategy_and_capacity M strategy 256 s"

definition spawn_child_with_capacity ::
    "('q, 'm) channel \<Rightarrow> nat \<Rightarrow> ('a, 'm, 'st, 'r, 'q) cell
      \<Rightarrow> (Addr \<times> ('a, 'm, 'st, 'r, 'q) cell) option" where
  "spawn_child_with_capacity M capacity s = spawn_child_with_strategy_and_capacity M Stop capacity s"

definition spawn_child ::
    "('q, 'm) channel \<Rightarrow> ('a, 'm, 'st, 'r, 'q) cell
      \<Rightarrow> (Addr \<times> ('a, 'm, 'st, 'r, 'q) cell) option" where
  "spawn_child M s = spawn_child_with_capacity M 256 s"

section \<open>The code of an actor\<close>

datatype ('m, 'st) api =
    ApiStop
  | ApiWatch Addr
  | ApiAddStream 'st
  | ApiSpawnChild SupervisorStrategy nat
  | ApiRunLater duration "'m message"
  | ApiRunInterval duration "'m message"
  | ApiTrySend Addr "'m message"
  | ApiTrySendAsync Addr "'m message"
  | ApiStopAddr Addr
  | ApiAddress

datatype answer =
    AnsUnit
  | AnsAddr Addr
  | AnsTimer nat
  | AnsSend "MailboxError + unit"

primrec do_api ::
    "('q, 'm) channel \<Rightarrow> ('m, 'st) api \<Rightarrow> ('a, 'm, 'st, 'r, 'q) cell
      \<Rightarrow> (answer \<times> ('a, 'm, 'st, 'r, 'q) cell) option" where
  "do_api M ApiStop s = Some (AnsUnit, Context_stop s)"
| "do_api M (ApiWatch a) s = Some (AnsUnit, Context_watch a s)"
| "do_api M (ApiAddStream st) s = Some (AnsUnit, Context_add_stream st s)"
| "do_api M (ApiSpawnChild strategy capacity) s =
     map_option (\<lambda>(a, s'). (AnsAddr a, s')) (spawn_child_with_strategy_and_capacity M strategy capacity s)"
| "do_api M (ApiRunLater d m) s = Some (map_prod AnsTimer id (Context_run_later d m s))"
| "do_api M (ApiRunInterval d m) s = Some (map_prod AnsTimer id (Context_run_interval d m s))"
| "do_api M (ApiTrySend a m) s =
     (case Addr_try_send M a m (shared s) of (r, w) \<Rightarrow> Some (AnsSend r, s\<lparr>shared := w\<rparr>))"
| "do_api M (ApiTrySendAsync a m) s =
     (case Addr_try_send_async M a m (shared s) of (r, w) \<Rightarrow> Some (AnsSend r, s\<lparr>shared := w\<rparr>))"
| "do_api M (ApiStopAddr a) s = Some (AnsUnit, ChildHandle_stop a s)"
| "do_api M ApiAddress s = Some (AnsAddr (ctx_addr (ctx s)), s)"

text \<open>
  A hook of an actor, as far as the runtime can see it: it returns a new actor state and a
  result, panics leaving some actor state behind, or calls a method and goes on.
\<close>

datatype ('a, 'm, 'st, 'r) prog =
    Ret 'a 'r
  | Panic 'a
  | Call 'a "('m, 'st) api" "answer \<Rightarrow> ('a, 'm, 'st, 'r) prog"

text \<open>None is a panic.\<close>

primrec exec ::
    "('q, 'm) channel \<Rightarrow> ('a, 'm, 'st, 'x) prog \<Rightarrow> ('a, 'm, 'st, 'r, 'q) cell
      \<Rightarrow> 'x option \<times> ('a, 'm, 'st, 'r, 'q) cell" where
  "exec M (Ret a r) s = (Some r, s\<lparr>actor := a\<rparr>)"
| "exec M (Panic a) s = (None, s\<lparr>actor := a\<rparr>)"
| "exec M (Call a op k) s =
     (case do_api M op (s\<lparr>actor := a\<rparr>) of
        None \<Rightarrow> (None, s\<lparr>actor := a\<rparr>)
      | Some (ans, s') \<Rightarrow> exec M (k ans) s')"

record ('a, 'm, 'st, 'r, 'i) behaviour =
  started :: "'a \<Rightarrow> ('a, 'm, 'st, unit) prog"
  stopped :: "'a \<Rightarrow> ('a, 'm, 'st, unit) prog"
  handle :: "'m message \<Rightarrow> 'a \<Rightarrow> ('a, 'm, 'st, 'r) prog"
  item :: "'i \<Rightarrow> 'a \<Rightarrow> ('a, 'm, 'st, unit) prog"
  finished :: "'a \<Rightarrow> ('a, 'm, 'st, unit) prog"

definition call_started ::
    "('q, 'm) channel \<Rightarrow> ('a, 'm, 'st, 'r, 'i) behaviour \<Rightarrow> ('a, 'm, 'st, 'r, 'q) cell
      \<Rightarrow> unit option \<times> ('a, 'm, 'st, 'r, 'q) cell" where
  "call_started M B s = exec M (started B (actor s)) (emit StartedCalled s)"

definition call_stopped ::
    "('q, 'm) channel \<Rightarrow> ('a, 'm, 'st, 'r, 'i) behaviour \<Rightarrow> ('a, 'm, 'st, 'r, 'q) cell
      \<Rightarrow> unit option \<times> ('a, 'm, 'st, 'r, 'q) cell" where
  "call_stopped M B s = exec M (stopped B (actor s)) (emit StoppedCalled s)"

section \<open>Handling one envelope\<close>

text \<open>
  Both kinds of envelope hand the message to the handler and, if a response channel is there,
  send the result; None is a panic of the handler, after which nothing is sent.
\<close>

definition MessageEnvelope_handle ::
    "('q, 'm) channel \<Rightarrow> ('a, 'm, 'st, 'r, 'i) behaviour \<Rightarrow> 'm MessageEnvelope \<Rightarrow> ('a, 'm, 'st, 'r, 'q) cell
      \<Rightarrow> unit option \<times> ('a, 'm, 'st, 'r, 'q) cell" where
  "MessageEnvelope_handle M B e s =
     (case msg e of
        None \<Rightarrow> (Some (), s)
      | Some m \<Rightarrow>
          (case exec M (handle B m (actor s)) (emit (HandleCalled m) s) of
             (None, s') \<Rightarrow> (None, s')
           | (Some result, s') \<Rightarrow>
               (case response_tx e of
                  None \<Rightarrow> (Some (), s')
                | Some tx \<Rightarrow> (Some (), emit (OneshotSend tx result) s'))))"

text \<open>
  An async handler is awaited inside the branch of \<open>select!\<close> that took its message, so no
  other branch of this actor's loop runs before it returns. It is one step here, like a
  synchronous one: the points at which it may be suspended are not represented, nor is what other
  tasks do to the shared state while it is.
\<close>

definition AsyncMessageEnvelope_handle ::
    "('q, 'm) channel \<Rightarrow> ('a, 'm, 'st, 'r, 'i) behaviour \<Rightarrow> 'm AsyncMessageEnvelope \<Rightarrow> ('a, 'm, 'st, 'r, 'q) cell
      \<Rightarrow> unit option \<times> ('a, 'm, 'st, 'r, 'q) cell" where
  "AsyncMessageEnvelope_handle M B e s =
     (case async_msg e of
        None \<Rightarrow> (Some (), s)
      | Some m \<Rightarrow>
          (case exec M (handle B m (actor s)) (emit (HandleCalled m) s) of
             (None, s') \<Rightarrow> (None, s')
           | (Some result, s') \<Rightarrow>
               (case async_response_tx e of
                  None \<Rightarrow> (Some (), s')
                | Some tx \<Rightarrow> (Some (), emit (OneshotSend tx result) s'))))"

primrec ActorMessage_handle ::
    "('q, 'm) channel \<Rightarrow> ('a, 'm, 'st, 'r, 'i) behaviour \<Rightarrow> 'm ActorMessage \<Rightarrow> ('a, 'm, 'st, 'r, 'q) cell
      \<Rightarrow> unit option \<times> ('a, 'm, 'st, 'r, 'q) cell" where
  "ActorMessage_handle M B (Sync e) s = MessageEnvelope_handle M B e s"
| "ActorMessage_handle M B (Async e) s = AsyncMessageEnvelope_handle M B e s"

section \<open>What an actor's code can and cannot do\<close>

text \<open>
  The calls that come out of context and address methods; all other entries of the log are
  written by the runtime itself.
\<close>

primrec api_call :: "('m, 'r) call \<Rightarrow> bool" where
  "api_call (NotifyOne n) = True"
| "api_call (NotifyEscalate n) = False"
| "api_call (OneshotSend tx r) = False"
| "api_call (SpawnChildTask a st e sh) = True"
| "api_call (SpawnTimer t d m p) = True"
| "api_call FactoryCalled = False"
| "api_call StartedCalled = False"
| "api_call (HandleCalled m) = False"
| "api_call ItemCalled = False"
| "api_call FinishedCalled = False"
| "api_call StoppedCalled = False"
| "api_call WatchersNotified = False"

text \<open>The runtime's own entries, in order.\<close>

definition runtime_log :: "('m, 'r) call list \<Rightarrow> ('m, 'r) call list" where
  "runtime_log cs = filter (\<lambda>c. \<not> api_call c) cs"

lemma runtime_log_append [simp]: "runtime_log (xs @ ys) = runtime_log xs @ runtime_log ys"
  by (simp add: runtime_log_def)

lemma runtime_log_Nil [simp]: "runtime_log [] = []"
  by (simp add: runtime_log_def)

lemma runtime_log_Cons [simp]:
  "runtime_log (c # cs) = (if api_call c then runtime_log cs else c # runtime_log cs)"
  by (simp add: runtime_log_def)

text \<open>The parts of a context no method changes.\<close>

definition same_identity :: "'st Context \<Rightarrow> 'st Context \<Rightarrow> bool" where
  "same_identity c d \<longleftrightarrow> ctx_addr d = ctx_addr c \<and> ctx_stop_signal d = ctx_stop_signal c \<and>
     ctx_shutdown d = ctx_shutdown c \<and> ctx_escalate_signal d = ctx_escalate_signal c"

lemma same_identity_refl [simp, intro]: "same_identity c c"
  by (simp add: same_identity_def)

lemma same_identity_trans [trans]: "same_identity c d \<Longrightarrow> same_identity d e \<Longrightarrow> same_identity c e"
  by (simp add: same_identity_def)

lemmas context_method_defs = Context_stop_def ChildHandle_stop_def Context_watch_def
  Context_add_stream_def Context_run_later_def Context_run_interval_def spawn_timer_def
  spawn_child_with_strategy_and_capacity_def

lemma do_api_frame:
  assumes "do_api M op s = Some (ans, s')"
  shows "runtime_log (log s') = runtime_log (log s)"
    and "same_identity (ctx s) (ctx s')"
    and "\<exists>new. ctx_children (ctx s') = ctx_children (ctx s) @ new"
  using assms
  by (cases op; auto simp: context_method_defs same_identity_def Let_def split: option.splits prod.splits)+

lemma exec_frame:
  assumes "exec M p s = (r, s')"
  shows "runtime_log (log s') = runtime_log (log s) \<and> same_identity (ctx s) (ctx s') \<and>
    (\<exists>new. ctx_children (ctx s') = ctx_children (ctx s) @ new)"
  using assms
proof (induction p arbitrary: s)
  case (Ret a x)
  then show ?case by auto
next
  case (Panic a)
  then show ?case by auto
next
  case (Call a op k)
  show ?case
  proof (cases "do_api M op (s\<lparr>actor := a\<rparr>)")
    case None
    with Call.prems show ?thesis by auto
  next
    case (Some y)
    obtain ans s1 where y: "y = (ans, s1)" by (cases y)
    note f = do_api_frame [OF Some [unfolded y]]
    have "exec M (k ans) s1 = (r, s')" using Call.prems Some y by simp
    with Call.IH [of "k ans" s1] f show ?thesis
      by (auto intro: same_identity_trans)
  qed
qed

lemma exec_runtime_log: "runtime_log (log (snd (exec M p s))) = runtime_log (log s)"
  using exec_frame [OF surjective_pairing [of "exec M p s"]] by simp

lemma exec_identity: "same_identity (ctx s) (ctx (snd (exec M p s)))"
  using exec_frame [OF surjective_pairing [of "exec M p s"]] by simp

text \<open>An actor's code only appends to the log, and only calls of context and address methods.\<close>

lemma do_api_log:
  assumes "do_api M op s = Some (ans, s')"
  shows "\<exists>us. log s' = log s @ us \<and> list_all api_call us"
  using assms
  by (cases op; auto simp: context_method_defs Let_def split: option.splits prod.splits)+

lemma exec_log:
  "exec M p s = (r, s') \<Longrightarrow> \<exists>us. log s' = log s @ us \<and> list_all api_call us"
proof (induction p arbitrary: s)
  case (Call a op k)
  show ?case
  proof (cases "do_api M op (s\<lparr>actor := a\<rparr>)")
    case None
    with Call.prems show ?thesis by auto
  next
    case (Some y)
    obtain ans s1 where y: "y = (ans, s1)" by (cases y)
    obtain us where us: "log s1 = log s @ us" "list_all api_call us"
      using do_api_log [OF Some [unfolded y]] by auto
    have "exec M (k ans) s1 = (r, s')" using Call.prems Some y by simp
    with Call.IH [of "k ans" s1] us show ?thesis by auto
  qed
qed auto

text \<open>What handling a message adds to the runtime's log.\<close>

primrec am_msg :: "'m ActorMessage \<Rightarrow> 'm message option" where
  "am_msg (Sync e) = msg e"
| "am_msg (Async e) = async_msg e"

primrec am_response_tx :: "'m ActorMessage \<Rightarrow> nat option" where
  "am_response_tx (Sync e) = response_tx e"
| "am_response_tx (Async e) = async_response_tx e"

lemma ActorMessage_handle_eq:
  "ActorMessage_handle M B x s =
     (case am_msg x of
        None \<Rightarrow> (Some (), s)
      | Some m \<Rightarrow>
          (case exec M (handle B m (actor s)) (emit (HandleCalled m) s) of
             (None, s') \<Rightarrow> (None, s')
           | (Some result, s') \<Rightarrow>
               (case am_response_tx x of
                  None \<Rightarrow> (Some (), s')
                | Some tx \<Rightarrow> (Some (), emit (OneshotSend tx result) s'))))"
  by (cases x)
    (simp_all add: MessageEnvelope_handle_def AsyncMessageEnvelope_handle_def split: option.split prod.split)

text \<open>
  C20. A request is answered exactly once. Handling an envelope calls the handler once; if the
  handler returns and the envelope carries a response channel, exactly one response goes out,
  on that channel and with the handler's result; if the handler panics, or no response was
  asked for, none does, and the panic is reported to the caller of the envelope.
\<close>

theorem envelope_replies_once:
  assumes "am_msg x = Some m"
    and "exec M (handle B m (actor s)) (emit (HandleCalled m) s) = (res, s1)"
  shows "runtime_log (log (snd (ActorMessage_handle M B x s))) =
      runtime_log (log s) @ [HandleCalled m] @
        (case (res, am_response_tx x) of (Some r, Some tx) \<Rightarrow> [OneshotSend tx r] | _ \<Rightarrow> [])
    \<and> (fst (ActorMessage_handle M B x s) = None \<longleftrightarrow> res = None)"
proof -
  have "runtime_log (log s1) = runtime_log (log s) @ [HandleCalled m]"
    using exec_frame [OF assms(2)] by simp
  with assms show ?thesis
    by (auto simp: ActorMessage_handle_eq split: option.split)
qed

definition echo_behaviour :: "(nat, nat, unit, nat, unit) behaviour" where
  "echo_behaviour = \<lparr>started = (\<lambda>a. Ret a ()), stopped = (\<lambda>a. Ret a ()),
     handle = (\<lambda>m a. case m of User n \<Rightarrow> (if n = 0 then Panic a else Ret (a + n) (a + n)) | Terminated i \<Rightarrow> Ret a 0),
     item = (\<lambda>i a. Ret a ()), finished = (\<lambda>a. Ret a ())\<rparr>"

definition sample_cell :: "(nat, nat, unit, nat, nat ActorMessage list_channel) cell" where
  "sample_cell = \<lparr>actor = 5, ctx = Context_with_signals (Addr_new (ActorId 1) 1) 1 0 2,
     shared = sample_world, log = []\<rparr>"

theorem envelope_replies_once_witness:
  "runtime_log (log (snd (ActorMessage_handle list_mpsc echo_behaviour
      (Sync (MessageEnvelope_with_response (User 3) 4)) sample_cell))) = [HandleCalled (User 3), OneshotSend 4 8]"
proof -
  let ?x = "Sync (MessageEnvelope_with_response (User (3 :: nat)) 4)"
  let ?e = "exec list_mpsc (handle echo_behaviour (User 3) (actor sample_cell)) (emit (HandleCalled (User 3)) sample_cell)"
  have m: "am_msg ?x = Some (User 3)" by (simp add: MessageEnvelope_with_response_def)
  have r: "?e = (Some 8, snd ?e)" by (simp add: echo_behaviour_def sample_cell_def)
  show ?thesis
    using envelope_replies_once [OF m r]
    by (simp add: MessageEnvelope_with_response_def sample_cell_def)
qed

end
