(* ===== verification/Actor_Stream.thy ===== *)
theory Actor_Stream
  imports Actor_Context
begin

text \<open>
  Streams attached to an actor (\<open>src/stream.rs\<close>). A stream is third-party code: its state
  has type \<open>'st\<close> and one poll of it is the parameter \<open>spoll\<close>.
\<close>

datatype 'i stream_poll = StreamPending | StreamItem 'i | StreamEnd

type_synonym ('st, 'i) stream_source = "'st \<Rightarrow> 'i stream_poll \<times> 'st"

datatype poll = Pending | Ready bool

text \<open>
  One poll of a wrapped stream hands an item, or the end of the stream, to the actor. The
  first component is None when the actor's handler panics.
\<close>

definition StreamWrapper_poll_next ::
    "('q, 'm) channel \<Rightarrow> ('a, 'm, 'st, 'r, 'i) behaviour \<Rightarrow> ('st, 'i) stream_source
      \<Rightarrow> 'st \<Rightarrow> ('a, 'm, 'st, 'r, 'q) cell
      \<Rightarrow> poll option \<times> 'st \<times> ('a, 'm, 'st, 'r, 'q) cell" where
  "StreamWrapper_poll_next M B spoll st s =
     (case spoll st of
        (StreamItem i, st') \<Rightarrow>
          (case exec M (item B i (actor s)) (emit ItemCalled s) of
             (res, s') \<Rightarrow> (map_option (\<lambda>_. Ready True) res, st', s'))
      | (StreamEnd, st') \<Rightarrow>
          (case exec M (finished B (actor s)) (emit FinishedCalled s) of
             (res, s') \<Rightarrow> (map_option (\<lambda>_. Ready False) res, st', s'))
      | (StreamPending, st') \<Rightarrow> (Some Pending, st', s))"

text \<open>
  \<open>poll_streams\<close> walks the list once with \<open>retain_mut\<close>; a panic stops the walk.
\<close>

fun poll_streams ::
    "('q, 'm) channel \<Rightarrow> ('a, 'm, 'st, 'r, 'i) behaviour \<Rightarrow> ('st, 'i) stream_source
      \<Rightarrow> 'st list \<Rightarrow> ('a, 'm, 'st, 'r, 'q) cell
      \<Rightarrow> bool option \<times> 'st list \<times> ('a, 'm, 'st, 'r, 'q) cell" where
  "poll_streams M B spoll [] s = (Some False, [], s)"
| "poll_streams M B spoll (st # sts) s =
     (case StreamWrapper_poll_next M B spoll st s of
        (None, st', s') \<Rightarrow> (None, st' # sts, s')
      | (Some p, st', s') \<Rightarrow>
          (case poll_streams M B spoll sts s' of
             (any_ready, sts', s'') \<Rightarrow>
               (map_option (\<lambda>any. any \<or> p = Ready True) any_ready,
                (if p = Ready False then sts' else st' # sts'), s'')))"

section \<open>What a round of polling does\<close>

primrec keeps :: "'i stream_poll \<Rightarrow> bool" where
  "keeps StreamPending = True"
| "keeps (StreamItem i) = True"
| "keeps StreamEnd = False"

primrec is_item :: "'i stream_poll \<Rightarrow> bool" where
  "is_item StreamPending = False"
| "is_item (StreamItem i) = True"
| "is_item StreamEnd = False"

primrec poll_call :: "'i stream_poll \<Rightarrow> ('m, 'r) call list" where
  "poll_call StreamPending = []"
| "poll_call (StreamItem i) = [ItemCalled]"
| "poll_call StreamEnd = [FinishedCalled]"

lemma StreamWrapper_poll_next_cases:
  assumes "StreamWrapper_poll_next M B spoll st s = (r, st', s')"
  shows "st' = snd (spoll st)"
    and "r = None \<or> r = Some (case fst (spoll st) of StreamPending \<Rightarrow> Pending | StreamItem i \<Rightarrow> Ready True | StreamEnd \<Rightarrow> Ready False)"
    and "runtime_log (log s') = runtime_log (log s) @ poll_call (fst (spoll st))"
    and "same_identity (ctx s) (ctx s')"
  using assms exec_frame
  by (fastforce simp: StreamWrapper_poll_next_def split: prod.splits stream_poll.splits)+

lemma poll_streams_frame:
  assumes "poll_streams M B spoll sts s = (r, sts', s')"
  shows "same_identity (ctx s) (ctx s') \<and>
    (\<exists>cs. runtime_log (log s') = runtime_log (log s) @ cs \<and> set cs \<subseteq> {ItemCalled, FinishedCalled})"
  using assms
proof (induction sts arbitrary: s r sts' s')
  case Nil
  then show ?case by simp
next
  case (Cons st sts)
  obtain p st1 s1 where p: "StreamWrapper_poll_next M B spoll st s = (p, st1, s1)"
    by (cases "StreamWrapper_poll_next M B spoll st s") auto
  note w = StreamWrapper_poll_next_cases [OF p]
  have c: "set (poll_call (fst (spoll st))) \<subseteq> {ItemCalled, FinishedCalled}"
    by (cases "fst (spoll st)") auto
  show ?case
  proof (cases p)
    case None
    with Cons.prems p w c show ?thesis by auto
  next
    case (Some y)
    obtain r2 sts2 s2 where r2: "poll_streams M B spoll sts s1 = (r2, sts2, s2)"
      by (cases "poll_streams M B spoll sts s1") auto
    with Cons.prems p Some have "s' = s2" by simp
    with Cons.IH [OF r2] w(3,4) c show ?thesis by (auto intro: same_identity_trans)
  qed
qed

text \<open>
  One round of \<open>poll_streams\<close>. If no stream handler panics, every stream is polled
  exactly once and in order, exactly the streams that ended are dropped, the actor sees one
  call per item and per ended stream, and the result says whether some stream gave an item.
\<close>

lemma poll_streams_round:
  assumes "poll_streams M B spoll sts s = (Some any, sts', s')"
  shows "sts' = map (snd \<circ> spoll) (filter (keeps \<circ> fst \<circ> spoll) sts)
    \<and> (any \<longleftrightarrow> (\<exists>st\<in>set sts. is_item (fst (spoll st))))
    \<and> runtime_log (log s') = runtime_log (log s) @ concat (map (poll_call \<circ> fst \<circ> spoll) sts)"
  using assms
proof (induction sts arbitrary: s any sts')
  case Nil
  then show ?case by simp
next
  case (Cons st sts)
  obtain p st1 s1 where p: "StreamWrapper_poll_next M B spoll st s = (Some p, st1, s1)"
    using Cons.prems by (cases "StreamWrapper_poll_next M B spoll st s") (auto split: option.splits)
  obtain any2 sts2 where r2: "poll_streams M B spoll sts s1 = (Some any2, sts2, s')"
    and any: "any \<longleftrightarrow> any2 \<or> p = Ready True" and sts': "sts' = (if p = Ready False then sts2 else st1 # sts2)"
    using Cons.prems p by (cases "poll_streams M B spoll sts s1") auto
  note w = StreamWrapper_poll_next_cases [OF p]
  from w(2) have pr: "p = (case fst (spoll st) of StreamPending \<Rightarrow> Pending | StreamItem i \<Rightarrow> Ready True | StreamEnd \<Rightarrow> Ready False)"
    by simp
  show ?case
    using Cons.IH [OF r2] any sts' pr w(1,3) by (cases "fst (spoll st)") auto
qed

end
