(* ===== verification/Actor_System.thy ===== *)
theory Actor_System
  imports Actor_Stream
begin

text \<open>
  The task of a top-level actor (\<open>spawn_with_shutdown\<close> in \<open>src/system.rs\<close>): the
  biased \<open>select!\<close> loop over mailbox, streams and signals, and what happens when it ends.
  Whether \<open>notified()\<close> of a signal is ready in a poll is tokio's decision and comes in with
  the input, as does the clock; between two polls other tasks may change the shared state.
\<close>

section \<open>Inputs\<close>

record signals =
  shutdown_notified :: bool
  stop_notified :: bool
  escalate_notified :: bool
  clock :: instant

datatype 'q input =
    Poll signals
  | Interfere "'q world \<Rightarrow> 'q world"

section \<open>One pass through select!\<close>

text \<open>
  \<open>Parked\<close>: no branch is ready and the task sleeps inside the select; \<open>Continue\<close>: the
  loop goes round; \<open>Break\<close>: the loop ends, True after a panic or an escalation;
  \<open>Unwound\<close>: a panic leaves the loop uncaught.
\<close>

datatype 'x selected =
    Parked 'x
  | Continue 'x
  | Break bool 'x
  | Unwound 'x

text \<open>
  The branches are tried in the order of the source. The message branch runs its handler
  under \<open>catch_unwind\<close>; the stream branch does not.
\<close>

definition actor_select ::
    "('q, 'm) channel \<Rightarrow> ('a, 'm, 'st, 'r, 'i) behaviour \<Rightarrow> ('st, 'i) stream_source \<Rightarrow> signals
      \<Rightarrow> 'st list \<Rightarrow> ('a, 'm, 'st, 'r, 'q) cell
      \<Rightarrow> ('st list \<times> ('a, 'm, 'st, 'r, 'q) cell) selected" where
  "actor_select M B spoll sig streams s =
     (let self = addr_id (ctx_addr (ctx s)) in
      case mpsc_recv M (mailbox (shared s) self) of
        (received, q) \<Rightarrow>
          (let s1 = s\<lparr>shared := set_mailbox self q (shared s)\<rparr> in
           case received of
             Some (Some actor_msg) \<Rightarrow>
               (case ActorMessage_handle M B actor_msg s1 of
                  (None, s2) \<Rightarrow> Break True (streams, s2)
                | (Some _, s2) \<Rightarrow> Continue (streams, s2))
           | Some None \<Rightarrow> Break False (streams, s1)
           | None \<Rightarrow>
               (case (if streams = [] then (Some False, streams, s1) else poll_streams M B spoll streams s1) of
                  (None, streams', s2) \<Rightarrow> Unwound (streams', s2)
                | (Some ready, streams', s2) \<Rightarrow>
                    if ready then Continue (streams', s2)
                    else if shutdown_notified sig then Break False (streams', s2)
                    else if stop_notified sig then Break False (streams', s2)
                    else if escalate_notified sig then Break True (streams', s2)
                    else Parked (streams', s2))))"

section \<open>The task\<close>

text \<open>
  \<open>ActorRunning True\<close> is at the head of the loop, where new streams are collected;
  \<open>ActorRunning False\<close> sleeps inside \<open>select!\<close>.
\<close>

datatype ('a, 'm, 'st, 'r, 'q) actor_task =
    ActorSpawned "('a, 'm, 'st, 'r, 'q) cell"
  | ActorRunning bool "'st list" "('a, 'm, 'st, 'r, 'q) cell"
  | ActorEnded "('a, 'm, 'st, 'r, 'q) cell"
  | ActorCrashed "('a, 'm, 'st, 'r, 'q) cell"

primrec task_cell :: "('a, 'm, 'st, 'r, 'q) actor_task \<Rightarrow> ('a, 'm, 'st, 'r, 'q) cell" where
  "task_cell (ActorSpawned s) = s"
| "task_cell (ActorRunning head streams s) = s"
| "task_cell (ActorEnded s) = s"
| "task_cell (ActorCrashed s) = s"

definition collect_streams ::
    "bool \<Rightarrow> 'st list \<Rightarrow> ('a, 'm, 'st, 'r, 'q) cell \<Rightarrow> 'st list \<times> ('a, 'm, 'st, 'r, 'q) cell" where
  "collect_streams head streams s =
     (if head then (case Context_take_streams s of (new, s') \<Rightarrow> (streams @ new, s')) else (streams, s))"

definition notify_own_watchers ::
    "('q, 'm) channel \<Rightarrow> ('a, 'm, 'st, 'r, 'q) cell \<Rightarrow> ('a, 'm, 'st, 'r, 'q) cell" where
  "notify_own_watchers M s =
     emit WatchersNotified (s\<lparr>shared := Addr_notify_watchers M (ctx_addr (ctx s)) (shared s)\<rparr>)"

text \<open>
  The end of the task, regular or by a panic, drops the receiver it owns and so closes the
  mailbox; the streams and the actor go with it.
\<close>

definition drop_receiver ::
    "('q, 'm) channel \<Rightarrow> ('a, 'm, 'st, 'r, 'q) cell \<Rightarrow> ('a, 'm, 'st, 'r, 'q) cell" where
  "drop_receiver M s = s\<lparr>shared := drop_rx M (addr_id (ctx_addr (ctx s))) (shared s)\<rparr>"

definition actor_finish ::
    "('q, 'm) channel \<Rightarrow> ('a, 'm, 'st, 'r, 'i) behaviour \<Rightarrow> ('a, 'm, 'st, 'r, 'q) cell
      \<Rightarrow> ('a, 'm, 'st, 'r, 'q) actor_task" where
  "actor_finish M B s =
     (case call_stopped M B (Context_stop_children (notify_own_watchers M s)) of
        (None, s') \<Rightarrow> ActorCrashed (drop_receiver M s')
      | (Some _, s') \<Rightarrow> ActorEnded (drop_receiver M s'))"

fun actor_step ::
    "('q, 'm) channel \<Rightarrow> ('a, 'm, 'st, 'r, 'i) behaviour \<Rightarrow> ('st, 'i) stream_source
      \<Rightarrow> 'q input \<Rightarrow> ('a, 'm, 'st, 'r, 'q) actor_task \<Rightarrow> ('a, 'm, 'st, 'r, 'q) actor_task" where
  "actor_step M B spoll (Poll sig) (ActorSpawned s) =
     (case call_started M B s of
        (None, s') \<Rightarrow> ActorCrashed (drop_receiver M s')
      | (Some _, s') \<Rightarrow> ActorRunning True [] s')"
| "actor_step M B spoll (Poll sig) (ActorRunning head streams s) =
     (case collect_streams head streams s of
        (streams1, s1) \<Rightarrow>
          (case actor_select M B spoll sig streams1 s1 of
             Parked (streams2, s2) \<Rightarrow> ActorRunning False streams2 s2
           | Continue (streams2, s2) \<Rightarrow> ActorRunning True streams2 s2
           | Break panicked (streams2, s2) \<Rightarrow> actor_finish M B s2
           | Unwound (streams2, s2) \<Rightarrow> ActorCrashed (drop_receiver M s2)))"
| "actor_step M B spoll (Interfere f) (ActorSpawned s) = ActorSpawned (s\<lparr>shared := f (shared s)\<rparr>)"
| "actor_step M B spoll (Interfere f) (ActorRunning head streams s) =
     ActorRunning head streams (s\<lparr>shared := f (shared s)\<rparr>)"
| "actor_step M B spoll p (ActorEnded s) = ActorEnded s"
| "actor_step M B spoll p (ActorCrashed s) = ActorCrashed s"

text \<open>
  The part of \<open>spawn_with_shutdown\<close> that runs in the caller; None where creating the
  channel panics.
\<close>

definition spawn_with_shutdown ::
    "('q, 'm) channel \<Rightarrow> 'a \<Rightarrow> nat \<Rightarrow> nat \<Rightarrow> 'q world \<Rightarrow> (Addr \<times> ('a, 'm, 'st, 'r, 'q) actor_task) option" where
  "spawn_with_shutdown M a shutdown capacity w =
     (case mpsc_channel M capacity of
        None \<Rightarrow> None
      | Some q \<Rightarrow>
          (case ActorId_new (next_actor_id w) of (i, counter) \<Rightarrow>
          (case fresh_notify (w\<lparr>next_actor_id := counter\<rparr>) of (stop, w1) \<Rightarrow>
           let addr = Addr_new i stop;
               w2 = (set_mailbox i q w1)\<lparr>watchers := (watchers w1)(i := [])\<rparr>
           in (case Context_with_stop_signal addr stop shutdown w2 of
                 (c, w3) \<Rightarrow> Some (addr, ActorSpawned \<lparr>actor = a, ctx = c, shared = w3, log = []\<rparr>)))))"

section \<open>Frame properties of a pass\<close>

lemma collect_streams_cases:
  assumes "collect_streams head streams s = (streams1, s1)"
  shows "log s1 = log s" "same_identity (ctx s) (ctx s1)" "shared s1 = shared s"
    "actor s1 = actor s" "ctx_children (ctx s1) = ctx_children (ctx s)"
  using assms
  by (auto simp: collect_streams_def Context_take_streams_def same_identity_def split: if_splits)

primrec selected_cell :: "('st list \<times> ('a, 'm, 'st, 'r, 'q) cell) selected \<Rightarrow> ('a, 'm, 'st, 'r, 'q) cell" where
  "selected_cell (Parked x) = snd x"
| "selected_cell (Continue x) = snd x"
| "selected_cell (Break b x) = snd x"
| "selected_cell (Unwound x) = snd x"

definition in_loop :: "('m, 'r) call \<Rightarrow> bool" where
  "in_loop c \<longleftrightarrow> (case c of HandleCalled m \<Rightarrow> True | OneshotSend tx r \<Rightarrow> True | ItemCalled \<Rightarrow> True
     | FinishedCalled \<Rightarrow> True | _ \<Rightarrow> False)"

lemma in_loop_simps [simp]:
  "in_loop (HandleCalled m)" "in_loop (OneshotSend tx r)" "in_loop ItemCalled" "in_loop FinishedCalled"
  "\<not> in_loop (NotifyOne n)" "\<not> in_loop (NotifyEscalate n)" "\<not> in_loop (SpawnChildTask a st e sh)"
  "\<not> in_loop (SpawnTimer t d m' p)" "\<not> in_loop FactoryCalled" "\<not> in_loop StartedCalled"
  "\<not> in_loop StoppedCalled" "\<not> in_loop WatchersNotified"
  by (simp_all add: in_loop_def)

lemma not_in_loop_entry: "list_all in_loop ls \<Longrightarrow> \<not> in_loop c \<Longrightarrow> c \<notin> set ls"
  by (auto simp: list_all_iff)

lemma ActorMessage_handle_frame:
  assumes "ActorMessage_handle M B x s = (r, s')"
  shows "same_identity (ctx s) (ctx s') \<and>
    (\<exists>cs. runtime_log (log s') = runtime_log (log s) @ cs \<and> list_all in_loop cs)"
  using assms
proof (cases "am_msg x")
  case None
  with assms show ?thesis by (auto simp: ActorMessage_handle_eq)
next
  case (Some m)
  obtain res s1 where e: "exec M (handle B m (actor s)) (emit (HandleCalled m) s) = (res, s1)"
    by (cases "exec M (handle B m (actor s)) (emit (HandleCalled m) s)")
  from exec_frame [OF e] assms Some e show ?thesis
    by (auto simp: ActorMessage_handle_eq split: option.splits)
qed

lemma actor_select_frame:
  "same_identity (ctx s) (ctx (selected_cell (actor_select M B spoll sig streams s))) \<and>
   (\<exists>cs. runtime_log (log (selected_cell (actor_select M B spoll sig streams s))) = runtime_log (log s) @ cs
      \<and> list_all in_loop cs)"
proof -
  let ?self = "addr_id (ctx_addr (ctx s))"
  obtain received q where r: "mpsc_recv M (mailbox (shared s) ?self) = (received, q)"
    by (cases "mpsc_recv M (mailbox (shared s) ?self)")
  let ?s1 = "s\<lparr>shared := set_mailbox ?self q (shared s)\<rparr>"
  consider (closed) "received = Some None" | (msg) x where "received = Some (Some x)" | (empty) "received = None"
    by (cases received) auto
  then show ?thesis
  proof cases
    case closed
    with r show ?thesis by (simp add: actor_select_def)
  next
    case msg
    obtain h s2 where h: "ActorMessage_handle M B x ?s1 = (h, s2)" by (cases "ActorMessage_handle M B x ?s1")
    from ActorMessage_handle_frame [OF h] msg r h show ?thesis
      by (auto simp: actor_select_def split: option.split)
  next
    case empty
    obtain any streams' s2 where p: "(if streams = [] then (Some False, streams, ?s1) else poll_streams M B spoll streams ?s1) = (any, streams', s2)"
      by (metis prod_cases3)
    have "same_identity (ctx s) (ctx s2) \<and>
        (\<exists>cs. runtime_log (log s2) = runtime_log (log s) @ cs \<and> list_all in_loop cs)"
    proof (cases "streams = []")
      case True
      with p show ?thesis by auto
    next
      case False
      with p have "poll_streams M B spoll streams ?s1 = (any, streams', s2)" by simp
      from poll_streams_frame [OF this] show ?thesis
        by (force simp: list_all_iff)
    qed
    with empty r p show ?thesis
      by (auto simp: actor_select_def Let_def split: option.split)
  qed
qed

lemma fold_ChildHandle_stop:
  "log (fold ChildHandle_stop cs s) = log s @ map (NotifyOne \<circ> addr_stop_signal) cs \<and>
   ctx (fold ChildHandle_stop cs s) = ctx s \<and> shared (fold ChildHandle_stop cs s) = shared s \<and>
   actor (fold ChildHandle_stop cs s) = actor s"
  by (induction cs arbitrary: s) (auto simp: ChildHandle_stop_def)

lemma Context_stop_children_sel:
  "log (Context_stop_children s) = log s @ map (NotifyOne \<circ> addr_stop_signal) (ctx_children (ctx s))"
  "ctx (Context_stop_children s) = ctx s" "shared (Context_stop_children s) = shared s"
  "actor (Context_stop_children s) = actor s"
  using fold_ChildHandle_stop [of "ctx_children (ctx s)" s] by (simp_all add: Context_stop_children_def)

lemma runtime_log_notifies [simp]: "runtime_log (map (NotifyOne \<circ> f) xs) = []"
  by (simp add: runtime_log_def)

lemma call_started_frame:
  assumes "call_started M B s = (r, s')"
  shows "runtime_log (log s') = runtime_log (log s) @ [StartedCalled] \<and> same_identity (ctx s) (ctx s')"
  using exec_frame [OF assms [unfolded call_started_def]] by simp

lemma call_stopped_frame:
  assumes "call_stopped M B s = (r, s')"
  shows "runtime_log (log s') = runtime_log (log s) @ [StoppedCalled] \<and> same_identity (ctx s) (ctx s')"
  using exec_frame [OF assms [unfolded call_stopped_def]] by simp

lemma notify_own_watchers_sel:
  "log (notify_own_watchers M s) = log s @ [WatchersNotified]"
  "ctx (notify_own_watchers M s) = ctx s" "actor (notify_own_watchers M s) = actor s"
  "shared (notify_own_watchers M s) = Addr_notify_watchers M (ctx_addr (ctx s)) (shared s)"
  by (simp_all add: notify_own_watchers_def)

lemma drop_receiver_sel [simp]:
  "log (drop_receiver M s) = log s" "ctx (drop_receiver M s) = ctx s" "actor (drop_receiver M s) = actor s"
  "shared (drop_receiver M s) = drop_rx M (addr_id (ctx_addr (ctx s))) (shared s)"
  by (simp_all add: drop_receiver_def)

lemmas actor_frames = collect_streams_cases Context_stop_children_sel notify_own_watchers_sel

section \<open>The life of a top-level actor\<close>

text \<open>
  Which sequences of calls a task has made so far, by its state. A crashed task either never
  got to the end of its loop, or panicked inside \<open>stopped\<close>.
\<close>

definition loop_log :: "('m, 'r) call list \<Rightarrow> bool" where
  "loop_log cs \<longleftrightarrow> (\<exists>ls. cs = StartedCalled # ls \<and> list_all in_loop ls)"

primrec actor_ok :: "('a, 'm, 'st, 'r, 'q) actor_task \<Rightarrow> bool" where
  "actor_ok (ActorSpawned s) \<longleftrightarrow> runtime_log (log s) = []"
| "actor_ok (ActorRunning head streams s) \<longleftrightarrow> loop_log (runtime_log (log s))"
| "actor_ok (ActorEnded s) \<longleftrightarrow>
     (\<exists>cs. loop_log cs \<and> runtime_log (log s) = cs @ [WatchersNotified, StoppedCalled])"
| "actor_ok (ActorCrashed s) \<longleftrightarrow>
     (\<exists>cs. loop_log cs \<and> (runtime_log (log s) = cs \<or> runtime_log (log s) = cs @ [WatchersNotified, StoppedCalled]))"

primrec actor_over :: "('a, 'm, 'st, 'r, 'q) actor_task \<Rightarrow> bool" where
  "actor_over (ActorSpawned s) = False"
| "actor_over (ActorRunning head streams s) = False"
| "actor_over (ActorEnded s) = True"
| "actor_over (ActorCrashed s) = True"

lemma loop_log_start: "loop_log [StartedCalled]"
  by (simp add: loop_log_def)

lemma loop_log_more: "loop_log cs \<Longrightarrow> list_all in_loop ls \<Longrightarrow> loop_log (cs @ ls)"
  by (auto simp: loop_log_def)

lemma actor_finish_ok:
  assumes "loop_log (runtime_log (log s))"
  shows "actor_ok (actor_finish M B s)"
proof -
  let ?s = "Context_stop_children (notify_own_watchers M s)"
  obtain r s' where r: "call_stopped M B ?s = (r, s')" by (cases "call_stopped M B ?s")
  have "runtime_log (log s') = runtime_log (log s) @ [WatchersNotified, StoppedCalled]"
    using call_stopped_frame [OF r] by (simp add: actor_frames)
  with assms r show ?thesis
    by (auto simp: actor_finish_def split: option.split)
qed

lemma actor_select_loop_log:
  assumes "loop_log (runtime_log (log s))"
  shows "loop_log (runtime_log (log (selected_cell (actor_select M B spoll sig streams s))))"
proof -
  obtain cs where "runtime_log (log (selected_cell (actor_select M B spoll sig streams s))) = runtime_log (log s) @ cs"
    and "list_all in_loop cs"
    using actor_select_frame [of s M B spoll sig streams] by blast
  with assms show ?thesis by (simp add: loop_log_more)
qed

lemma actor_step_running:
  assumes "collect_streams head streams s = (streams1, s1)"
  shows "actor_step M B spoll (Poll sig) (ActorRunning head streams s) =
    (case actor_select M B spoll sig streams1 s1 of
       Parked x \<Rightarrow> ActorRunning False (fst x) (snd x)
     | Continue x \<Rightarrow> ActorRunning True (fst x) (snd x)
     | Break panicked x \<Rightarrow> actor_finish M B (snd x)
     | Unwound x \<Rightarrow> ActorCrashed (drop_receiver M (snd x)))"
  using assms by (simp add: case_prod_beta split: selected.split)

lemma actor_step_ok:
  assumes "actor_ok t"
  shows "actor_ok (actor_step M B spoll p t)"
proof (cases t)
  case (ActorSpawned s)
  show ?thesis
  proof (cases p)
    case (Poll sig)
    obtain r s' where r: "call_started M B s = (r, s')" by (cases "call_started M B s")
    with call_started_frame [OF r] assms ActorSpawned Poll show ?thesis
      by (auto simp: loop_log_start split: option.split intro: exI [of _ "[StartedCalled]"])
  qed (use assms ActorSpawned in simp)
next
  case (ActorRunning head streams s)
  show ?thesis
  proof (cases p)
    case (Poll sig)
    obtain streams1 s1 where c: "collect_streams head streams s = (streams1, s1)"
      by (cases "collect_streams head streams s")
    have "loop_log (runtime_log (log s1))"
      using assms ActorRunning collect_streams_cases [OF c] by simp
    from actor_select_loop_log [OF this, of M B spoll sig streams1] ActorRunning Poll show ?thesis
      by (auto simp: actor_step_running [OF c] actor_finish_ok simp del: actor_step.simps split: selected.split)
  qed (use assms ActorRunning in simp)
qed (use assms in simp_all)

interpretation actor: ending_task "actor_step M B spoll" actor_ok actor_over for M B spoll
proof unfold_locales
  fix t p
  show "actor_ok t \<Longrightarrow> actor_ok (actor_step M B spoll p t)" by (rule actor_step_ok)
  show "actor_over t \<Longrightarrow> actor_step M B spoll p t = t" by (cases t) simp_all
qed

text \<open>
  C1. Lifecycle of a top-level actor. Whatever messages, stream items, signals and changes of
  the shared state come in, the runtime calls \<open>started\<close> once and first, then only
  handlers; once the task has ended it has notified the watchers exactly once and then called
  \<open>stopped\<close> exactly once, and nothing follows. A task that crashed did neither, unless it
  was \<open>stopped\<close> itself that panicked.
\<close>

theorem actor_lifecycle:
  assumes "log s = []"
  shows "\<exists>ls. list_all in_loop ls \<and>
    (case fold (actor_step M B spoll) ps (ActorSpawned s) of
       ActorSpawned s' \<Rightarrow> runtime_log (log s') = []
     | ActorRunning head streams s' \<Rightarrow> runtime_log (log s') = StartedCalled # ls
     | ActorEnded s' \<Rightarrow> runtime_log (log s') = StartedCalled # ls @ [WatchersNotified, StoppedCalled]
     | ActorCrashed s' \<Rightarrow> runtime_log (log s') = StartedCalled # ls \<or>
         runtime_log (log s') = StartedCalled # ls @ [WatchersNotified, StoppedCalled])"
proof -
  have "actor_ok (fold (actor_step M B spoll) ps (ActorSpawned s))"
    by (rule actor.inv_run) (simp add: assms)
  then show ?thesis
    by (cases "fold (actor_step M B spoll) ps (ActorSpawned s)")
      (auto simp: loop_log_def intro: exI [of _ "[]"])
qed

definition quiet :: signals where
  "quiet = \<lparr>shutdown_notified = False, stop_notified = False, escalate_notified = False, clock = 0\<rparr>"

lemmas actor_run_defs =
  call_started_def call_stopped_def actor_finish_def echo_behaviour_def sample_cell_def sample_world_def
  list_mpsc_def actor_select_def collect_streams_def Context_take_streams_def ActorMessage_handle_eq
  MessageEnvelope_with_response_def Context_with_signals_def Addr_new_def notify_own_watchers_def
  Addr_notify_watchers_def Context_stop_children_def emit_def set_mailbox_def Let_def
  drop_receiver_def drop_rx_def

theorem actor_lifecycle_witness:
  "\<exists>ls. list_all in_loop ls \<and>
    runtime_log (log (task_cell (fold (actor_step list_mpsc echo_behaviour (\<lambda>st. (StreamPending, st)))
      [Poll quiet, Interfere (set_mailbox (ActorId 1) (2, True, [Sync (MessageEnvelope_with_response (User 3) 4)])),
       Poll quiet, Poll (quiet\<lparr>stop_notified := True\<rparr>)] (ActorSpawned sample_cell))))
    = StartedCalled # ls @ [WatchersNotified, StoppedCalled]"
proof -
  let ?ps = "[Poll quiet, Interfere (set_mailbox (ActorId 1) (2, True, [Sync (MessageEnvelope_with_response (User 3) 4)])),
       Poll quiet, Poll (quiet\<lparr>stop_notified := True\<rparr>)] :: nat ActorMessage list_channel input list"
  let ?t = "fold (actor_step list_mpsc echo_behaviour (\<lambda>st. (StreamPending, st))) ?ps (ActorSpawned sample_cell)"
  have "actor_over ?t \<and> (\<exists>s'. ?t = ActorEnded s')"
    by (simp add: actor_run_defs quiet_def)
  then obtain s' where "?t = ActorEnded s'" by blast
  with actor_lifecycle [of sample_cell list_mpsc echo_behaviour "\<lambda>st. (StreamPending, st)" ?ps]
  show ?thesis by (simp add: sample_cell_def)
qed

section \<open>Ending stops the children\<close>

text \<open>
  When a top-level actor's loop ends, for whatever reason, the runtime notifies the
  watchers, then signals the stop of every child it ever spawned, once each and in the order
  they were spawned, and only then calls \<open>stopped\<close>; after that only the actor's own calls
  follow.
\<close>

lemma actor_end_stops_children:
  "\<exists>us. list_all api_call us \<and>
    log (task_cell (actor_finish M B s)) =
      log s @ [WatchersNotified] @ map (NotifyOne \<circ> addr_stop_signal) (ctx_children (ctx s)) @ [StoppedCalled] @ us"
proof -
  let ?s = "Context_stop_children (notify_own_watchers M s)"
  obtain r s' where r: "call_stopped M B ?s = (r, s')" by (cases "call_stopped M B ?s")
  obtain us where us: "log s' = log (emit StoppedCalled ?s) @ us" "list_all api_call us"
    using exec_log [OF r [unfolded call_stopped_def]] by blast
  have "log (task_cell (actor_finish M B s)) = log s'"
    using r by (auto simp: actor_finish_def split: option.split)
  with us show ?thesis by (auto simp: actor_frames)
qed

section \<open>A task that is over has closed its mailbox\<close>

lemma drop_rx_closed:
  assumes "mpsc_laws M contents cap live"
  shows "mpsc_is_closed M (mailbox (drop_rx M i w) i)" "contents (mailbox (drop_rx M i w) i) = []"
  using assms by (simp_all add: mpsc_laws_def drop_rx_def)

primrec actor_closed :: "('q, 'm) channel \<Rightarrow> ('a, 'm, 'st, 'r, 'q) actor_task \<Rightarrow> bool" where
  "actor_closed M (ActorSpawned s) \<longleftrightarrow> True"
| "actor_closed M (ActorRunning head streams s) \<longleftrightarrow> True"
| "actor_closed M (ActorEnded s) \<longleftrightarrow> mpsc_is_closed M (mailbox (shared s) (addr_id (ctx_addr (ctx s))))"
| "actor_closed M (ActorCrashed s) \<longleftrightarrow> mpsc_is_closed M (mailbox (shared s) (addr_id (ctx_addr (ctx s))))"

lemma actor_step_closed:
  assumes "mpsc_laws M contents cap live" and "actor_closed M t"
  shows "actor_closed M (actor_step M B spoll p t)"
proof (cases t)
  case (ActorRunning head streams s)
  obtain streams1 s1 where c: "collect_streams head streams s = (streams1, s1)" by (rule prod.exhaust)
  have "actor_closed M (actor_finish M B s2)" for s2
    by (simp add: actor_finish_def drop_rx_closed [OF assms(1)] split: prod.split option.split)
  with ActorRunning c drop_rx_closed [OF assms(1)] show ?thesis
    by (cases p) (auto simp: actor_step_running [OF c] simp del: actor_step.simps(2) split: selected.split)
qed (use assms drop_rx_closed [OF assms(1)] in \<open>cases p; simp split: prod.split option.split\<close>)+

text \<open>
  However its task came to an end, regularly or by a panic, an actor is no longer alive in the
  state the task leaves behind, and messages still waiting in the mailbox are gone.
\<close>

lemma finished_actor_not_alive:
  assumes "mpsc_laws M contents cap live"
    and "fold (actor_step M B spoll) ps (ActorSpawned s) = t" and "actor_over t"
  shows "\<not> Addr_is_alive M (ctx_addr (ctx (task_cell t))) (shared (task_cell t))"
proof -
  have "actor_closed M (fold (actor_step M B spoll) ps t0)" if "actor_closed M t0" for t0
    using that by (induction ps arbitrary: t0) (simp_all add: actor_step_closed [OF assms(1)])
  then have "actor_closed M t" using assms(2) by fastforce
  with assms(3) show ?thesis by (cases t) (simp_all add: Addr_is_alive_def)
qed

section \<open>Messages come before signals\<close>

text \<open>
  C28. Biased selection. While a live actor's mailbox holds a message, a poll handles the
  oldest one, whatever signals are set: the task goes on running, or ends because that handler
  panicked. A stop, shutdown or escalation takes effect only once the mailbox is empty.
\<close>

theorem message_before_signals:
  assumes "mpsc_laws M contents cap live"
    and "contents (mailbox (shared s) (addr_id (ctx_addr (ctx s)))) = x # xs"
    and "collect_streams head streams s = (streams1, s1)"
  shows "\<exists>q. contents q = xs \<and>
    actor_step M B spoll (Poll sig) (ActorRunning head streams s) =
      (case ActorMessage_handle M B x (s1\<lparr>shared := set_mailbox (addr_id (ctx_addr (ctx s))) q (shared s1)\<rparr>) of
         (None, s2) \<Rightarrow> actor_finish M B s2
       | (Some _, s2) \<Rightarrow> ActorRunning True streams1 s2)"
proof -
  let ?self = "addr_id (ctx_addr (ctx s))"
  note c = collect_streams_cases [OF assms(3)]
  have self: "addr_id (ctx_addr (ctx s1)) = ?self"
    using c(2) by (simp add: same_identity_def)
  obtain r q where r: "mpsc_recv M (mailbox (shared s) ?self) = (r, q)"
    by (cases "mpsc_recv M (mailbox (shared s) ?self)")
  with mpsc_recvD [OF assms(1) r] assms(2) have q: "r = Some (Some x)" "contents q = xs"
    by (simp_all add: recv_law_def)
  have "actor_step M B spoll (Poll sig) (ActorRunning head streams s) =
      (case ActorMessage_handle M B x (s1\<lparr>shared := set_mailbox ?self q (shared s1)\<rparr>) of
         (None, s2) \<Rightarrow> actor_finish M B s2
       | (Some _, s2) \<Rightarrow> ActorRunning True streams1 s2)"
    using r q(1) c(3)
    by (simp add: actor_step_running [OF assms(3)] actor_select_def self split: option.split prod.split
        del: actor_step.simps)
  with q(2) show ?thesis by blast
qed

theorem message_before_signals_witness:
  "\<exists>streams s'. actor_step list_mpsc echo_behaviour (\<lambda>st. (StreamPending, st))
      (Poll \<lparr>shutdown_notified = True, stop_notified = True, escalate_notified = True, clock = 0\<rparr>)
      (ActorRunning True [] (sample_cell\<lparr>shared := set_mailbox (ActorId 1) (2, True, [Sync (MessageEnvelope_new (User 3))]) sample_world\<rparr>))
    = ActorRunning True streams s' \<and> actor s' = 8"
proof -
  let ?sig = "\<lparr>shutdown_notified = True, stop_notified = True, escalate_notified = True, clock = 0\<rparr>"
  let ?x = "Sync (MessageEnvelope_new (User (3 :: nat)))"
  let ?s = "sample_cell\<lparr>shared := set_mailbox (ActorId 1) (2, True, [?x]) sample_world\<rparr>"
  have c: "(\<lambda>(n, live, xs). xs) (mailbox (shared ?s) (addr_id (ctx_addr (ctx ?s)))) = ?x # []"
    by (simp add: sample_cell_def Context_with_signals_def Addr_new_def)
  obtain streams1 s1 where s1: "collect_streams True [] ?s = (streams1, s1)"
    by (cases "collect_streams True [] ?s")
  have "actor s1 = 5" using collect_streams_cases [OF s1] by (simp add: sample_cell_def)
  then show ?thesis
    using message_before_signals [OF list_mpsc_laws c s1, of echo_behaviour "\<lambda>st. (StreamPending, st)" ?sig]
    by (auto simp: ActorMessage_handle_eq MessageEnvelope_new_def echo_behaviour_def simp del: actor_step.simps)
qed

section \<open>Where panics are not caught\<close>

text \<open>
  C39. A panic in a stream handler is not contained. If the mailbox is empty and a stream
  handler panics, the task dies on the spot: the watchers are not notified, no child is
  stopped and \<open>stopped\<close> is never called, now or later.
\<close>

theorem stream_panic_uncaught:
  assumes "log s = []"
    and "fold (actor_step M B spoll) ps (ActorSpawned s) = ActorRunning head streams s0"
    and "collect_streams head streams s0 = (streams1, s1)"
    and "mpsc_recv M (mailbox (shared s1) (addr_id (ctx_addr (ctx s1)))) = (None, q)"
    and "streams1 \<noteq> []"
    and "poll_streams M B spoll streams1 (s1\<lparr>shared := set_mailbox (addr_id (ctx_addr (ctx s1))) q (shared s1)\<rparr>)
           = (None, streams2, s2)"
  shows "fold (actor_step M B spoll) (ps @ Poll sig # qs) (ActorSpawned s) = ActorCrashed (drop_receiver M s2)
    \<and> WatchersNotified \<notin> set (runtime_log (log s2)) \<and> StoppedCalled \<notin> set (runtime_log (log s2))"
proof -
  have step: "actor_step M B spoll (Poll sig) (ActorRunning head streams s0) = ActorCrashed (drop_receiver M s2)"
    using assms(4-6) by (simp add: actor_step_running [OF assms(3)] actor_select_def del: actor_step.simps)
  have "actor_ok (ActorRunning head streams s0)"
    unfolding assms(2) [symmetric] by (rule actor.inv_run) (simp add: assms(1))
  then have "loop_log (runtime_log (log s1))"
    using collect_streams_cases [OF assms(3)] by simp
  moreover obtain cs where cs: "runtime_log (log s2) = runtime_log (log s1) @ cs" "set cs \<subseteq> {ItemCalled, FinishedCalled}"
    using poll_streams_frame [OF assms(6)] by auto
  moreover have "list_all in_loop cs"
    unfolding list_all_iff using cs(2) by fastforce
  ultimately have "loop_log (runtime_log (log s2))"
    by (simp add: loop_log_more)
  then have "WatchersNotified \<notin> set (runtime_log (log s2)) \<and> StoppedCalled \<notin> set (runtime_log (log s2))"
    by (auto simp: loop_log_def not_in_loop_entry)
  then show ?thesis
    using assms(2) step actor.ended_run [of "ActorCrashed (drop_receiver M s2)" M B spoll qs] by simp
qed

definition stream_panics :: "(nat, nat, unit, nat, unit) behaviour" where
  "stream_panics = echo_behaviour\<lparr>started := \<lambda>a. Call a (ApiAddStream ()) (\<lambda>ans. Ret a ()), item := \<lambda>i a. Panic a\<rparr>"

theorem stream_panic_uncaught_witness:
  "\<exists>s2. fold (actor_step list_mpsc stream_panics (\<lambda>st. (StreamItem (), st)))
      ([Poll quiet] @ Poll quiet # [Poll quiet]) (ActorSpawned sample_cell) = ActorCrashed (drop_receiver list_mpsc s2)
    \<and> WatchersNotified \<notin> set (runtime_log (log s2)) \<and> StoppedCalled \<notin> set (runtime_log (log s2))"
proof -
  let ?sp = "\<lambda>st :: unit. (StreamItem (), st)"
  let ?q = "(2 :: nat, True, [] :: nat ActorMessage list)"
  let ?s1 = "sample_cell\<lparr>log := [StartedCalled]\<rparr>"
  let ?s0 = "?s1\<lparr>ctx := (ctx sample_cell)\<lparr>ctx_streams := [()]\<rparr>\<rparr>"
  let ?s2 = "?s1\<lparr>shared := set_mailbox (addr_id (ctx_addr (ctx ?s1))) ?q (shared ?s1)\<rparr>"
  have "log sample_cell = []" by (simp add: sample_cell_def)
  moreover have "fold (actor_step list_mpsc stream_panics ?sp) [Poll quiet] (ActorSpawned sample_cell) = ActorRunning True [] ?s0"
    by (simp add: actor_run_defs stream_panics_def Context_add_stream_def)
  moreover have "collect_streams True [] ?s0 = ([()], ?s1)"
    by (simp add: collect_streams_def Context_take_streams_def sample_cell_def Context_with_signals_def)
  moreover have "mpsc_recv list_mpsc (mailbox (shared ?s1) (addr_id (ctx_addr (ctx ?s1)))) = (None, ?q)"
    by (simp add: actor_run_defs)
  moreover have "poll_streams list_mpsc stream_panics ?sp [()] ?s2 = (None, [()], emit ItemCalled ?s2)"
    by (simp add: StreamWrapper_poll_next_def stream_panics_def sample_cell_def emit_def)
  ultimately show ?thesis
    using stream_panic_uncaught [of sample_cell list_mpsc stream_panics ?sp "[Poll quiet]" True "[]" ?s0 "[()]" ?s1 ?q
        "[()]" "emit ItemCalled ?s2" quiet "[Poll quiet]"] by blast
qed

end
