(* ===== verification/Child_Supervision.thy ===== *)
theory Child_Supervision
  imports Actor_System
begin

text \<open>
  The task of a supervised child (\<open>spawn_child_with_strategy_and_capacity\<close> in
  \<open>src/context.rs\<close>): the same select loop as a top-level actor, wrapped in the restart
  loop that applies the supervision strategy.
\<close>

section \<open>The child's select loop\<close>

definition child_select ::
    "('q, 'm) channel \<Rightarrow> ('a, 'm, 'st, 'r, 'i) behaviour \<Rightarrow> ('st, 'i) stream_source \<Rightarrow> signals
      \<Rightarrow> 'st list \<Rightarrow> ('a, 'm, 'st, 'r, 'q) cell
      \<Rightarrow> ('st list \<times> ('a, 'm, 'st, 'r, 'q) cell) selected" where
  "child_select M B spoll sig streams s =
     (let self = addr_id (ctx_addr (ctx s)) in
      case mpsc_recv M (mailbox (shared s) self) of
        (received, q) \<Rightarrow>
          (let s1 = s\<lparr>shared := set_mailbox self q (shared s)\<rparr> in
           case received of
             Some (Some actor_msg) \<Rightarrow>
               (case ActorMessage_handle M B actor_msg s1 of
                  (None, s2) \<Rightarrow> Break True (streams, s2)
                | (Some _, s2) \<Rightarrow> Continue (streams, s2))
           | Some None \<Rightarrow> Break False (streams, s1)
           | None \<Rightarrow>
               (case (if streams = [] then (Some False, streams, s1) else poll_streams M B spoll streams s1) of
                  (None, streams', s2) \<Rightarrow> Unwound (streams', s2)
                | (Some ready, streams', s2) \<Rightarrow>
                    if ready then Continue (streams', s2)
                    else if shutdown_notified sig then Break False (streams', s2)
                    else if stop_notified sig then Break False (streams', s2)
                    else if escalate_notified sig then Break True (streams', s2)
                    else Parked (streams', s2))))"

lemma child_select_eq: "child_select = actor_select"
  by (simp add: fun_eq_iff child_select_def actor_select_def)

section \<open>The restart loop\<close>

text \<open>
  What the spawned task captures. \<open>factory n\<close> is the result of the n-th call of the factory,
  counted from 0, None where it panics; \<open>take_once\<close> is the factory \<open>spawn_child\<close>
  builds, which panics with "Factory called more than once" from the second call on.
\<close>

record 'a child_config =
  strategy :: SupervisorStrategy
  factory :: "nat \<Rightarrow> 'a option"
  child_addr :: Addr
  child_stop_signal :: nat
  child_shutdown :: nat
  parent_escalate_signal :: nat

definition take_once :: "'a \<Rightarrow> nat \<Rightarrow> 'a option" where
  "take_once child n = (if n = 0 then Some child else None)"

text \<open>
  \<open>ChildStarting\<close> is at the head of the restart loop; the number counts the calls of the
  factory so far.
\<close>

datatype ('a, 'm, 'st, 'r, 'q) child_task =
    ChildStarting "RestartTracker option" nat "'q world" "('m, 'r) call list"
  | ChildRunning "RestartTracker option" nat bool "'st list" "('a, 'm, 'st, 'r, 'q) cell"
  | ChildEnded nat "'q world" "('m, 'r) call list"
  | ChildCrashed nat "'q world" "('m, 'r) call list"

definition child_begin :: "'a child_config \<Rightarrow> 'q world \<Rightarrow> ('a, 'm, 'st, 'r, 'q) child_task" where
  "child_begin cfg w =
     ChildStarting (case strategy cfg of Restart m d \<Rightarrow> Some (RestartTracker_new m d) | _ \<Rightarrow> None) 0 w []"

text \<open>
  After the restart loop the watchers are notified; then the task is over and drops the
  receiver it owns, as it does when a panic ends it.
\<close>

definition child_done ::
    "('q, 'm) channel \<Rightarrow> nat \<Rightarrow> ('a, 'm, 'st, 'r, 'q) cell \<Rightarrow> ('a, 'm, 'st, 'r, 'q) child_task" where
  "child_done M n s = (let s' = drop_receiver M (notify_own_watchers M s) in ChildEnded n (shared s') (log s'))"

definition child_unwound ::
    "('q, 'm) channel \<Rightarrow> nat \<Rightarrow> ('a, 'm, 'st, 'r, 'q) cell \<Rightarrow> ('a, 'm, 'st, 'r, 'q) child_task" where
  "child_unwound M n s = (let s' = drop_receiver M s in ChildCrashed n (shared s') (log s'))"

text \<open>
  After the select loop: stop the children, call \<open>stopped\<close>, and apply the strategy. In the
  arm of \<open>Restart\<close> a missing tracker falls through to the next round of the loop.
\<close>

definition child_after_loop ::
    "('q, 'm) channel \<Rightarrow> ('a, 'm, 'st, 'r, 'i) behaviour \<Rightarrow> 'a child_config \<Rightarrow> instant
      \<Rightarrow> RestartTracker option \<Rightarrow> nat \<Rightarrow> bool \<Rightarrow> ('a, 'm, 'st, 'r, 'q) cell
      \<Rightarrow> ('a, 'm, 'st, 'r, 'q) child_task" where
  "child_after_loop M B cfg now tracker n panicked s =
     (case call_stopped M B (Context_stop_children s) of
        (None, s') \<Rightarrow> child_unwound M n s'
      | (Some _, s') \<Rightarrow>
          if panicked then
            (case strategy cfg of
               Stop \<Rightarrow> child_done M n s'
             | Restart m d \<Rightarrow>
                 (case tracker of
                    None \<Rightarrow> ChildStarting None n (shared s') (log s')
                  | Some t \<Rightarrow>
                      (case record_restart now t of
                         (allowed, t') \<Rightarrow>
                           if allowed then ChildStarting (Some t') n (shared s') (log s')
                           else child_done M n s'))
             | Escalate \<Rightarrow> child_done M n (emit (NotifyEscalate (parent_escalate_signal cfg)) s'))
          else child_done M n s')"

fun child_step ::
    "('q, 'm) channel \<Rightarrow> ('a, 'm, 'st, 'r, 'i) behaviour \<Rightarrow> ('st, 'i) stream_source \<Rightarrow> 'a child_config
      \<Rightarrow> 'q input \<Rightarrow> ('a, 'm, 'st, 'r, 'q) child_task \<Rightarrow> ('a, 'm, 'st, 'r, 'q) child_task" where
  "child_step M B spoll cfg (Poll sig) (ChildStarting tracker n w cs) =
     (case factory cfg n of
        None \<Rightarrow> ChildCrashed (Suc n) (drop_rx M (addr_id (child_addr cfg)) w) (cs @ [FactoryCalled])
      | Some a \<Rightarrow>
          (case Context_with_stop_signal (child_addr cfg) (child_stop_signal cfg) (child_shutdown cfg) w of
             (c, w') \<Rightarrow>
               (case call_started M B \<lparr>actor = a, ctx = c, shared = w', log = cs @ [FactoryCalled]\<rparr> of
                  (None, s) \<Rightarrow> child_unwound M (Suc n) s
                | (Some _, s) \<Rightarrow> ChildRunning tracker (Suc n) True [] s)))"
| "child_step M B spoll cfg (Poll sig) (ChildRunning tracker n head streams s) =
     (case collect_streams head streams s of
        (streams1, s1) \<Rightarrow>
          (case child_select M B spoll sig streams1 s1 of
             Parked (streams2, s2) \<Rightarrow> ChildRunning tracker n False streams2 s2
           | Continue (streams2, s2) \<Rightarrow> ChildRunning tracker n True streams2 s2
           | Break panicked (streams2, s2) \<Rightarrow> child_after_loop M B cfg (clock sig) tracker n panicked s2
           | Unwound (streams2, s2) \<Rightarrow> child_unwound M n s2))"
| "child_step M B spoll cfg (Interfere f) (ChildStarting tracker n w cs) = ChildStarting tracker n (f w) cs"
| "child_step M B spoll cfg (Interfere f) (ChildRunning tracker n head streams s) =
     ChildRunning tracker n head streams (s\<lparr>shared := f (shared s)\<rparr>)"
| "child_step M B spoll cfg p (ChildEnded n w cs) = ChildEnded n w cs"
| "child_step M B spoll cfg p (ChildCrashed n w cs) = ChildCrashed n w cs"

primrec child_log :: "('a, 'm, 'st, 'r, 'q) child_task \<Rightarrow> ('m, 'r) call list" where
  "child_log (ChildStarting tracker n w cs) = cs"
| "child_log (ChildRunning tracker n head streams s) = log s"
| "child_log (ChildEnded n w cs) = cs"
| "child_log (ChildCrashed n w cs) = cs"

primrec factory_calls :: "('a, 'm, 'st, 'r, 'q) child_task \<Rightarrow> nat" where
  "factory_calls (ChildStarting tracker n w cs) = n"
| "factory_calls (ChildRunning tracker n head streams s) = n"
| "factory_calls (ChildEnded n w cs) = n"
| "factory_calls (ChildCrashed n w cs) = n"

primrec child_finished :: "('a, 'm, 'st, 'r, 'q) child_task \<Rightarrow> bool" where
  "child_finished (ChildStarting tracker n w cs) = False"
| "child_finished (ChildRunning tracker n head streams s) = False"
| "child_finished (ChildEnded n w cs) = True"
| "child_finished (ChildCrashed n w cs) = True"

section \<open>The life of a child\<close>

text \<open>
  \<open>lives n cs\<close>: the runtime's log consists of n complete incarnations, each created by the
  factory, started, run through its loop and stopped.
\<close>

inductive lives :: "nat \<Rightarrow> ('m, 'r) call list \<Rightarrow> bool" where
  no_life: "lives 0 []"
| next_life: "lives n cs \<Longrightarrow> list_all in_loop ls \<Longrightarrow>
    lives (Suc n) (cs @ [FactoryCalled, StartedCalled] @ ls @ [StoppedCalled])"

definition living :: "nat \<Rightarrow> ('m, 'r) call list \<Rightarrow> bool" where
  "living n cs \<longleftrightarrow> (\<exists>k ds ls. n = Suc k \<and> lives k ds \<and> list_all in_loop ls \<and>
     cs = ds @ [FactoryCalled, StartedCalled] @ ls)"

lemma living_start: "lives n cs \<Longrightarrow> living (Suc n) (cs @ [FactoryCalled, StartedCalled])"
  unfolding living_def by (intro exI [of _ n] exI [of _ cs] exI [of _ "[]"]) simp

lemma living_more:
  assumes "living n cs" and "list_all in_loop ls"
  shows "living n (cs @ ls)"
proof -
  obtain k ds ms where "n = Suc k" "lives k ds" "list_all in_loop ms"
    "cs = ds @ [FactoryCalled, StartedCalled] @ ms"
    using assms(1) unfolding living_def by blast
  with assms(2) show ?thesis
    unfolding living_def by (intro exI [of _ k] exI [of _ ds] exI [of _ "ms @ ls"]) simp
qed

lemma living_stop:
  assumes "living n cs"
  shows "lives n (cs @ [StoppedCalled])"
proof -
  obtain k ds ms where "n = Suc k" "lives k ds" "list_all in_loop ms"
    "cs = ds @ [FactoryCalled, StartedCalled] @ ms"
    using assms unfolding living_def by blast
  with next_life [of k ds ms] show ?thesis by simp
qed

lemma not_in_loop_count: "list_all in_loop ls \<Longrightarrow> \<not> in_loop c \<Longrightarrow> count_list ls c = 0"
  by (simp add: not_in_loop_entry count_list_0_iff)

lemma lives_entries:
  "lives n cs \<Longrightarrow> WatchersNotified \<notin> set cs \<and> NotifyEscalate e \<notin> set cs \<and>
     count_list cs FactoryCalled = n \<and> count_list cs StartedCalled = n \<and> count_list cs StoppedCalled = n"
  by (induction rule: lives.induct) (simp_all add: not_in_loop_entry not_in_loop_count)

lemma living_entries:
  "living n cs \<Longrightarrow> WatchersNotified \<notin> set cs \<and> NotifyEscalate e \<notin> set cs \<and>
     count_list cs FactoryCalled = n \<and> count_list cs StartedCalled = n \<and> Suc (count_list cs StoppedCalled) = n"
  unfolding living_def by (auto simp: not_in_loop_entry not_in_loop_count dest!: lives_entries)

text \<open>The tracker of the task belongs to its strategy.\<close>

fun tracker_for :: "SupervisorStrategy \<Rightarrow> RestartTracker option \<Rightarrow> bool" where
  "tracker_for (Restart m d) (Some t) = (max_restarts t = m \<and> within t = d \<and> tracker_ok t)"
| "tracker_for (Restart m d) None = False"
| "tracker_for _ tracker = (tracker = None)"

definition restarts :: "SupervisorStrategy \<Rightarrow> bool" where
  "restarts st \<longleftrightarrow> (\<exists>m d. st = Restart m d)"

definition own_context :: "'a child_config \<Rightarrow> 'st Context \<Rightarrow> bool" where
  "own_context cfg c \<longleftrightarrow> ctx_addr c = child_addr cfg \<and> ctx_stop_signal c = Some (child_stop_signal cfg) \<and>
     ctx_shutdown c = child_shutdown cfg"

lemma own_context_same: "own_context cfg c \<Longrightarrow> same_identity c d \<Longrightarrow> own_context cfg d"
  by (simp add: own_context_def same_identity_def)

primrec child_ok :: "'a child_config \<Rightarrow> ('a, 'm, 'st, 'r, 'q) child_task \<Rightarrow> bool" where
  "child_ok cfg (ChildStarting tracker n w cs) \<longleftrightarrow>
     tracker_for (strategy cfg) tracker \<and> lives n (runtime_log cs) \<and> (n = 0 \<or> restarts (strategy cfg))"
| "child_ok cfg (ChildRunning tracker n head streams s) \<longleftrightarrow>
     tracker_for (strategy cfg) tracker \<and> living n (runtime_log (log s)) \<and> own_context cfg (ctx s) \<and>
     (n = 1 \<or> restarts (strategy cfg))"
| "child_ok cfg (ChildEnded n w cs) \<longleftrightarrow>
     (\<exists>ds. lives n ds \<and> 0 < n \<and> (n = 1 \<or> restarts (strategy cfg)) \<and>
       (runtime_log cs = ds @ [WatchersNotified] \<or>
        strategy cfg = Escalate \<and>
          runtime_log cs = ds @ [NotifyEscalate (parent_escalate_signal cfg), WatchersNotified]))"
| "child_ok cfg (ChildCrashed n w cs) \<longleftrightarrow>
     WatchersNotified \<notin> set (runtime_log cs) \<and> count_list (runtime_log cs) FactoryCalled = n \<and>
     (n = 1 \<or> restarts (strategy cfg))"

lemma tracker_for_start:
  "tracker_for st (case st of Restart m d \<Rightarrow> Some (RestartTracker_new m d) | _ \<Rightarrow> None)"
  by (cases st) (simp_all add: RestartTracker_new_def tracker_ok_def)

lemma tracker_for_restart:
  assumes "tracker_for (Restart m d) (Some t)" and "record_restart now t = (b, t')"
  shows "tracker_for (Restart m d) (Some t')"
  using assms tracker.inv_step [of t now] record_restart_config [of now t] by simp

lemma child_unwound_simps [simp]:
  "child_ok cfg (child_unwound M n s) \<longleftrightarrow>
     WatchersNotified \<notin> set (runtime_log (log s)) \<and> count_list (runtime_log (log s)) FactoryCalled = n \<and>
     (n = 1 \<or> restarts (strategy cfg))"
  "child_finished (child_unwound M n s)" "factory_calls (child_unwound M n s) = n"
  "child_unwound M n s \<noteq> ChildStarting tracker k w cs" "child_unwound M n s \<noteq> ChildRunning tracker k head streams s'"
  by (simp_all add: child_unwound_def Let_def)

lemma child_done_ok:
  assumes "lives n ds" and "0 < n" and "n = 1 \<or> restarts (strategy cfg)"
    and "runtime_log (log s) = ds \<or>
      strategy cfg = Escalate \<and> runtime_log (log s) = ds @ [NotifyEscalate (parent_escalate_signal cfg)]"
  shows "child_ok cfg (child_done M n s)"
  using assms by (auto simp: child_done_def Let_def notify_own_watchers_sel)

lemma child_after_loop_ok:
  assumes "tracker_for (strategy cfg) tracker" and "living n (runtime_log (log s))"
    and "n = 1 \<or> restarts (strategy cfg)"
  shows "child_ok cfg (child_after_loop M B cfg now tracker n panicked s)"
proof -
  obtain r s' where r: "call_stopped M B (Context_stop_children s) = (r, s')"
    by (cases "call_stopped M B (Context_stop_children s)")
  have log: "runtime_log (log s') = runtime_log (log s) @ [StoppedCalled]"
    using call_stopped_frame [OF r] by (simp add: Context_stop_children_sel)
  have n: "0 < n" using assms(2) by (auto simp: living_def)
  note whole = living_stop [OF assms(2)]
  note finish = child_done_ok [OF whole n assms(3)]
  have crash: "child_ok cfg (child_unwound M n s')"
    using lives_entries [OF whole] assms(3) by (simp add: log)
  show ?thesis
  proof (cases "strategy cfg")
    case (Restart m d)
    then obtain t where t: "tracker = Some t" using assms(1) by (cases tracker) auto
    obtain b t' where b: "record_restart now t = (b, t')" by (cases "record_restart now t")
    have "tracker_for (strategy cfg) (Some t')"
      using tracker_for_restart assms(1) Restart t b by metis
    then show ?thesis
      using finish [of s'] whole crash Restart
      by (auto simp: child_after_loop_def r t b log restarts_def split: option.split)
  qed (use finish [of s'] finish [of "emit (NotifyEscalate (parent_escalate_signal cfg)) s'"] crash in
      \<open>auto simp: child_after_loop_def r log split: option.split\<close>)
qed

lemma child_started_ok:
  fixes B :: "('a, 'm, 'st, 'r, 'i) behaviour"
  assumes "child_ok cfg (ChildStarting tracker n w cs)"
  shows "child_ok cfg (child_step M B spoll cfg (Poll sig) (ChildStarting tracker n w cs))"
proof (cases "factory cfg n")
  case None
  with assms lives_entries [of n "runtime_log cs"] show ?thesis by auto
next
  case (Some a)
  obtain c :: "'st Context" and w'
    where c: "Context_with_stop_signal (child_addr cfg) (child_stop_signal cfg) (child_shutdown cfg) w = (c, w')"
    by (rule prod.exhaust)
  have own: "own_context cfg c"
    using c by (auto simp: own_context_def Context_with_stop_signal_def split: prod.splits)
  let ?s = "\<lparr>actor = a, ctx = c, shared = w', log = cs @ [FactoryCalled]\<rparr>"
  obtain r s' where r: "call_started M B ?s = (r, s')" by (cases "call_started M B ?s")
  note f = call_started_frame [OF r]
  have life: "living (Suc n) (runtime_log (log s'))"
    using f assms living_start [of n "runtime_log cs"] by simp
  have "own_context cfg (ctx s')" using f own by (auto intro: own_context_same)
  then show ?thesis
    using assms Some c r life living_entries [OF life] by (auto split: option.split)
qed

lemma child_step_running:
  assumes "collect_streams head streams s = (streams1, s1)"
  shows "child_step M B spoll cfg (Poll sig) (ChildRunning tracker n head streams s) =
     (case actor_select M B spoll sig streams1 s1 of
        Parked (streams2, s2) \<Rightarrow> ChildRunning tracker n False streams2 s2
      | Continue (streams2, s2) \<Rightarrow> ChildRunning tracker n True streams2 s2
      | Break panicked (streams2, s2) \<Rightarrow> child_after_loop M B cfg (clock sig) tracker n panicked s2
      | Unwound (streams2, s2) \<Rightarrow> child_unwound M n s2)"
  using assms by (simp add: child_select_eq)

lemma child_running_ok:
  assumes "child_ok cfg (ChildRunning tracker n head streams s)"
  shows "child_ok cfg (child_step M B spoll cfg (Poll sig) (ChildRunning tracker n head streams s))"
proof -
  obtain streams1 s1 where c: "collect_streams head streams s = (streams1, s1)"
    by (cases "collect_streams head streams s")
  let ?x = "actor_select M B spoll sig streams1 s1"
  have "living n (runtime_log (log s1))" "own_context cfg (ctx s1)"
    using assms collect_streams_cases [OF c] own_context_same by auto
  then have live: "living n (runtime_log (log (selected_cell ?x)))" and own: "own_context cfg (ctx (selected_cell ?x))"
    using actor_select_frame [of s1 M B spoll sig streams1] living_more own_context_same by force+
  show ?thesis
    using assms live own living_entries [OF live]
    by (auto simp: child_step_running [OF c] child_after_loop_ok simp del: child_step.simps split: selected.split)
qed

interpretation child: ending_task "child_step M B spoll cfg" "child_ok cfg" child_finished for M B spoll cfg
proof unfold_locales
  fix t p
  show "child_ok cfg (child_step M B spoll cfg p t)" if "child_ok cfg t"
  proof (cases p)
    case (Poll sig)
    with that child_started_ok child_running_ok show ?thesis
      by (cases t) (simp_all del: child_step.simps(1,2))
  qed (use that in \<open>cases t, simp_all\<close>)
  show "child_finished t \<Longrightarrow> child_step M B spoll cfg p t = t" by (cases t) simp_all
qed

lemma child_begin_ok: "child_ok cfg (child_begin cfg w)"
  by (simp add: child_begin_def tracker_for_start no_life)

lemmas child_run_ok = child.inv_run [OF child_begin_ok]

text \<open>
  C3. Lifecycle of a supervised child. Whatever comes in, the child's life is a sequence of
  complete incarnations, each created by the factory, started, run and stopped in this order.
  The watchers are notified once, after the last incarnation was stopped; the parent's escalate
  signal is used only under \<open>Escalate\<close>, once, after \<open>stopped\<close> and before the
  watchers; and only \<open>Restart\<close> gives a child a second incarnation. Every incarnation has
  the address and the stop signal the child was spawned with. A task that crashed never notified
  the watchers.
\<close>

theorem child_lifecycle:
  "case fold (child_step M B spoll cfg) ps (child_begin cfg w) of
     ChildStarting tracker n w' cs \<Rightarrow> lives n (runtime_log cs) \<and> (n = 0 \<or> restarts (strategy cfg))
   | ChildRunning tracker n head streams s \<Rightarrow>
       living n (runtime_log (log s)) \<and> own_context cfg (ctx s) \<and> (n = 1 \<or> restarts (strategy cfg))
   | ChildEnded n w' cs \<Rightarrow>
       (\<exists>ds. lives n ds \<and> 0 < n \<and> (n = 1 \<or> restarts (strategy cfg)) \<and>
         (runtime_log cs = ds @ [WatchersNotified] \<or>
          strategy cfg = Escalate \<and>
            runtime_log cs = ds @ [NotifyEscalate (parent_escalate_signal cfg), WatchersNotified]))
   | ChildCrashed n w' cs \<Rightarrow>
       WatchersNotified \<notin> set (runtime_log cs) \<and> count_list (runtime_log cs) FactoryCalled = n \<and>
       (n = 1 \<or> restarts (strategy cfg))"
  using child_run_ok [of cfg M B spoll ps w]
  by (cases "fold (child_step M B spoll cfg) ps (child_begin cfg w)") simp_all

section \<open>One-shot factories\<close>

text \<open>
  Two tasks that differ only in what the factory returns from its second call on run in
  lockstep when the strategy never restarts.
\<close>

lemma child_after_loop_factory:
  "child_after_loop M B (cfg\<lparr>factory := f\<rparr>) now tracker n panicked s = child_after_loop M B cfg now tracker n panicked s"
  by (auto simp: child_after_loop_def split: option.split prod.split SupervisorStrategy.split)

lemma child_step_factory:
  assumes "child_ok cfg t" and "\<not> restarts (strategy cfg)" and "f 0 = factory cfg 0"
  shows "child_step M B spoll (cfg\<lparr>factory := f\<rparr>) p t = child_step M B spoll cfg p t"
proof (cases p)
  case (Poll sig)
  with assms show ?thesis
    by (cases t) (auto simp: child_after_loop_factory split: option.split prod.split selected.split)
qed (cases t, simp_all)

lemma child_run_factory:
  assumes "child_ok cfg t" and "\<not> restarts (strategy cfg)" and "f 0 = factory cfg 0"
  shows "fold (child_step M B spoll (cfg\<lparr>factory := f\<rparr>)) ps t = fold (child_step M B spoll cfg) ps t"
  using assms
proof (induction ps arbitrary: t)
  case (Cons p ps)
  then show ?case
    using child_step_factory [where f = f, OF Cons.prems, of M B spoll p] child.inv_step [of cfg t M B spoll p] by simp
qed simp

text \<open>
  The factory of \<open>spawn_child\<close> is called at most once. A child spawned with
  \<open>spawn_child\<close> or \<open>spawn_child_with_capacity\<close> (a one-shot factory, the strategy
  \<open>Stop\<close>) behaves exactly like one whose factory can be called for ever, so the
  "Factory called more than once" panic is unreachable; the same holds for \<open>Escalate\<close>.
\<close>

lemma one_shot_factory_suffices:
  fixes B :: "('a, 'm, 'st, 'r, 'i) behaviour" and w :: "'q world"
  assumes "strategy cfg = Stop \<or> strategy cfg = Escalate"
  shows "fold (child_step M B spoll (cfg\<lparr>factory := take_once a\<rparr>)) ps (child_begin cfg w)
       = fold (child_step M B spoll (cfg\<lparr>factory := \<lambda>_. Some a\<rparr>)) ps (child_begin cfg w)
    \<and> factory_calls (fold (child_step M B spoll (cfg\<lparr>factory := take_once a\<rparr>)) ps (child_begin cfg w)) \<le> 1"
proof -
  let ?c = "cfg\<lparr>factory := take_once a\<rparr>"
  have no: "\<not> restarts (strategy ?c)" using assms by (auto simp: restarts_def)
  have ok: "child_ok ?c (child_begin cfg w :: ('a, 'm, 'st, 'r, 'q) child_task)"
    using child_begin_ok [of ?c w] by (simp add: child_begin_def)
  have "child_ok ?c (fold (child_step M B spoll ?c) ps (child_begin cfg w))"
    by (rule child.inv_run [OF ok])
  then have "factory_calls (fold (child_step M B spoll ?c) ps (child_begin cfg w)) \<le> 1"
    using no by (cases "fold (child_step M B spoll ?c) ps (child_begin cfg w)") auto
  with child_run_factory [OF ok no, of "\<lambda>_. Some a" M B spoll ps] show ?thesis
    by (simp add: take_once_def)
qed

definition sample_child :: "SupervisorStrategy \<Rightarrow> nat child_config" where
  "sample_child st = \<lparr>strategy = st, factory = (\<lambda>n. Some 5), child_addr = Addr_new (ActorId 1) 1,
     child_stop_signal = 1, child_shutdown = 0, parent_escalate_signal = 9\<rparr>"

definition failing_world :: "nat ActorMessage list_channel world" where
  "failing_world = set_mailbox (ActorId 1)
     (2, True, [Sync (MessageEnvelope_new (User 0)), Sync (MessageEnvelope_new (User 0))]) sample_world"

lemmas child_run_defs = actor_run_defs sample_child_def failing_world_def child_begin_def child_select_eq
  child_after_loop_def child_done_def child_unwound_def Context_with_stop_signal_def fresh_notify_def MessageEnvelope_new_def

section \<open>Restart intensity of a child\<close>

text \<open>The clock readings at which a task went back to the head of its restart loop.\<close>

fun child_restarts ::
    "('q, 'm) channel \<Rightarrow> ('a, 'm, 'st, 'r, 'i) behaviour \<Rightarrow> ('st, 'i) stream_source \<Rightarrow> 'a child_config
      \<Rightarrow> 'q input list \<Rightarrow> ('a, 'm, 'st, 'r, 'q) child_task \<Rightarrow> instant list" where
  "child_restarts M B spoll cfg [] t = []"
| "child_restarts M B spoll cfg (p # ps) t =
     (case (p, t, child_step M B spoll cfg p t) of
        (Poll sig, ChildRunning _ _ _ _ _, ChildStarting _ _ _ _) \<Rightarrow> [clock sig]
      | _ \<Rightarrow> []) @ child_restarts M B spoll cfg ps (child_step M B spoll cfg p t)"

fun poll_clocks :: "'q input list \<Rightarrow> instant list" where
  "poll_clocks [] = []"
| "poll_clocks (Poll sig # ps) = clock sig # poll_clocks ps"
| "poll_clocks (Interfere f # ps) = poll_clocks ps"

lemma child_restarts_finished: "child_finished t \<Longrightarrow> child_restarts M B spoll cfg ps t = []"
proof (induction ps arbitrary: t)
  case (Cons p ps)
  then show ?case
    using child.ended_step [of t M B spoll cfg p]
    by (auto split: input.split child_task.split)
qed simp

lemma child_after_loop_restart:
  assumes "strategy cfg = Restart m d"
  shows "child_finished (child_after_loop M B cfg now (Some tr) n panicked s) \<or>
    (\<exists>w cs tr'. record_restart now tr = (True, tr') \<and>
       child_after_loop M B cfg now (Some tr) n panicked s = ChildStarting (Some tr') n w cs)"
  using assms
  by (auto simp: child_after_loop_def child_done_def Let_def split: option.split prod.split)

lemma child_step_restart:
  assumes "strategy cfg = Restart m d"
  shows "let t = child_step M B spoll cfg (Poll sig) (ChildRunning (Some tr) n head streams s) in
    (\<exists>head' streams' s'. t = ChildRunning (Some tr) n head' streams' s') \<or> child_finished t \<or>
    (\<exists>w cs tr'. record_restart (clock sig) tr = (True, tr') \<and> t = ChildStarting (Some tr') n w cs)"
proof -
  obtain streams1 s1 where c: "collect_streams head streams s = (streams1, s1)"
    by (cases "collect_streams head streams s")
  show ?thesis
  proof (cases "actor_select M B spoll sig streams1 s1")
    case (Break panicked x)
    then show ?thesis
      using child_after_loop_restart [OF assms, of M B "clock sig" tr n panicked "snd x"]
      by (auto simp: Let_def child_step_running [OF c] simp del: child_step.simps split: prod.split)
  qed (auto simp: Let_def child_step_running [OF c] simp del: child_step.simps split: prod.split)
qed

lemma child_step_begin:
  "let t = child_step M B spoll cfg (Poll sig) (ChildStarting tr n w cs) in
    child_finished t \<or> (\<exists>head' streams' s'. t = ChildRunning tr (Suc n) head' streams' s')"
  by (auto simp: Let_def split: option.split prod.split)

definition grants :: "instant \<Rightarrow> RestartTracker \<Rightarrow> instant list \<Rightarrow> bool" where
  "grants since tr gs \<longleftrightarrow> (\<exists>nows. sorted (since # nows) \<and> gs = granted_restarts nows tr)"

lemma grants_Nil: "grants since tr []"
  unfolding grants_def by (intro exI [of _ "[]"]) simp

lemma grants_earlier: "grants since' tr gs \<Longrightarrow> since \<le> since' \<Longrightarrow> grants since tr gs"
  unfolding grants_def by force

lemma grants_Cons:
  assumes "record_restart now tr = (True, tr')" and "since \<le> now" and "grants now tr' gs"
  shows "grants since tr (now # gs)"
proof -
  obtain nows where "sorted (now # nows)" "gs = granted_restarts nows tr'"
    using assms(3) unfolding grants_def by blast
  with assms(1,2) show ?thesis
    unfolding grants_def by (intro exI [of _ "now # nows"]) auto
qed

primrec uses_tracker :: "RestartTracker \<Rightarrow> ('a, 'm, 'st, 'r, 'q) child_task \<Rightarrow> bool" where
  "uses_tracker tr (ChildStarting tracker n w cs) \<longleftrightarrow> tracker = Some tr"
| "uses_tracker tr (ChildRunning tracker n head streams s) \<longleftrightarrow> tracker = Some tr"
| "uses_tracker tr (ChildEnded n w cs) \<longleftrightarrow> False"
| "uses_tracker tr (ChildCrashed n w cs) \<longleftrightarrow> False"

lemma child_restarts_poll:
  assumes "strategy cfg = Restart m d" and "uses_tracker tr t" and "since \<le> clock sig"
    and rest: "\<And>t' tr'. uses_tracker tr' t' \<Longrightarrow> grants (clock sig) tr' (child_restarts M B spoll cfg ps t')"
  shows "grants since tr (child_restarts M B spoll cfg (Poll sig # ps) t)"
proof -
  let ?t = "child_step M B spoll cfg (Poll sig) t"
  note over = child_restarts_finished [of ?t M B spoll cfg ps]
  show ?thesis
  proof (cases t)
    case (ChildStarting tracker n w cs)
    with assms(2) child_step_begin [of M B spoll cfg sig tracker n w cs]
    have "child_finished ?t \<or> uses_tracker tr ?t" by (auto simp: Let_def simp del: child_step.simps)
    with rest [of tr ?t] over have "grants (clock sig) tr (child_restarts M B spoll cfg ps ?t)"
      by (auto simp: grants_Nil)
    with ChildStarting assms(3) show ?thesis by (simp add: grants_earlier del: child_step.simps)
  next
    case (ChildRunning tracker n head streams s)
    then have tr: "tracker = Some tr" using assms(2) by simp
    consider (go) n' head' streams' s' where "?t = ChildRunning (Some tr) n' head' streams' s'" | (finish) "child_finished ?t"
      | (again) n' w' cs' tr' where "record_restart (clock sig) tr = (True, tr')" "?t = ChildStarting (Some tr') n' w' cs'"
      using child_step_restart [OF assms(1), of M B spoll sig tr n head streams s] ChildRunning tr
      by (auto simp: Let_def simp del: child_step.simps)
    then show ?thesis
    proof cases
      case go
      with rest [of tr ?t] ChildRunning assms(3) show ?thesis by (simp add: grants_earlier del: child_step.simps)
    next
      case finish
      with over ChildRunning show ?thesis by (cases ?t) (simp_all add: grants_Nil del: child_step.simps)
    next
      case again
      with rest [of tr' ?t] grants_Cons [OF again(1) assms(3)] ChildRunning show ?thesis
        by (simp del: child_step.simps)
    qed
  qed (use assms(2) in simp_all)
qed

lemma child_restarts_granted:
  assumes "strategy cfg = Restart m d"
  shows "sorted (since # poll_clocks ps) \<Longrightarrow> uses_tracker tr t \<Longrightarrow>
    grants since tr (child_restarts M B spoll cfg ps t)"
proof (induction ps arbitrary: since t tr)
  case Nil
  show ?case by (simp add: grants_Nil)
next
  case (Cons p ps)
  show ?case
  proof (cases p)
    case (Interfere f)
    with Cons.prems Cons.IH [of since tr "child_step M B spoll cfg p t"] show ?thesis by (cases t) auto
  next
    case (Poll sig)
    have "grants since tr (child_restarts M B spoll cfg (Poll sig # ps) t)"
      by (rule child_restarts_poll [OF assms Cons.prems(2)])
        (use Cons.prems(1) Cons.IH [of "clock sig"] Poll in auto)
    with Poll show ?thesis by simp
  qed
qed

lemma child_after_loop_calls [simp]:
  "factory_calls (child_after_loop M B cfg now tracker n panicked s) = n"
  by (auto simp: child_after_loop_def child_done_def Let_def
      split: option.split prod.split SupervisorStrategy.split)

lemma child_step_calls:
  "factory_calls (child_step M B spoll cfg (Poll sig) (ChildRunning tracker n head streams s)) = n"
proof -
  obtain streams1 s1 where c: "collect_streams head streams s = (streams1, s1)"
    by (cases "collect_streams head streams s")
  show ?thesis
    by (simp add: child_step_running [OF c] del: child_step.simps split: selected.split prod.split)
qed

definition starting :: "('a, 'm, 'st, 'r, 'q) child_task \<Rightarrow> nat" where
  "starting t = (case t of ChildStarting _ _ _ _ \<Rightarrow> 1 | _ \<Rightarrow> 0)"

lemma child_factory_calls:
  "factory_calls (fold (child_step M B spoll cfg) ps t)
     \<le> factory_calls t + starting t + length (child_restarts M B spoll cfg ps t)"
proof (induction ps arbitrary: t)
  case (Cons p ps)
  let ?t = "child_step M B spoll cfg p t"
  have "factory_calls ?t + starting ?t + length (child_restarts M B spoll cfg ps ?t)
    \<le> factory_calls t + starting t + length (child_restarts M B spoll cfg (p # ps) t)"
  proof (cases p)
    case (Poll sig)
    show ?thesis
    proof (cases t)
      case (ChildStarting tracker n w cs)
      with child_step_begin [of M B spoll cfg sig tracker n w cs] Poll show ?thesis
        by (auto simp: Let_def starting_def child_unwound_def split: option.split prod.split)
    next
      case (ChildRunning tracker n head streams s)
      with child_step_calls [of M B spoll cfg sig tracker n head streams s] Poll show ?thesis
        by (simp add: starting_def del: child_step.simps split: child_task.split)
    qed (simp_all add: Poll starting_def)
  qed (cases t, simp_all add: starting_def)
  with Cons.IH [of ?t] show ?case by simp
qed (simp add: starting_def)

text \<open>
  C2. Restart intensity, end to end. A child under \<open>Restart max_restarts within\<close>, run on
  any inputs whose clock readings do not decrease, is restarted at most \<open>max_restarts\<close>
  times in any window of length \<open>within\<close>, and its factory is called at most once more than
  it is restarted.
\<close>

theorem child_restart_intensity:
  assumes "strategy cfg = Restart m d" and "sorted (poll_clocks ps)"
  shows "length (filter (\<lambda>g. x \<le> g \<and> g \<le> x + d) (child_restarts M B spoll cfg ps (child_begin cfg w))) \<le> unat m
    \<and> factory_calls (fold (child_step M B spoll cfg) ps (child_begin cfg w))
        \<le> 1 + length (child_restarts M B spoll cfg ps (child_begin cfg w))"
proof -
  have "grants 0 (RestartTracker_new m d) (child_restarts M B spoll cfg ps (child_begin cfg w))"
    by (rule child_restarts_granted [OF assms(1)]) (simp_all add: assms child_begin_def)
  then obtain nows where "sorted (0 # nows)"
    "child_restarts M B spoll cfg ps (child_begin cfg w) = granted_restarts nows (RestartTracker_new m d)"
    unfolding grants_def by blast
  with granted_restarts_refines [OF _ tracks_new, of nows m d] granted_spec_window [of "[]" nows d m x]
    child_factory_calls [of M B spoll cfg ps "child_begin cfg w"]
  show ?thesis by (simp add: child_begin_def starting_def)
qed

theorem child_restart_intensity_witness:
  "let restarts = child_restarts list_mpsc echo_behaviour (\<lambda>st. (StreamPending, st)) (sample_child (Restart 1 10))
       [Poll quiet, Poll (quiet\<lparr>clock := 3\<rparr>), Poll (quiet\<lparr>clock := 4\<rparr>), Poll (quiet\<lparr>clock := 5\<rparr>)]
       (child_begin (sample_child (Restart 1 10)) failing_world)
   in restarts = [3] \<and> length (filter (\<lambda>g. 0 \<le> g \<and> g \<le> 0 + 10) restarts) \<le> unat (1 :: u32)"
proof -
  let ?ps = "[Poll quiet, Poll (quiet\<lparr>clock := 3\<rparr>), Poll (quiet\<lparr>clock := 4\<rparr>), Poll (quiet\<lparr>clock := 5\<rparr>)]
    :: nat ActorMessage list_channel input list"
  let ?c = "sample_child (Restart 1 10)"
  let ?sp = "\<lambda>st :: unit. (StreamPending :: unit stream_poll, st)"
  have "child_restarts list_mpsc echo_behaviour ?sp ?c ?ps (child_begin ?c failing_world) = [3]"
    by (simp add: child_run_defs quiet_def record_restart_def RestartTracker_new_def duration_since_def)
  moreover have "strategy ?c = Restart 1 10" by (simp add: sample_child_def)
  moreover have "sorted (poll_clocks ?ps)" by (simp add: quiet_def)
  ultimately show ?thesis
    using child_restart_intensity [of ?c 1 10 ?ps 0 list_mpsc echo_behaviour ?sp failing_world]
    by simp
qed

section \<open>Escalation\<close>

text \<open>
  C29. Escalation travels upwards. A child under \<open>Escalate\<close> that sees its own escalate
  signal (because one of its children escalated) with an empty mailbox, no streams and no stop
  signal, and whose \<open>stopped\<close> returns, ends in that poll: it stops its children, notifies
  its parent's escalate signal and then its watchers.
\<close>

theorem escalation_propagates:
  assumes "strategy cfg = Escalate"
    and "mpsc_recv M (mailbox (shared s) (addr_id (ctx_addr (ctx s)))) = (None, q)"
    and "ctx_streams (ctx s) = []"
    and "escalate_notified sig" "\<not> shutdown_notified sig" "\<not> stop_notified sig"
    and "call_stopped M B (Context_stop_children
           (s\<lparr>shared := set_mailbox (addr_id (ctx_addr (ctx s))) q (shared s)\<rparr>)) = (Some u, s')"
  shows "\<exists>w us. list_all api_call us \<and>
    child_step M B spoll cfg (Poll sig) (ChildRunning tracker n head [] s) =
      ChildEnded n w (log s @ map (NotifyOne \<circ> addr_stop_signal) (ctx_children (ctx s)) @ [StoppedCalled] @ us
        @ [NotifyEscalate (parent_escalate_signal cfg), WatchersNotified])"
proof -
  let ?s = "s\<lparr>shared := set_mailbox (addr_id (ctx_addr (ctx s))) q (shared s)\<rparr>"
  obtain us where us: "log s' = log (emit StoppedCalled (Context_stop_children ?s)) @ us" "list_all api_call us"
    using exec_log [OF assms(7) [unfolded call_stopped_def]] by blast
  have c: "collect_streams head [] s = ([], s\<lparr>ctx := (ctx s)\<lparr>ctx_streams := []\<rparr>\<rparr>) \<or> collect_streams head [] s = ([], s)"
    using assms(3) by (auto simp: collect_streams_def Context_take_streams_def)
  have s: "s\<lparr>ctx := (ctx s)\<lparr>ctx_streams := []\<rparr>\<rparr> = s" using assms(3) by simp
  have "child_step M B spoll cfg (Poll sig) (ChildRunning tracker n head [] s) =
    child_done M n (emit (NotifyEscalate (parent_escalate_signal cfg)) s')"
    using c assms by (auto simp: s child_select_def child_after_loop_def)
  moreover have "log s' = log s @ map (NotifyOne \<circ> addr_stop_signal) (ctx_children (ctx s)) @ [StoppedCalled] @ us"
    using us(1) by (simp add: actor_frames)
  ultimately show ?thesis
    using us(2) by (auto simp: child_done_def Let_def actor_frames)
qed

theorem escalation_propagates_witness:
  "\<exists>w us. list_all api_call us \<and>
    child_step list_mpsc echo_behaviour (\<lambda>st. (StreamPending, st)) (sample_child Escalate)
      (Poll (quiet\<lparr>escalate_notified := True\<rparr>)) (ChildRunning None 1 True [] sample_cell) =
    ChildEnded 1 w ([StoppedCalled] @ us @ [NotifyEscalate 9, WatchersNotified])"
proof -
  let ?q = "(2 :: nat, True, [] :: nat ActorMessage list)"
  let ?i = "addr_id (ctx_addr (ctx sample_cell))"
  let ?s = "sample_cell\<lparr>shared := set_mailbox ?i ?q (shared sample_cell)\<rparr>"
  let ?sp = "\<lambda>st :: unit. (StreamPending :: unit stream_poll, st)"
  have "call_stopped list_mpsc echo_behaviour (Context_stop_children ?s) =
      (Some (), snd (call_stopped list_mpsc echo_behaviour (Context_stop_children ?s)))"
    by (simp add: call_stopped_def echo_behaviour_def)
  from escalation_propagates [OF _ _ _ _ _ _ this, of "sample_child Escalate" "quiet\<lparr>escalate_notified := True\<rparr>" ?sp None 1 True]
  show ?thesis
    by (simp add: sample_child_def quiet_def list_mpsc_def sample_cell_def sample_world_def
        Context_with_signals_def del: child_step.simps)
qed

end
