(* ===== verification/Task_Equivalence.thy ===== *)
theory Task_Equivalence
  imports Child_Supervision
begin

text \<open>
  The select loop exists twice in the source, once for top-level actors (\<open>src/system.rs\<close>)
  and once for supervised children (\<open>src/context.rs\<close>). Here the two tasks are run side by
  side on the same inputs: they stay in the same state until they leave the loop, and they leave
  it in the same poll. Only what happens after the loop differs.
\<close>

section \<open>A task that is over stays as it is\<close>

lemma actor_finish_over: "\<exists>s'. actor_finish M B s = ActorEnded s' \<or> actor_finish M B s = ActorCrashed s'"
  by (auto simp: actor_finish_def split: prod.split option.split)

lemma fold_actor_ended: "fold (actor_step M B spoll) ps (ActorEnded s) = ActorEnded s"
  by (induction ps) simp_all

lemma fold_actor_crashed: "fold (actor_step M B spoll) ps (ActorCrashed s) = ActorCrashed s"
  by (induction ps) simp_all

lemma fold_child_crashed: "fold (child_step M B spoll cfg) ps (ChildCrashed n w cs) = ChildCrashed n w cs"
  by (induction ps) simp_all

lemma fold_actor_finish: "fold (actor_step M B spoll) ps (actor_finish M B s) = actor_finish M B s"
  using actor_finish_over [of M B s] by (auto simp: fold_actor_ended fold_actor_crashed)

section \<open>The loops in lockstep\<close>

text \<open>
  The three ways in which the two tasks can be related after the inputs \<open>ps\<close>: both in the
  loop with the same streams and cell, both out of it since the same poll, or both crashed.
\<close>

definition both_running ::
    "RestartTracker option \<Rightarrow> nat \<Rightarrow> ('a, 'm, 'st, 'r, 'q) actor_task \<Rightarrow> ('a, 'm, 'st, 'r, 'q) child_task \<Rightarrow> bool" where
  "both_running tracker n t c \<longleftrightarrow>
     (\<exists>head streams s. t = ActorRunning head streams s \<and> c = ChildRunning tracker n head streams s)"

text \<open>
  Why a pass through the loop ended it, read off its inputs: the handler of the message taken
  from the mailbox panicked, or no message was there and the escalate signal came before any
  shutdown and stop signal.
\<close>

definition failed_pass ::
    "('q, 'm) channel \<Rightarrow> ('a, 'm, 'st, 'r, 'i) behaviour \<Rightarrow> signals \<Rightarrow> ('a, 'm, 'st, 'r, 'q) cell \<Rightarrow> bool" where
  "failed_pass M B sig s =
     (let self = addr_id (ctx_addr (ctx s)) in
      case mpsc_recv M (mailbox (shared s) self) of
        (Some (Some x), q) \<Rightarrow> fst (ActorMessage_handle M B x (s\<lparr>shared := set_mailbox self q (shared s)\<rparr>)) = None
      | (Some None, q) \<Rightarrow> False
      | (None, q) \<Rightarrow> escalate_notified sig \<and> \<not> shutdown_notified sig \<and> \<not> stop_notified sig)"

text \<open>
  Both tasks were in the loop in the same state, and the poll \<open>sig\<close> ended both loops with
  the same cell: the actor's pass through \<open>select!\<close> broke out of its loop with that cell
  and the flag \<open>failed_pass\<close> describes, and the child acts on exactly this flag.
\<close>

definition both_left ::
    "('q, 'm) channel \<Rightarrow> ('a, 'm, 'st, 'r, 'i) behaviour \<Rightarrow> ('st, 'i) stream_source \<Rightarrow> 'a child_config
      \<Rightarrow> RestartTracker option \<Rightarrow> nat \<Rightarrow> 'q input list
      \<Rightarrow> ('a, 'm, 'st, 'r, 'q) actor_task \<Rightarrow> ('a, 'm, 'st, 'r, 'q) child_task \<Rightarrow> bool" where
  "both_left M B spoll cfg tracker n ps t c \<longleftrightarrow>
     (\<exists>ps1 sig ps2 head streams s streams1 s1 streams2 s2. ps = ps1 @ Poll sig # ps2 \<and>
        fold (actor_step M B spoll) ps1 t = ActorRunning head streams s \<and>
        fold (child_step M B spoll cfg) ps1 c = ChildRunning tracker n head streams s \<and>
        collect_streams head streams s = (streams1, s1) \<and>
        actor_select M B spoll sig streams1 s1 = Break (failed_pass M B sig s1) (streams2, s2) \<and>
        fold (actor_step M B spoll) (ps1 @ [Poll sig]) t = actor_finish M B s2 \<and>
        fold (child_step M B spoll cfg) (ps1 @ [Poll sig]) c
          = child_after_loop M B cfg (clock sig) tracker n (failed_pass M B sig s1) s2)"

definition both_crashed :: "nat \<Rightarrow> ('a, 'm, 'st, 'r, 'q) actor_task \<Rightarrow> ('a, 'm, 'st, 'r, 'q) child_task \<Rightarrow> bool" where
  "both_crashed n t c \<longleftrightarrow> (\<exists>s. t = ActorCrashed s \<and> c = ChildCrashed n (shared s) (log s))"

lemma both_left_Cons:
  assumes "both_left M B spoll cfg tracker n ps (actor_step M B spoll p t) (child_step M B spoll cfg p c)"
  shows "both_left M B spoll cfg tracker n (p # ps) t c"
proof -
  from assms obtain ps1 sig ps2 head streams s streams1 s1 streams2 s2 where *: "ps = ps1 @ Poll sig # ps2"
    "fold (actor_step M B spoll) (p # ps1) t = ActorRunning head streams s"
    "fold (child_step M B spoll cfg) (p # ps1) c = ChildRunning tracker n head streams s"
    "collect_streams head streams s = (streams1, s1)"
    "actor_select M B spoll sig streams1 s1 = Break (failed_pass M B sig s1) (streams2, s2)"
    "fold (actor_step M B spoll) ((p # ps1) @ [Poll sig]) t = actor_finish M B s2"
    "fold (child_step M B spoll cfg) ((p # ps1) @ [Poll sig]) c
       = child_after_loop M B cfg (clock sig) tracker n (failed_pass M B sig s1) s2"
    unfolding both_left_def by auto
  then have "p # ps = (p # ps1) @ Poll sig # ps2" by simp
  with *(2-) show ?thesis unfolding both_left_def by blast
qed

text \<open>The flag with which \<open>select!\<close> leaves the loop.\<close>

lemma actor_select_flag:
  assumes "actor_select M B spoll sig streams s = Break panicked x"
  shows "panicked = failed_pass M B sig s"
  using assms
  by (auto simp: actor_select_def failed_pass_def Let_def split: prod.splits option.splits if_splits)

text \<open>One poll of both loops from the same state.\<close>

definition leave_together ::
    "('q, 'm) channel \<Rightarrow> ('a, 'm, 'st, 'r, 'i) behaviour \<Rightarrow> ('st, 'i) stream_source \<Rightarrow> 'a child_config
      \<Rightarrow> RestartTracker option \<Rightarrow> nat \<Rightarrow> signals \<Rightarrow> bool \<Rightarrow> 'st list \<Rightarrow> ('a, 'm, 'st, 'r, 'q) cell \<Rightarrow> bool" where
  "leave_together M B spoll cfg tracker n sig head streams s \<longleftrightarrow>
     (\<exists>streams1 s1 streams2 s2. collect_streams head streams s = (streams1, s1) \<and>
        actor_select M B spoll sig streams1 s1 = Break (failed_pass M B sig s1) (streams2, s2) \<and>
        actor_step M B spoll (Poll sig) (ActorRunning head streams s) = actor_finish M B s2 \<and>
        child_step M B spoll cfg (Poll sig) (ChildRunning tracker n head streams s)
          = child_after_loop M B cfg (clock sig) tracker n (failed_pass M B sig s1) s2)"

lemma lockstep_poll:
  "both_running tracker n (actor_step M B spoll (Poll sig) (ActorRunning head streams s))
       (child_step M B spoll cfg (Poll sig) (ChildRunning tracker n head streams s))
   \<or> leave_together M B spoll cfg tracker n sig head streams s
   \<or> both_crashed n (actor_step M B spoll (Poll sig) (ActorRunning head streams s))
       (child_step M B spoll cfg (Poll sig) (ChildRunning tracker n head streams s))"
proof -
  obtain streams1 s1 where c: "collect_streams head streams s = (streams1, s1)" by (rule prod.exhaust)
  show ?thesis
  proof (cases "actor_select M B spoll sig streams1 s1")
    case (Break panicked x)
    then have "leave_together M B spoll cfg tracker n sig head streams s"
      using actor_select_flag [OF Break]
      by (cases x) (simp add: leave_together_def c child_select_eq)
    then show ?thesis by blast
  qed (auto simp: c child_select_eq both_running_def both_crashed_def child_unwound_def split: prod.split)
qed

text \<open>The relation of the two tasks after any inputs.\<close>

definition in_lockstep ::
    "('q, 'm) channel \<Rightarrow> ('a, 'm, 'st, 'r, 'i) behaviour \<Rightarrow> ('st, 'i) stream_source \<Rightarrow> 'a child_config
      \<Rightarrow> RestartTracker option \<Rightarrow> nat \<Rightarrow> 'q input list
      \<Rightarrow> ('a, 'm, 'st, 'r, 'q) actor_task \<Rightarrow> ('a, 'm, 'st, 'r, 'q) child_task \<Rightarrow> bool" where
  "in_lockstep M B spoll cfg tracker n ps t c \<longleftrightarrow>
     both_running tracker n (fold (actor_step M B spoll) ps t) (fold (child_step M B spoll cfg) ps c)
     \<or> both_left M B spoll cfg tracker n ps t c
     \<or> both_crashed n (fold (actor_step M B spoll) ps t) (fold (child_step M B spoll cfg) ps c)"

lemma in_lockstep_Cons:
  assumes "in_lockstep M B spoll cfg tracker n ps (actor_step M B spoll p t) (child_step M B spoll cfg p c)"
  shows "in_lockstep M B spoll cfg tracker n (p # ps) t c"
  using assms both_left_Cons [of M B spoll cfg tracker n ps p t c] by (auto simp: in_lockstep_def)

lemma in_lockstep_leave:
  assumes "leave_together M B spoll cfg tracker n sig head streams s"
  shows "in_lockstep M B spoll cfg tracker n (Poll sig # ps) (ActorRunning head streams s)
    (ChildRunning tracker n head streams s)"
proof -
  obtain streams1 s1 streams2 s2 where "collect_streams head streams s = (streams1, s1)"
    "actor_select M B spoll sig streams1 s1 = Break (failed_pass M B sig s1) (streams2, s2)"
    "actor_step M B spoll (Poll sig) (ActorRunning head streams s) = actor_finish M B s2"
    "child_step M B spoll cfg (Poll sig) (ChildRunning tracker n head streams s)
       = child_after_loop M B cfg (clock sig) tracker n (failed_pass M B sig s1) s2"
    using assms unfolding leave_together_def by blast
  then have "both_left M B spoll cfg tracker n (Poll sig # ps) (ActorRunning head streams s)
      (ChildRunning tracker n head streams s)"
    unfolding both_left_def
    by (intro exI [of _ "[]"] exI [of _ sig] exI [of _ ps] exI [of _ head] exI [of _ streams] exI [of _ s]
        exI [of _ streams1] exI [of _ s1] exI [of _ streams2] exI [of _ s2])
      (simp del: actor_step.simps child_step.simps)
  then show ?thesis by (simp add: in_lockstep_def)
qed

lemma in_lockstep_crashed: "both_crashed n t c \<Longrightarrow> in_lockstep M B spoll cfg tracker n ps t c"
  by (auto simp: in_lockstep_def both_crashed_def fold_actor_crashed fold_child_crashed)

text \<open>
  C11. The two copies of the select loop are equivalent. A top-level actor and a child in the
  same state, given the same inputs, stay in the same state as long as they are in their loops;
  they leave the loop in the same poll with the same cell and for the same reason: the child is
  told of a panic exactly when the actor's loop ended with one, that is when the handler of the
  message just taken panicked or an escalation came in with no message and no other signal. The
  actor then runs its shutdown, the child applies its strategy to that flag. An uncaught panic
  crashes both in the same cell. This holds for every strategy.
\<close>

theorem child_loop_is_actor_loop:
  "in_lockstep M B spoll cfg tracker n ps (ActorRunning head streams s) (ChildRunning tracker n head streams s)"
proof (induction ps arbitrary: head streams s)
  case Nil
  then show ?case by (simp add: in_lockstep_def both_running_def)
next
  case (Cons p ps)
  show ?case
  proof (cases p)
    case (Interfere f)
    with Cons.IH show ?thesis by (intro in_lockstep_Cons) simp
  next
    case (Poll sig)
    from lockstep_poll [of tracker n M B spoll sig head streams s cfg] show ?thesis
    proof (elim disjE exE conjE)
      assume "both_running tracker n (actor_step M B spoll (Poll sig) (ActorRunning head streams s))
        (child_step M B spoll cfg (Poll sig) (ChildRunning tracker n head streams s))"
      then show ?thesis
        using Cons.IH by (intro in_lockstep_Cons) (auto simp: Poll both_running_def simp del: actor_step.simps child_step.simps)
    qed (auto simp: Poll intro: in_lockstep_leave in_lockstep_Cons in_lockstep_crashed
        simp del: actor_step.simps child_step.simps)
  qed
qed

end
