(* ===== verification/Local_Registry.thy ===== *)
theory Local_Registry
  imports Actor_System
begin

text \<open>
  The name registry of \<open>src/registry.rs\<close> and the methods of \<open>ActorSystem\<close> in
  \<open>src/system.rs\<close>. A registered address is boxed as \<open>dyn Any\<close>; a box is the type tag of
  the actor together with the address, and a downcast compares the tags. The tasks that
  \<open>register\<close> spawns to clean up after dead actors are part of the registry's state.
\<close>

section \<open>The registry\<close>

datatype watch_task =
    Watching string Addr
  | Unregistered

record 'ty Registry =
  actors :: "(string, 'ty \<times> Addr) hashmap"
  watch_tasks :: "watch_task list"

definition Registry_new :: "'ty Registry" where
  "Registry_new = \<lparr>actors = [], watch_tasks = []\<rparr>"

definition Registry_register_manual :: "string \<Rightarrow> 'ty \<times> Addr \<Rightarrow> 'ty Registry \<Rightarrow> 'ty Registry" where
  "Registry_register_manual name boxed r = r\<lparr>actors := hm_insert name boxed (actors r)\<rparr>"

definition Registry_register :: "string \<Rightarrow> 'ty \<times> Addr \<Rightarrow> 'ty Registry \<Rightarrow> 'ty Registry" where
  "Registry_register name boxed r =
     r\<lparr>actors := hm_insert name boxed (actors r), watch_tasks := watch_tasks r @ [Watching name (snd boxed)]\<rparr>"

definition Registry_lookup :: "'ty Registry \<Rightarrow> 'ty \<Rightarrow> string \<Rightarrow> Addr option" where
  "Registry_lookup r ty name =
     (case hm_get (actors r) name of
        None \<Rightarrow> None
      | Some (ty', addr) \<Rightarrow> if ty' = ty then Some addr else None)"

definition Registry_unregister :: "string \<Rightarrow> 'ty Registry \<Rightarrow> 'ty Registry" where
  "Registry_unregister name r = r\<lparr>actors := hm_remove name (actors r)\<rparr>"

text \<open>
  One pass of the watcher task number i: it sleeps on while the actor lives, otherwise it
  unregisters the name and ends.
\<close>

definition watch_task_poll :: "('q, 'm) channel \<Rightarrow> 'q world \<Rightarrow> nat \<Rightarrow> 'ty Registry \<Rightarrow> 'ty Registry" where
  "watch_task_poll M w i r =
     (if i < length (watch_tasks r) then
        (case watch_tasks r ! i of
           Watching name addr \<Rightarrow>
             if Addr_is_alive M addr w then r
             else (Registry_unregister name r)\<lparr>watch_tasks := (watch_tasks r)[i := Unregistered]\<rparr>
         | Unregistered \<Rightarrow> r)
      else r)"

lemmas registry_defs = Registry_register_manual_def Registry_register_def Registry_unregister_def

section \<open>The actor system\<close>

record 'ty ActorSystem =
  shutdown :: nat
  registry :: "'ty Registry"

definition ActorSystem_new :: "'q world \<Rightarrow> 'ty ActorSystem \<times> 'q world" where
  "ActorSystem_new w =
     (case fresh_notify w of (n, w') \<Rightarrow> (\<lparr>shutdown = n, registry = Registry_new\<rparr>, w'))"

definition ActorSystem_spawn_with_capacity ::
    "('q, 'm) channel \<Rightarrow> 'ty ActorSystem \<Rightarrow> 'a \<Rightarrow> nat \<Rightarrow> 'q world
      \<Rightarrow> (Addr \<times> ('a, 'm, 'st, 'r, 'q) actor_task) option" where
  "ActorSystem_spawn_with_capacity M sys a capacity w = spawn_with_shutdown M a (shutdown sys) capacity w"

definition ActorSystem_spawn ::
    "('q, 'm) channel \<Rightarrow> 'ty ActorSystem \<Rightarrow> 'a \<Rightarrow> 'q world
      \<Rightarrow> (Addr \<times> ('a, 'm, 'st, 'r, 'q) actor_task) option" where
  "ActorSystem_spawn M sys a w = ActorSystem_spawn_with_capacity M sys a 256 w"

text \<open>
  \<open>shutdown\<close> calls \<open>notify_waiters\<close>, which reaches the tasks that are waiting in their
  select at that moment and stores nothing for the others: for each task, whether its next poll
  finds the signal.
\<close>

primrec waits_in_select :: "('a, 'm, 'st, 'r, 'q) actor_task \<Rightarrow> bool" where
  "waits_in_select (ActorSpawned s) = False"
| "waits_in_select (ActorRunning head streams s) = (\<not> head)"
| "waits_in_select (ActorEnded s) = False"
| "waits_in_select (ActorCrashed s) = False"

definition ActorSystem_shutdown :: "('a, 'm, 'st, 'r, 'q) actor_task list \<Rightarrow> bool list" where
  "ActorSystem_shutdown tasks = map waits_in_select tasks"

definition ActorSystem_register :: "string \<Rightarrow> 'ty \<times> Addr \<Rightarrow> 'ty ActorSystem \<Rightarrow> 'ty ActorSystem" where
  "ActorSystem_register name boxed sys = sys\<lparr>registry := Registry_register name boxed (registry sys)\<rparr>"

definition ActorSystem_register_manual :: "string \<Rightarrow> 'ty \<times> Addr \<Rightarrow> 'ty ActorSystem \<Rightarrow> 'ty ActorSystem" where
  "ActorSystem_register_manual name boxed sys = sys\<lparr>registry := Registry_register_manual name boxed (registry sys)\<rparr>"

definition ActorSystem_lookup :: "'ty ActorSystem \<Rightarrow> 'ty \<Rightarrow> string \<Rightarrow> Addr option" where
  "ActorSystem_lookup sys ty name = Registry_lookup (registry sys) ty name"

definition ActorSystem_unregister :: "string \<Rightarrow> 'ty ActorSystem \<Rightarrow> 'ty ActorSystem" where
  "ActorSystem_unregister name sys = sys\<lparr>registry := Registry_unregister name (registry sys)\<rparr>"

lemmas actor_system_defs = ActorSystem_register_def ActorSystem_register_manual_def
  ActorSystem_unregister_def ActorSystem_lookup_def

section \<open>The registry is a name table\<close>

definition registry_invar :: "'ty ActorSystem \<Rightarrow> bool" where
  "registry_invar sys \<longleftrightarrow> hm_wf (actors (registry sys))"

definition registered :: "'ty ActorSystem \<Rightarrow> string \<rightharpoonup> 'ty \<times> Addr" where
  "registered sys = hm_get (actors (registry sys))"

interpretation auto_names: name_table "\<lparr>shutdown = n, registry = Registry_new\<rparr>" ActorSystem_register registered
    registry_invar ActorSystem_unregister for n
  by unfold_locales
    (simp_all add: registry_invar_def registered_def Registry_new_def actor_system_defs registry_defs)

interpretation manual_names: name_table "\<lparr>shutdown = n, registry = Registry_new\<rparr>" ActorSystem_register_manual
    registered registry_invar ActorSystem_unregister for n
  by unfold_locales
    (simp_all add: registry_invar_def registered_def Registry_new_def actor_system_defs registry_defs)

lemma ActorSystem_lookup_registered:
  "ActorSystem_lookup sys ty name = Some addr \<longleftrightarrow> registered sys name = Some (ty, addr)"
  by (auto simp: ActorSystem_lookup_def Registry_lookup_def registered_def split: option.split if_splits)

text \<open>
  Typed lookup returns the last registration. After any sequence of registrations, a
  lookup for actor type \<open>ty\<close> under a name finds address \<open>a\<close> exactly when the last
  registration of that name was \<open>a\<close> with the same type; a different type or an unknown name
  gives None. Unregistering a name hides it and nothing else.
\<close>

lemma registry_lookup_last:
  "(ActorSystem_lookup (fold (\<lambda>(k, v). ActorSystem_register k v) regs \<lparr>shutdown = n, registry = Registry_new\<rparr>) ty name
     = Some a \<longleftrightarrow> map_of (rev regs) name = Some (ty, a))
   \<and> (ActorSystem_lookup (ActorSystem_unregister gone
         (fold (\<lambda>(k, v). ActorSystem_register k v) regs \<lparr>shutdown = n, registry = Registry_new\<rparr>)) ty name = Some a
     \<longleftrightarrow> name \<noteq> gone \<and> map_of (rev regs) name = Some (ty, a))"
  by (simp_all add: ActorSystem_lookup_registered auto_names.get_puts_start auto_names.get_del
      auto_names.invar_puts auto_names.invar_start)

section \<open>Cleaning up after dead actors\<close>

text \<open>What may happen to the registry; a watcher's pass sees the world as it is then.\<close>

datatype ('ty, 'q) reg_event =
    RegRegister string "'ty \<times> Addr"
  | RegUnregister string
  | RegWatch "'q world" nat

primrec reg_step :: "('q, 'm) channel \<Rightarrow> ('ty, 'q) reg_event \<Rightarrow> 'ty Registry \<Rightarrow> 'ty Registry" where
  "reg_step M (RegRegister name boxed) r = Registry_register name boxed r"
| "reg_step M (RegUnregister name) r = Registry_unregister name r"
| "reg_step M (RegWatch w i) r = watch_task_poll M w i r"

text \<open>Every automatically registered entry has a watcher that still watches this very actor.\<close>

definition all_watched :: "'ty Registry \<Rightarrow> bool" where
  "all_watched r \<longleftrightarrow> hm_wf (actors r) \<and>
     (\<forall>name ty addr. hm_get (actors r) name = Some (ty, addr) \<longrightarrow> Watching name addr \<in> set (watch_tasks r))"

lemma watch_task_poll_cases:
  obtains (idle) "watch_task_poll M w i r = r"
    | (clean) name addr where "i < length (watch_tasks r)" "watch_tasks r ! i = Watching name addr"
        "\<not> Addr_is_alive M addr w"
        "watch_task_poll M w i r = (Registry_unregister name r)\<lparr>watch_tasks := (watch_tasks r)[i := Unregistered]\<rparr>"
proof (cases "\<exists>name addr. i < length (watch_tasks r) \<and> watch_tasks r ! i = Watching name addr \<and> \<not> Addr_is_alive M addr w")
  case True
  with clean show ?thesis by (auto simp: watch_task_poll_def)
next
  case False
  then have "watch_task_poll M w i r = r"
    by (auto simp: watch_task_poll_def split: watch_task.split)
  with idle show ?thesis by blast
qed

lemma watch_task_poll_watched:
  assumes "all_watched r"
  shows "all_watched (watch_task_poll M w i r)"
proof (cases M w i r rule: watch_task_poll_cases)
  case (clean name addr)
  have "Watching name' addr' \<in> set ((watch_tasks r)[i := Unregistered])"
    if w: "Watching name' addr' \<in> set (watch_tasks r)" "name' \<noteq> name" for name' addr'
  proof -
    obtain j where "j < length (watch_tasks r)" "watch_tasks r ! j = Watching name' addr'"
      using w(1) by (auto simp: in_set_conv_nth)
    with clean(1,2) w(2) show ?thesis
      by (auto simp: in_set_conv_nth nth_list_update intro!: exI [of _ j])
  qed
  with assms clean(4) show ?thesis
    by (auto simp: all_watched_def Registry_unregister_def)
qed (use assms in simp)

interpretation registry_cleaning: task "reg_step M" all_watched for M
proof unfold_locales
  fix r :: "'ty Registry" and e :: "('ty, 'a) reg_event"
  assume r: "all_watched r"
  show "all_watched (reg_step M e r)"
  proof (cases e)
    case (RegWatch w i)
    with watch_task_poll_watched [OF r] show ?thesis by simp
  qed (use r in \<open>auto simp: all_watched_def registry_defs\<close>)
qed

lemma watch_task_poll_removes:
  "hm_get (actors (watch_task_poll M w i r)) name = Some v \<Longrightarrow> hm_get (actors r) name = Some v"
  by (cases M w i r rule: watch_task_poll_cases) (auto simp: Registry_unregister_def split: if_splits)

lemma watch_task_polls_removes:
  "hm_get (actors (fold (watch_task_poll M w) is r)) name = Some v \<Longrightarrow> hm_get (actors r) name = Some v"
  by (induction "is" arbitrary: r) (auto dest: watch_task_poll_removes)

lemma watch_task_poll_length [simp]: "length (watch_tasks (watch_task_poll M w i r)) = length (watch_tasks r)"
  by (cases M w i r rule: watch_task_poll_cases) (simp_all add: Registry_unregister_def)

lemma watch_task_poll_keeps:
  assumes "i \<noteq> j"
  shows "watch_tasks (watch_task_poll M w i r) ! j = watch_tasks r ! j"
  using assms by (cases M w i r rule: watch_task_poll_cases) (simp_all add: Registry_unregister_def)

text \<open>Once every watcher from the list had a pass, the names it watched over dead actors are gone.\<close>

lemma watch_tasks_clean:
  assumes "j \<in> set is" "j < length (watch_tasks r)" "watch_tasks r ! j = Watching name addr"
    "\<not> Addr_is_alive M addr w"
  shows "hm_get (actors (fold (watch_task_poll M w) is r)) name = None"
  using assms
proof (induction "is" arbitrary: r)
  case (Cons i "is")
  show ?case
  proof (cases "i = j")
    case True
    with Cons.prems have "hm_get (actors (watch_task_poll M w i r)) name = None"
      by (simp add: watch_task_poll_def Registry_unregister_def)
    then show ?thesis
      using watch_task_polls_removes [of M w "is" "watch_task_poll M w i r" name]
      by (cases "hm_get (actors (fold (watch_task_poll M w) is (watch_task_poll M w i r))) name") auto
  next
    case False
    with Cons show ?thesis by (simp add: watch_task_poll_keeps)
  qed
qed simp

text \<open>
  C30. Dead actors leave the registry. After any sequence of automatic registrations,
  unregistrations and watcher passes, once every watcher task has had one more pass no name
  maps to a dead actor.
\<close>

theorem registry_forgets_dead:
  assumes "r = fold (reg_step M) es Registry_new"
    and "hm_get (actors (fold (watch_task_poll M w) [0..<length (watch_tasks r)] r)) name = Some (ty, addr)"
  shows "Addr_is_alive M addr w"
proof (rule ccontr)
  assume dead: "\<not> Addr_is_alive M addr w"
  have "all_watched (Registry_new :: 'a Registry)" by (simp add: all_watched_def Registry_new_def)
  then have "all_watched r" unfolding assms(1) by (rule registry_cleaning.inv_run)
  moreover have "hm_get (actors r) name = Some (ty, addr)"
    using watch_task_polls_removes [OF assms(2)] .
  ultimately have "Watching name addr \<in> set (watch_tasks r)" by (simp add: all_watched_def)
  then obtain j where "j < length (watch_tasks r)" "watch_tasks r ! j = Watching name addr"
    by (auto simp: in_set_conv_nth)
  with watch_tasks_clean [of j "[0..<length (watch_tasks r)]" r name addr M w] dead assms(2)
  show False by simp
qed

text \<open>
  C38. A stale watcher unregisters the name's new owner. If a name is registered for an actor,
  that actor dies, and the name is registered again for a live actor before the first watcher's
  next pass, that pass removes the new registration.
\<close>

theorem stale_watcher_unregisters:
  assumes "watch_tasks r = []" and "\<not> Addr_is_alive M old w" and "Addr_is_alive M new w"
  shows "Registry_lookup (Registry_register name (ty, new) (Registry_register name (ty, old) r)) ty name = Some new
    \<and> Registry_lookup (watch_task_poll M w 0
          (Registry_register name (ty, new) (Registry_register name (ty, old) r))) ty name = None"
  using assms by (simp add: Registry_lookup_def watch_task_poll_def registry_defs)

definition half_dead_world :: "nat ActorMessage list_channel world" where
  "half_dead_world = set_mailbox (ActorId 1) (2, False, []) sample_world"

theorem stale_watcher_unregisters_witness:
  "Registry_lookup (watch_task_poll list_mpsc half_dead_world 0
     (Registry_register ''db'' (''Db'', Addr_new (ActorId 2) 2)
       (Registry_register ''db'' (''Db'', Addr_new (ActorId 1) 1) Registry_new))) ''Db'' ''db'' = None"
  using stale_watcher_unregisters [of "Registry_new :: string Registry" list_mpsc "Addr_new (ActorId 1) 1"
      half_dead_world "Addr_new (ActorId 2) 2" "''db''" "''Db''"]
  by (simp add: Registry_new_def Addr_is_alive_def half_dead_world_def set_mailbox_def sample_world_def
      list_mpsc_def Addr_new_def)

definition two_names :: "(nat, nat ActorMessage list_channel) reg_event list" where
  "two_names = [RegRegister ''a'' (0, Addr_new (ActorId 1) 1), RegRegister ''b'' (0, Addr_new (ActorId 2) 2)]"

theorem registry_forgets_dead_witness:
  "let r = fold (reg_step list_mpsc) two_names Registry_new;
       r' = fold (watch_task_poll list_mpsc half_dead_world) [0..<length (watch_tasks r)] r
   in hm_get (actors r') ''a'' = None \<and> hm_get (actors r') ''b'' = Some (0, Addr_new (ActorId 2) 2) \<and>
     Addr_is_alive list_mpsc (Addr_new (ActorId 2) 2) half_dead_world"
proof -
  let ?r = "fold (reg_step list_mpsc) two_names Registry_new"
  let ?r' = "fold (watch_task_poll list_mpsc half_dead_world) [0..<length (watch_tasks ?r)] ?r"
  have "hm_get (actors ?r') ''a'' = None \<and> hm_get (actors ?r') ''b'' = Some (0, Addr_new (ActorId 2) 2)"
    by (simp add: two_names_def Registry_new_def registry_defs watch_task_poll_def Addr_is_alive_def half_dead_world_def set_mailbox_def
      sample_world_def list_mpsc_def Addr_new_def)
  with registry_forgets_dead [OF refl, of list_mpsc half_dead_world two_names "''b''" 0 "Addr_new (ActorId 2) 2"]
  show ?thesis by (simp add: Let_def)
qed

section \<open>Shutdown\<close>

text \<open>
  Shutdown ends every idle actor. A top-level actor that waits in its select when
  \<open>shutdown\<close> is called, whose mailbox is empty and whose streams have nothing to say, leaves
  its loop at the next poll and ends normally.
\<close>

lemma shutdown_ends_idle:
  assumes "i < length tasks" and "tasks ! i = ActorRunning head [] s"
    and "ActorSystem_shutdown tasks ! i"
    and "mpsc_recv M (mailbox (shared s) (addr_id (ctx_addr (ctx s)))) = (None, q)"
  shows "actor_step M B spoll (Poll (sig\<lparr>shutdown_notified := ActorSystem_shutdown tasks ! i\<rparr>)) (tasks ! i)
    = actor_finish M B (s\<lparr>shared := set_mailbox (addr_id (ctx_addr (ctx s))) q (shared s)\<rparr>)"
  using assms by (simp add: ActorSystem_shutdown_def collect_streams_def actor_select_def Let_def)

end
