(* ===== verification/Timers.thy ===== *)
theory Timers
  imports Actor_Context
begin

text \<open>
  Timer handles (\<open>src/timer.rs\<close>) and the tasks that \<open>run_later\<close> and
  \<open>run_interval\<close> of \<open>src/context.rs\<close> spawn. The tokio sleep and ticker are inputs: a poll
  says whether the wait is over.
\<close>

section \<open>Handles\<close>

record TimerHandle =
  cancelled :: bool

definition TimerHandle_new :: TimerHandle where
  "TimerHandle_new = \<lparr>cancelled = False\<rparr>"

definition TimerHandle_cancel :: "TimerHandle \<Rightarrow> TimerHandle" where
  "TimerHandle_cancel h = h\<lparr>cancelled := True\<rparr>"

definition TimerHandle_is_cancelled :: "TimerHandle \<Rightarrow> bool" where
  "TimerHandle_is_cancelled h = cancelled h"

section \<open>The tasks\<close>

text \<open>
  A task waits for the clock, or for room in the mailbox with its message in hand, or is over.
  The state of a timer: the task, the shared handle, the shared world, and the messages its
  sends have delivered.
\<close>

datatype timer_phase = Waiting | Sending | Over

record ('m, 'q) timer =
  phase :: timer_phase
  timer_handle :: TimerHandle
  timer_world :: "'q world"
  delivered :: "'m ActorMessage list"

text \<open>What may happen: a poll of the task, a cancel of the handle, a change of the world.\<close>

datatype 'q timer_input =
    TimerPoll bool
  | TimerCancel
  | TimerWorld "'q world \<Rightarrow> 'q world"

text \<open>The awaited \<open>do_send\<close>, whose result is ignored; \<open>next\<close> is the phase after it.\<close>

definition timer_send ::
    "('q, 'm) channel \<Rightarrow> Addr \<Rightarrow> 'm message \<Rightarrow> timer_phase \<Rightarrow> ('m, 'q) timer \<Rightarrow> ('m, 'q) timer" where
  "timer_send M a m after t =
     (case Addr_do_send M a m (timer_world t) of
        (None, w) \<Rightarrow> t\<lparr>phase := Sending, timer_world := w\<rparr>
      | (Some (Inl e), w) \<Rightarrow> t\<lparr>phase := after, timer_world := w\<rparr>
      | (Some (Inr _), w) \<Rightarrow> t\<lparr>phase := after, timer_world := w,
                                delivered := delivered t @ [Sync (MessageEnvelope_new m)]\<rparr>)"

definition run_later_poll ::
    "('q, 'm) channel \<Rightarrow> Addr \<Rightarrow> 'm message \<Rightarrow> bool \<Rightarrow> ('m, 'q) timer \<Rightarrow> ('m, 'q) timer" where
  "run_later_poll M a m elapsed t =
     (case phase t of
        Waiting \<Rightarrow>
          if \<not> elapsed then t
          else if \<not> TimerHandle_is_cancelled (timer_handle t) then timer_send M a m Over t
          else t\<lparr>phase := Over\<rparr>
      | Sending \<Rightarrow> timer_send M a m Over t
      | Over \<Rightarrow> t)"

text \<open>
  The task of an interval creates its ticker in its first poll, where tokio's \<open>interval\<close>
  panics on a period of zero; the panic ends the task before it has sent anything.
\<close>

definition run_interval_poll ::
    "('q, 'm) channel \<Rightarrow> Addr \<Rightarrow> duration \<Rightarrow> 'm message \<Rightarrow> bool \<Rightarrow> ('m, 'q) timer \<Rightarrow> ('m, 'q) timer" where
  "run_interval_poll M a period m ticked t =
     (case phase t of
        Waiting \<Rightarrow>
          if period = 0 then t\<lparr>phase := Over\<rparr>
          else if \<not> ticked then t
          else if \<not> Addr_is_alive M a (timer_world t) \<or> TimerHandle_is_cancelled (timer_handle t)
          then t\<lparr>phase := Over\<rparr>
          else timer_send M a m Waiting t
      | Sending \<Rightarrow> timer_send M a m Waiting t
      | Over \<Rightarrow> t)"

definition timer_start :: "'q world \<Rightarrow> ('m, 'q) timer" where
  "timer_start w = \<lparr>phase = Waiting, timer_handle = TimerHandle_new, timer_world = w, delivered = []\<rparr>"

primrec timer_step ::
    "(bool \<Rightarrow> ('m, 'q) timer \<Rightarrow> ('m, 'q) timer) \<Rightarrow> 'q timer_input \<Rightarrow> ('m, 'q) timer \<Rightarrow> ('m, 'q) timer" where
  "timer_step poll (TimerPoll b) t = poll b t"
| "timer_step poll TimerCancel t = t\<lparr>timer_handle := TimerHandle_cancel (timer_handle t)\<rparr>"
| "timer_step poll (TimerWorld f) t = t\<lparr>timer_world := f (timer_world t)\<rparr>"

section \<open>Timers as tasks\<close>

text \<open>An interval of period zero never delivers anything.\<close>

lemma zero_interval_silent:
  "delivered (fold (timer_step (run_interval_poll M a 0 m)) ps (timer_start w)) = []"
proof -
  have "phase (fold (timer_step (run_interval_poll M a 0 m)) ps t) \<noteq> Sending \<and>
      delivered (fold (timer_step (run_interval_poll M a 0 m)) ps t) = delivered t" if "phase t \<noteq> Sending" for t
    using that
  proof (induction ps arbitrary: t)
    case (Cons p ps)
    have "phase (timer_step (run_interval_poll M a 0 m) p t) \<noteq> Sending \<and>
        delivered (timer_step (run_interval_poll M a 0 m) p t) = delivered t"
      using Cons.prems by (cases p; cases "phase t") (simp_all add: run_interval_poll_def)
    with Cons.IH show ?case by simp
  qed simp
  then show ?thesis by (simp add: timer_start_def)
qed

lemmas handle_defs = TimerHandle_new_def TimerHandle_cancel_def TimerHandle_is_cancelled_def

lemma timer_send_cases:
  "timer_handle (timer_send M a m after t) = timer_handle t \<and>
   (phase (timer_send M a m after t) = Sending \<and> delivered (timer_send M a m after t) = delivered t \<or>
    phase (timer_send M a m after t) = after \<and>
      (delivered (timer_send M a m after t) = delivered t \<or>
       delivered (timer_send M a m after t) = delivered t @ [Sync (MessageEnvelope_new m)]))"
  by (simp add: timer_send_def split: prod.split option.split sum.split)

text \<open>
  What a one-shot timer may have delivered so far: nothing before it is over, at most its one
  message afterwards.
\<close>

definition later_ok :: "'m message \<Rightarrow> ('m, 'q) timer \<Rightarrow> bool" where
  "later_ok m t \<longleftrightarrow> delivered t = [] \<or> phase t = Over \<and> delivered t = [Sync (MessageEnvelope_new m)]"

interpretation later: task "timer_step (run_later_poll M a m)" "later_ok m"
  for M :: "('q, 'm) channel" and a m
proof unfold_locales
  fix t :: "('m, 'q) timer" and p
  assume ok: "later_ok m t"
  show "later_ok m (timer_step (run_later_poll M a m) p t)"
  proof (cases p)
    case (TimerPoll b)
    then show ?thesis
      using ok timer_send_cases [of M a m Over t]
      by (cases "phase t") (auto simp: later_ok_def run_later_poll_def)
  qed (use ok in \<open>auto simp: later_ok_def\<close>)
qed

text \<open>
  A cancelled timer: what it had delivered when it was cancelled, and at most the message it
  was already trying to send.
\<close>

definition cancelled_ok :: "'m message \<Rightarrow> bool \<Rightarrow> 'm ActorMessage list \<Rightarrow> ('m, 'q) timer \<Rightarrow> bool" where
  "cancelled_ok m sending old t \<longleftrightarrow> TimerHandle_is_cancelled (timer_handle t) \<and>
     (if phase t = Sending then sending \<and> delivered t = old
      else delivered t = old \<or> sending \<and> delivered t = old @ [Sync (MessageEnvelope_new m)])"

interpretation cancelled_later: task "timer_step (run_later_poll M a m)" "cancelled_ok m sending old"
  for M :: "('q, 'm) channel" and a m sending old
proof unfold_locales
  fix t :: "('m, 'q) timer" and p
  assume ok: "cancelled_ok m sending old t"
  show "cancelled_ok m sending old (timer_step (run_later_poll M a m) p t)"
  proof (cases p)
    case (TimerPoll b)
    then show ?thesis
      using ok timer_send_cases [of M a m Over t]
      by (cases "phase t") (auto simp: cancelled_ok_def run_later_poll_def)
  qed (use ok in \<open>auto simp: cancelled_ok_def handle_defs\<close>)
qed

interpretation cancelled_interval: task "timer_step (run_interval_poll M a period m)" "cancelled_ok m sending old"
  for M :: "('q, 'm) channel" and a period m sending old
proof unfold_locales
  fix t :: "('m, 'q) timer" and p
  assume ok: "cancelled_ok m sending old t"
  show "cancelled_ok m sending old (timer_step (run_interval_poll M a period m) p t)"
  proof (cases p)
    case (TimerPoll b)
    then show ?thesis
      using ok timer_send_cases [of M a m Waiting t]
      by (cases "phase t") (auto simp: cancelled_ok_def run_interval_poll_def)
  qed (use ok in \<open>auto simp: cancelled_ok_def handle_defs\<close>)
qed

lemma cancelled_ok_cancel:
  "cancelled_ok m (phase t = Sending) (delivered t) (t\<lparr>timer_handle := TimerHandle_cancel (timer_handle t)\<rparr>)"
  by (simp add: cancelled_ok_def handle_defs)

text \<open>
  A one-shot timer delivers its message at most once, and not before its task is over,
  whatever happens around it.
\<close>

lemma run_later_once:
  "delivered (fold (timer_step (run_later_poll M a m)) ps (timer_start w)) \<in> {[], [Sync (MessageEnvelope_new m)]}
   \<and> (delivered (fold (timer_step (run_later_poll M a m)) ps (timer_start w)) = [] \<or>
      phase (fold (timer_step (run_later_poll M a m)) ps (timer_start w)) = Over)"
proof -
  have "later_ok m (fold (timer_step (run_later_poll M a m)) ps (timer_start w))"
    by (rule later.inv_run) (simp add: later_ok_def timer_start_def)
  then show ?thesis by (auto simp: later_ok_def)
qed

text \<open>
  C31. A cancelled timer does not fire. A timer of either kind that is cancelled while it waits
  for the clock delivers nothing from then on; cancelled while a message waits for room in the
  mailbox, it delivers at most that message.
\<close>

theorem timer_cancel_stops:
  "delivered (fold (timer_step (run_later_poll M a m)) (TimerCancel # ps) t) \<in>
     {delivered t} \<union> (if phase t = Sending then {delivered t @ [Sync (MessageEnvelope_new m)]} else {})
   \<and> delivered (fold (timer_step (run_interval_poll M a period m)) (TimerCancel # ps) t) \<in>
     {delivered t} \<union> (if phase t = Sending then {delivered t @ [Sync (MessageEnvelope_new m)]} else {})"
proof -
  have "cancelled_ok m (phase t = Sending) (delivered t) (fold (timer_step (run_later_poll M a m)) (TimerCancel # ps) t)"
    using cancelled_later.inv_run [OF cancelled_ok_cancel] by simp
  moreover have "cancelled_ok m (phase t = Sending) (delivered t) (fold (timer_step (run_interval_poll M a period m)) (TimerCancel # ps) t)"
    using cancelled_interval.inv_run [OF cancelled_ok_cancel] by simp
  ultimately show ?thesis
    unfolding cancelled_ok_def by (auto split: if_splits)
qed

text \<open>
  A timer fires. When the clock is up, the handle is not cancelled, the period of an interval is
  not zero and the actor lives and has room, a poll of either timer puts exactly one message behind what the actor's mailbox
  holds; the one-shot timer is then over and the interval timer waits for the next tick.
\<close>

lemma timer_fires:
  assumes "mpsc_laws M contents cap live" and "0 < period"
    and "phase t = Waiting" and "\<not> TimerHandle_is_cancelled (timer_handle t)"
    and "live (mailbox (timer_world t) (addr_id a))"
    and "length (contents (mailbox (timer_world t) (addr_id a))) < cap (mailbox (timer_world t) (addr_id a))"
  shows "\<exists>w. contents (mailbox w (addr_id a)) = contents (mailbox (timer_world t) (addr_id a)) @ [Sync (MessageEnvelope_new m)]
    \<and> run_later_poll M a m True t =
        t\<lparr>phase := Over, timer_world := w, delivered := delivered t @ [Sync (MessageEnvelope_new m)]\<rparr>
    \<and> run_interval_poll M a period m True t =
        t\<lparr>timer_world := w, delivered := delivered t @ [Sync (MessageEnvelope_new m)]\<rparr>"
proof -
  let ?q = "mailbox (timer_world t) (addr_id a)" and ?x = "Sync (MessageEnvelope_new m)"
  obtain r q where r: "mpsc_send M ?x ?q = (r, q)" by (cases "mpsc_send M ?x ?q")
  have law: "r = Some True" "contents q = contents ?q @ [?x]"
    using mpsc_sendD [OF assms(1) r] assms(5,6) by (simp_all add: send_law_def)
  have alive: "Addr_is_alive M a (timer_world t)"
    using assms(1,5) by (simp add: Addr_is_alive_def mpsc_laws_def)
  have send: "timer_send M a m after t = t\<lparr>phase := after,
      timer_world := set_mailbox (addr_id a) q (timer_world t), delivered := delivered t @ [?x]\<rparr>" for after
    using r law(1) by (simp add: timer_send_def Addr_do_send_def enqueue_poll_def)
  show ?thesis
    using assms(2-4) alive law(2)
    by (intro exI [of _ "set_mailbox (addr_id a) q (timer_world t)"])
      (simp add: run_later_poll_def run_interval_poll_def send set_mailbox_def)
qed

end
