(* ===== verification/Wire.thy ===== *)
theory Wire
  imports Cineyma_Prelude
begin

text \<open>
  What travels between nodes: the messages of \<open>proto/messages.proto\<close>, the envelope
  operations of \<open>src/remote/mod.rs\<close>, the transport errors of
  \<open>src/remote/transport.rs\<close>, the length-prefixed codec and the connection of
  \<open>src/remote/tcp.rs\<close>, and the registry of message types of
  \<open>src/remote/registry.rs\<close>. The protobuf serializer (prost) and tokio's \<open>Framed\<close> are
  parameters.
\<close>

section \<open>Protocol messages\<close>

record Envelope =
  message_type :: string
  payload :: bytes
  correlation_id :: u64
  sender_node :: string
  target_actor :: string
  is_response :: bool

record NodeInfo =
  info_id :: string
  info_addr :: string
  info_status :: int

record ActorLocation =
  loc_actor_id :: string
  loc_node_id :: string
  loc_actor_type :: string

record GossipMessage =
  gossip_members :: "NodeInfo list"
  gossip_actors :: "ActorLocation list"

datatype ClusterPayload =
    PayloadEnvelope Envelope
  | PayloadGossip GossipMessage

record ClusterMessage =
  cm_payload :: "ClusterPayload option"

section \<open>Errors\<close>

datatype ErrorKind = NotFound | InvalidData | OtherKind

datatype TransportError =
    Io ErrorKind
  | Decode
  | Disconnected
  | TimedOut

definition from_io_error :: "ErrorKind \<Rightarrow> TransportError" where
  "from_io_error err = Io err"

section \<open>Serialization\<close>

text \<open>
  A message type's serializer: \<open>encode\<close> gives None where prost reports an error, and
  \<open>decode\<close> gives None for bytes that are not such a message. \<open>prost_ok\<close> is the
  documented contract at one message: it can be encoded, and decoding the bytes gives it back.
\<close>

record 'x prost =
  encode :: "'x \<Rightarrow> bytes option"
  decode :: "bytes \<Rightarrow> 'x option"

definition prost_ok :: "('x, 'z) prost_scheme \<Rightarrow> 'x \<Rightarrow> bool" where
  "prost_ok P x \<longleftrightarrow> (case encode P x of None \<Rightarrow> False | Some b \<Rightarrow> decode P b = Some x)"

record 'x RemoteMessage = "'x prost" +
  type_id :: string

text \<open>\<open>from_message\<close> and \<open>to_bytes\<close> panic (None) when the encoder fails.\<close>

definition Envelope_from_message ::
    "'x RemoteMessage \<Rightarrow> 'x \<Rightarrow> u64 \<Rightarrow> string \<Rightarrow> string \<Rightarrow> Envelope option" where
  "Envelope_from_message R msg cid sender target =
     (case encode R msg of
        None \<Rightarrow> None
      | Some b \<Rightarrow> Some \<lparr>message_type = type_id R, payload = b, correlation_id = cid,
                        sender_node = sender, target_actor = target, is_response = False\<rparr>)"

definition Envelope_to_bytes :: "Envelope prost \<Rightarrow> Envelope \<Rightarrow> bytes option" where
  "Envelope_to_bytes P e = encode P e"

definition Envelope_from_bytes :: "Envelope prost \<Rightarrow> bytes \<Rightarrow> Envelope option" where
  "Envelope_from_bytes P data = decode P data"

section \<open>The codec\<close>

unbundle bit_operations_syntax

definition put_u32 :: "u32 \<Rightarrow> bytes" where
  "put_u32 n = [ucast (drop_bit 24 n), ucast (drop_bit 16 n), ucast (drop_bit 8 n), ucast n]"

definition u32_from_be_bytes :: "u8 \<Rightarrow> u8 \<Rightarrow> u8 \<Rightarrow> u8 \<Rightarrow> u32" where
  "u32_from_be_bytes a b c d =
     push_bit 24 (ucast a) OR push_bit 16 (ucast b) OR push_bit 8 (ucast c) OR ucast d"

text \<open>
  One call of the decoder on the bytes read so far: an error, an envelope, or the need for more
  bytes, with what is left of the buffer.
\<close>

definition EnvelopeCodec_decode :: "Envelope prost \<Rightarrow> bytes \<Rightarrow> (ErrorKind + Envelope option) \<times> bytes" where
  "EnvelopeCodec_decode P src =
     (if length src < 4 then (Inr None, src)
      else
        let len = unat (u32_from_be_bytes (src ! 0) (src ! 1) (src ! 2) (src ! 3))
        in if length src < 4 + len then (Inr None, src)
           else
             let frame = take len (drop 4 src);
                 rest = drop (4 + len) src
             in (case Envelope_from_bytes P frame of
                   None \<Rightarrow> (Inl InvalidData, rest)
                 | Some e \<Rightarrow> (Inr (Some e), rest)))"

text \<open>The encoder appends a frame to the output buffer; \<open>len() as u32\<close> truncates.\<close>

definition EnvelopeCodec_encode :: "Envelope prost \<Rightarrow> Envelope \<Rightarrow> bytes \<Rightarrow> bytes option" where
  "EnvelopeCodec_encode P item dst =
     (case Envelope_to_bytes P item of
        None \<Rightarrow> None
      | Some buf \<Rightarrow> Some (dst @ put_u32 (of_nat (length buf)) @ buf))"

lemma length_put_u32 [simp]: "length (put_u32 n) = 4"
  by (simp add: put_u32_def)

lemma u32_from_put_u32:
  "u32_from_be_bytes (put_u32 n ! 0) (put_u32 n ! 1) (put_u32 n ! 2) (put_u32 n ! 3) = n"
proof (rule bit_word_eqI)
  fix i
  assume "i < LENGTH(32)"
  then show "bit (u32_from_be_bytes (put_u32 n ! 0) (put_u32 n ! 1) (put_u32 n ! 2) (put_u32 n ! 3)) i = bit n i"
    by (cases "24 \<le> i"; cases "16 \<le> i"; cases "8 \<le> i") (auto simp: u32_from_be_bytes_def put_u32_def bit_simps)
qed

section \<open>Interface: framing a byte stream\<close>

text \<open>
  What the reader of a byte stream relies on: a whole frame at the front of the buffer is
  recognised and consumed exactly, and a proper part of a frame is left alone. \<open>drain\<close>
  calls the decoder until it asks for more bytes, as \<open>Framed\<close> does; \<open>feed\<close> handles one
  chunk of arriving bytes. The fuel of \<open>drain\<close> is the length of the buffer, enough because
  every frame takes at least one byte.
\<close>

primrec drain :: "(bytes \<Rightarrow> ('e + 'x option) \<times> bytes) \<Rightarrow> nat \<Rightarrow> bytes \<Rightarrow> 'x list \<times> bytes" where
  "drain dec 0 buf = ([], buf)"
| "drain dec (Suc n) buf =
     (case dec buf of
        (Inr (Some x), rest) \<Rightarrow> (case drain dec n rest of (xs, rest') \<Rightarrow> (x # xs, rest'))
      | _ \<Rightarrow> ([], buf))"

definition feed :: "(bytes \<Rightarrow> ('e + 'x option) \<times> bytes) \<Rightarrow> bytes \<Rightarrow> 'x list \<times> bytes \<Rightarrow> 'x list \<times> bytes" where
  "feed dec chunk st =
     (case drain dec (length (snd st @ chunk)) (snd st @ chunk) of (xs, buf) \<Rightarrow> (fst st @ xs, buf))"

locale framing =
  fixes dec :: "bytes \<Rightarrow> ('e + 'x option) \<times> bytes"
    and frame :: "'x \<Rightarrow> bytes"
    and fits :: "'x \<Rightarrow> bool"
  assumes dec_frame: "fits x \<Longrightarrow> dec (frame x @ rest) = (Inr (Some x), rest)"
    and dec_nothing: "dec [] = (Inr None, [])"
    and dec_part: "fits x \<Longrightarrow> frame x = part @ tail \<Longrightarrow> tail \<noteq> [] \<Longrightarrow> dec part = (Inr None, part)"
begin

lemma frame_nonempty: "fits x \<Longrightarrow> frame x \<noteq> []"
  using dec_frame [of x "[]"] dec_nothing by auto

definition partial :: "bytes \<Rightarrow> bool" where
  "partial buf \<longleftrightarrow> buf = [] \<or> (\<exists>x tail. fits x \<and> frame x = buf @ tail \<and> tail \<noteq> [])"

lemma dec_partial: "partial buf \<Longrightarrow> dec buf = (Inr None, buf)"
  by (auto simp: partial_def dec_part dec_nothing)

lemma drain_frames:
  assumes "list_all fits xs" and "partial buf"
    and "length (concat (map frame xs)) \<le> n"
  shows "drain dec n (concat (map frame xs) @ buf) = (xs, buf)"
  using assms
proof (induction xs arbitrary: n)
  case Nil
  with dec_partial show ?case by (cases n) simp_all
next
  case (Cons x xs)
  then have "Suc 0 \<le> length (frame x)" using frame_nonempty [of x] by (cases "frame x") simp_all
  with Cons.prems(3) have "Suc (length (concat (map frame xs))) \<le> n" by simp
  then obtain n' where n: "n = Suc n'" "length (concat (map frame xs)) \<le> n'"
    by (cases n) simp_all
  with Cons.IH [of n'] Cons.prems dec_frame [of x] show ?case by simp
qed

text \<open>The bytes received so far, cut at frame boundaries: whole frames and a part of the next.\<close>

lemma cut_frames:
  assumes "list_all fits xs" and "concat (map frame xs) = got @ todo"
  shows "\<exists>ys zs buf. xs = ys @ zs \<and> got = concat (map frame ys) @ buf \<and> partial buf"
  using assms
proof (induction xs arbitrary: got)
  case Nil
  then show ?case by (auto simp: partial_def)
next
  case (Cons x xs)
  have eq: "frame x @ concat (map frame xs) = got @ todo" using Cons.prems(2) by simp
  show ?case
  proof (cases "length got < length (frame x)")
    case True
    with arg_cong [OF eq, of "take (length got)"] have "take (length got) (frame x) = got" by simp
    then have "frame x = got @ drop (length got) (frame x)" by (metis append_take_drop_id)
    moreover have "drop (length got) (frame x) \<noteq> []" using True by simp
    moreover have "fits x" using Cons.prems(1) by simp
    ultimately have "partial got" unfolding partial_def by blast
    then show ?thesis by (intro exI [of _ "[]"] exI [of _ "x # xs"] exI [of _ got]) simp
  next
    case False
    let ?n = "length (frame x)"
    from False arg_cong [OF eq, of "take ?n"] arg_cong [OF eq, of "drop ?n"]
    have got: "frame x = take ?n got" "concat (map frame xs) = drop ?n got @ todo" by simp_all
    with Cons.IH [of "drop ?n got"] Cons.prems(1) obtain ys zs buf
      where c: "xs = ys @ zs" "drop ?n got = concat (map frame ys) @ buf" "partial buf" by auto
    have "got = frame x @ concat (map frame ys) @ buf"
      using got(1) c(2) by (metis append_take_drop_id)
    with c show ?thesis
      by (intro exI [of _ "x # ys"] exI [of _ zs] exI [of _ buf]) simp
  qed
qed

lemma feed_step:
  assumes "list_all fits zs" and "concat (map frame zs) = (buf @ chunk) @ todo"
  shows "\<exists>ys' zs' buf'. zs = ys' @ zs' \<and> feed dec chunk (ys, buf) = (ys @ ys', buf') \<and> partial buf'
    \<and> concat (map frame zs') = buf' @ todo"
proof -
  obtain ys' zs' buf' where c: "zs = ys' @ zs'" "buf @ chunk = concat (map frame ys') @ buf'" "partial buf'"
    using cut_frames [OF assms] by blast
  have "drain dec (length (buf @ chunk)) (buf @ chunk) = (ys', buf')"
    unfolding c(2) using assms(1) c by (intro drain_frames) auto
  moreover have "concat (map frame zs') = buf' @ todo"
    using assms(2) unfolding c(1,2) by simp
  ultimately show ?thesis using c(1,3) by (auto simp: feed_def)
qed

lemma feed_chunks:
  assumes "list_all fits zs" and "concat (map frame zs) = buf @ concat chunks" and "partial buf"
  shows "fold (feed dec) chunks (ys, buf) = (ys @ zs, [])"
  using assms
proof (induction chunks arbitrary: zs buf ys)
  case Nil
  then have "zs = []"
    using dec_partial [OF Nil.prems(3)] by (cases zs) (auto simp: dec_frame)
  with Nil show ?case by simp
next
  case (Cons chunk chunks)
  obtain ys' zs' buf' where c: "zs = ys' @ zs'" "feed dec chunk (ys, buf) = (ys @ ys', buf')" "partial buf'"
    "concat (map frame zs') = buf' @ concat chunks"
    using feed_step [of zs buf chunk "concat chunks" ys] Cons.prems by auto
  with Cons.IH [of zs' buf' "ys @ ys'"] Cons.prems(1) show ?case by simp
qed

end

section \<open>The codec frames envelopes\<close>

definition frames_ok :: "Envelope prost \<Rightarrow> Envelope \<Rightarrow> bool" where
  "frames_ok P e \<longleftrightarrow> (case encode P e of None \<Rightarrow> False | Some b \<Rightarrow> decode P b = Some e \<and> length b < 2 ^ 32)"

lemma frames_okE:
  assumes "frames_ok P e"
  obtains b where "encode P e = Some b" "decode P b = Some e" "length b < 2 ^ 32"
    "EnvelopeCodec_encode P e dst = Some (dst @ put_u32 (of_nat (length b)) @ b)"
  using assms that
  by (auto simp: frames_ok_def EnvelopeCodec_encode_def Envelope_to_bytes_def split: option.splits)

lemma decode_header:
  "EnvelopeCodec_decode P (put_u32 n @ rest) =
     (if length rest < unat n then (Inr None, put_u32 n @ rest)
      else case decode P (take (unat n) rest) of
             None \<Rightarrow> (Inl InvalidData, drop (unat n) rest)
           | Some e \<Rightarrow> (Inr (Some e), drop (unat n) rest))"
proof -
  have "(put_u32 n @ rest) ! i = put_u32 n ! i" if "i < 4" for i
    using that by (simp add: nth_append)
  then show ?thesis
    by (simp add: EnvelopeCodec_decode_def Envelope_from_bytes_def u32_from_put_u32 Let_def del: One_nat_def)
qed

interpretation envelope_codec: framing "EnvelopeCodec_decode P" "\<lambda>e. the (EnvelopeCodec_encode P e [])" "frames_ok P" for P
proof unfold_locales
  fix e rest
  assume e: "frames_ok P e"
  then obtain b where b: "decode P b = Some e" "length b < 2 ^ 32"
      "EnvelopeCodec_encode P e [] = Some ([] @ put_u32 (of_nat (length b)) @ b)"
    by (rule frames_okE)
  then have n: "unat (of_nat (length b) :: u32) = length b" by (simp add: unsigned_of_nat take_bit_nat_def)
  show "EnvelopeCodec_decode P (the (EnvelopeCodec_encode P e []) @ rest) = (Inr (Some e), rest)"
    using b n by (simp add: decode_header)
  fix part tail
  assume p: "the (EnvelopeCodec_encode P e []) = part @ tail" "tail \<noteq> []"
  show "EnvelopeCodec_decode P part = (Inr None, part)"
  proof (cases "length part < 4")
    case False
    have eq: "put_u32 (of_nat (length b)) @ b = part @ tail" using p(1) b(3) by simp
    from False arg_cong [OF eq, of "take 4"] arg_cong [OF eq, of "drop 4"]
    have "put_u32 (of_nat (length b)) = take 4 part" and tail: "b = drop 4 part @ tail" by simp_all
    then have "part = put_u32 (of_nat (length b)) @ drop 4 part" by (metis append_take_drop_id)
    moreover have "length (drop 4 part) < length b" using arg_cong [OF tail, of length] p(2) by (cases tail) simp_all
    ultimately show ?thesis
      using n decode_header [of P "of_nat (length b)" "drop 4 part"] by metis
  qed (simp add: EnvelopeCodec_decode_def)
qed (simp add: EnvelopeCodec_decode_def)

text \<open>
  C8. The codec survives any fragmentation. If every envelope of a sequence can be serialized
  into less than 4 GiB, then however the byte stream of their frames is cut into chunks, a
  reader that decodes as chunks arrive gets exactly these envelopes, in order, and ends with an
  empty buffer.
\<close>

theorem codec_roundtrip_chunks:
  assumes "list_all (frames_ok P) es"
    and "concat chunks = concat (map (\<lambda>e. the (EnvelopeCodec_encode P e [])) es)"
  shows "fold (feed (EnvelopeCodec_decode P)) chunks ([], []) = (es, [])"
  using envelope_codec.feed_chunks [of P es "[]" chunks "[]"] assms by (simp add: envelope_codec.partial_def)

text \<open>A serializer that keeps the payload only, for envelopes whose other fields are empty.\<close>

definition bare :: "bytes \<Rightarrow> Envelope" where
  "bare b = \<lparr>message_type = [], payload = b, correlation_id = 0, sender_node = [], target_actor = [], is_response = False\<rparr>"

definition payload_prost :: "Envelope prost" where
  "payload_prost = \<lparr>encode = (\<lambda>e. Some (payload e)), decode = (\<lambda>b. Some (bare b))\<rparr>"

lemma payload_prost_frames_ok: "length b < 2 ^ 32 \<Longrightarrow> frames_ok payload_prost (bare b)"
  by (simp add: frames_ok_def payload_prost_def bare_def)

theorem codec_roundtrip_chunks_witness:
  "fold (feed (EnvelopeCodec_decode payload_prost)) [[0, 0], [0, 1, 7, 0, 0], [0, 2, 8], [9]] ([], [])
     = ([bare [7], bare [8, 9]], [])"
proof (rule codec_roundtrip_chunks)
  show "list_all (frames_ok payload_prost) [bare [7], bare [8, 9]]"
    by (simp add: payload_prost_frames_ok)
  show "concat [[0, 0], [0, 1, 7, 0, 0], [0, 2, 8], [9]] =
      concat (map (\<lambda>e. the (EnvelopeCodec_encode payload_prost e [])) [bare [7], bare [8, 9]])"
    by (simp add: EnvelopeCodec_encode_def Envelope_to_bytes_def payload_prost_def bare_def put_u32_def)
qed

text \<open>
  Frames of 4 GiB and more are cut. The length field is truncated to 32 bits, so the
  decoder takes only the remainder modulo \<open>2 ^ 32\<close> of such a payload and leaves the rest in
  the buffer, where it is read as the next frame.
\<close>

lemma oversized_frame_cut:
  assumes "encode P e = Some b" and "2 ^ 32 \<le> length b"
  shows "\<exists>rest. rest \<noteq> [] \<and> snd (EnvelopeCodec_decode P (the (EnvelopeCodec_encode P e []))) = rest
    \<and> (\<forall>e'. fst (EnvelopeCodec_decode P (the (EnvelopeCodec_encode P e []))) = Inr (Some e')
        \<longrightarrow> decode P (take (length b mod 2 ^ 32) b) = Some e')"
proof -
  let ?n = "of_nat (length b) :: u32"
  have n: "unat ?n = length b mod 2 ^ 32" by (simp add: unsigned_of_nat take_bit_nat_def)
  have "length b mod 2 ^ 32 < (2 ^ 32 :: nat)" by (rule mod_less_divisor) simp
  then have less: "length b mod 2 ^ 32 < length b" using assms(2) by linarith
  have "EnvelopeCodec_decode P (the (EnvelopeCodec_encode P e [])) =
      (case decode P (take (length b mod 2 ^ 32) b) of
         None \<Rightarrow> (Inl InvalidData, drop (length b mod 2 ^ 32) b)
       | Some e \<Rightarrow> (Inr (Some e), drop (length b mod 2 ^ 32) b))"
    using assms(1) less n
    by (simp add: EnvelopeCodec_encode_def Envelope_to_bytes_def decode_header split: option.split)
  then show ?thesis using less by (auto split: option.split)
qed

section \<open>Connections\<close>

text \<open>
  tokio's \<open>Framed\<close> over a socket is a parameter: its sink takes an envelope or reports an
  I/O error, its stream gives an envelope, an I/O error or the end of the connection, and
  \<open>dial\<close> opens a socket. \<open>local_name\<close> is what the socket says of its local address.
\<close>

record 'c network =
  sink_send :: "Envelope \<Rightarrow> 'c \<Rightarrow> ErrorKind option \<times> 'c"
  stream_next :: "'c \<Rightarrow> (ErrorKind + Envelope) option \<times> 'c"
  sink_close :: "'c \<Rightarrow> ErrorKind option \<times> 'c"
  dial :: "string \<Rightarrow> ErrorKind + 'c"
  local_name :: "'c \<Rightarrow> string option"

record 'c TcpConnection =
  framed :: 'c
  conn_local_addr :: string

definition TcpConnection_new :: "'c network \<Rightarrow> 'c \<Rightarrow> 'c TcpConnection" where
  "TcpConnection_new N stream =
     \<lparr>framed = stream,
      conn_local_addr = (case local_name N stream of Some a \<Rightarrow> a | None \<Rightarrow> ''unknown'')\<rparr>"

definition TcpConnection_send ::
    "'c network \<Rightarrow> Envelope \<Rightarrow> 'c TcpConnection \<Rightarrow> (TransportError + unit) \<times> 'c TcpConnection" where
  "TcpConnection_send N e conn =
     (case sink_send N e (framed conn) of
        (None, c) \<Rightarrow> (Inr (), conn\<lparr>framed := c\<rparr>)
      | (Some err, c) \<Rightarrow> (Inl (from_io_error err), conn\<lparr>framed := c\<rparr>))"

definition TcpConnection_recv ::
    "'c network \<Rightarrow> 'c TcpConnection \<Rightarrow> (TransportError + Envelope) \<times> 'c TcpConnection" where
  "TcpConnection_recv N conn =
     (case stream_next N (framed conn) of
        (Some (Inr e), c) \<Rightarrow> (Inr e, conn\<lparr>framed := c\<rparr>)
      | (Some (Inl err), c) \<Rightarrow> (Inl (Io err), conn\<lparr>framed := c\<rparr>)
      | (None, c) \<Rightarrow> (Inl Disconnected, conn\<lparr>framed := c\<rparr>))"

definition TcpConnection_close ::
    "'c network \<Rightarrow> 'c TcpConnection \<Rightarrow> (TransportError + unit) \<times> 'c TcpConnection" where
  "TcpConnection_close N conn =
     (case sink_close N (framed conn) of
        (None, c) \<Rightarrow> (Inr (), conn\<lparr>framed := c\<rparr>)
      | (Some err, c) \<Rightarrow> (Inl (from_io_error err), conn\<lparr>framed := c\<rparr>))"

definition TcpTransport_connect :: "'c network \<Rightarrow> string \<Rightarrow> TransportError + 'c TcpConnection" where
  "TcpTransport_connect N addr =
     (case dial N addr of
        Inl err \<Rightarrow> Inl (from_io_error err)
      | Inr stream \<Rightarrow> Inr (TcpConnection_new N stream))"

section \<open>The registry of message types\<close>

text \<open>
  A deserializer turns bytes into a value of the union of all message types (\<open>Box<dyn Any>\<close>).
  The global registry does not exist before the first registration.
\<close>

type_synonym 'any DeserializeFn = "bytes \<Rightarrow> 'any option"

datatype PayloadError = NoMessagesRegistered | UnknownMessageType | MalformedPayload

type_synonym 'any message_registry = "(string, 'any DeserializeFn) hashmap option"

definition register_message ::
    "'x RemoteMessage \<Rightarrow> ('x \<Rightarrow> 'any) \<Rightarrow> 'any message_registry \<Rightarrow> 'any message_registry" where
  "register_message R box registry =
     (let tbl = (case registry of None \<Rightarrow> [] | Some tbl \<Rightarrow> tbl)
      in Some (hm_insert (type_id R) (\<lambda>data. map_option box (decode R data)) tbl))"

definition deserialize_payload :: "'any message_registry \<Rightarrow> string \<Rightarrow> bytes \<Rightarrow> PayloadError + 'any" where
  "deserialize_payload registry ty data =
     (case registry of
        None \<Rightarrow> Inl NoMessagesRegistered
      | Some tbl \<Rightarrow>
          (case hm_get tbl ty of
             None \<Rightarrow> Inl UnknownMessageType
           | Some deserialize \<Rightarrow>
               (case deserialize data of None \<Rightarrow> Inl MalformedPayload | Some any \<Rightarrow> Inr any)))"

text \<open>
  A registered message type survives the trip. An envelope built by
  \<open>from_message\<close> from a message that prost can encode and decode carries a type name and a
  payload from which \<open>deserialize_payload\<close> gives the message back, if the type was
  registered and no other type with the same name was registered later.
\<close>

lemma registered_message_roundtrip:
  assumes "prost_ok R msg"
    and "Envelope_from_message R msg cid sender target = Some e"
    and "\<forall>R' \<in> set later. type_id R' \<noteq> type_id R"
  shows "deserialize_payload (fold (\<lambda>R'. register_message R' box') later (register_message R box registry))
           (message_type e) (payload e) = Inr (box msg)"
proof -
  obtain b where b: "encode R msg = Some b" "decode R b = Some msg"
    using assms(1) by (auto simp: prost_ok_def split: option.splits)
  then have e: "message_type e = type_id R" "payload e = b"
    using assms(2) by (auto simp: Envelope_from_message_def)
  define found where "found reg \<longleftrightarrow> (\<exists>m. reg = Some m \<and> hm_get m (type_id R) = Some (\<lambda>data. map_option box (decode R data)))"
    for reg
  have "found (register_message R box registry)"
    by (auto simp: found_def register_message_def Let_def split: option.split)
  then have "found (fold (\<lambda>R'. register_message R' box') later (register_message R box registry))"
    using assms(3)
  proof (induction later rule: rev_induct)
    case (snoc R' later)
    then show ?case by (auto simp: found_def register_message_def Let_def split: option.split)
  qed simp
  then show ?thesis using b e by (auto simp: found_def deserialize_payload_def)
qed

definition nat_message :: "string \<Rightarrow> nat RemoteMessage" where
  "nat_message ty = \<lparr>encode = (\<lambda>n. Some (replicate n 0)), decode = (\<lambda>b. Some (length b)), type_id = ty\<rparr>"

end
