(* ===== verification/Cluster_Node.thy ===== *)
theory Cluster_Node
  imports Wire
begin

text \<open>
  The view a node has of its cluster (\<open>src/remote/cluster.rs\<close>): the member table, the
  heartbeat times and the actor table, gossip between nodes, and the failure detector of the
  periodic gossip task. The clock readings and the randomly chosen peer are arguments.
\<close>

section \<open>Nodes and the cluster view\<close>

datatype NodeStatus = Up | Suspect | Down

record Node =
  node_id :: string
  node_addr :: string
  node_status :: NodeStatus

record ClusterNode =
  local_node :: Node
  members :: "(string, Node) hashmap"
  last_heartbeat :: "(string, instant) hashmap"
  actor_registry :: "(string, string \<times> string) hashmap"

definition ClusterNode_new :: "string \<Rightarrow> string \<Rightarrow> instant \<Rightarrow> ClusterNode" where
  "ClusterNode_new i addr now =
     (let local_node = \<lparr>node_id = i, node_addr = addr, node_status = Up\<rparr>
      in \<lparr>local_node = local_node, members = hm_insert i local_node [],
          last_heartbeat = hm_insert i now [], actor_registry = []\<rparr>)"

definition add_member :: "Node \<Rightarrow> instant \<Rightarrow> ClusterNode \<Rightarrow> ClusterNode" where
  "add_member node now c =
     c\<lparr>members := hm_insert (node_id node) node (members c),
       last_heartbeat := hm_insert (node_id node) now (last_heartbeat c)\<rparr>"

text \<open>The members in the iteration order of the hash map, which is arbitrary.\<close>

definition get_members :: "ClusterNode \<Rightarrow> Node list" where
  "get_members c = hm_values (members c)"

definition test_insert_actor :: "string \<Rightarrow> string \<Rightarrow> string \<Rightarrow> ClusterNode \<Rightarrow> ClusterNode" where
  "test_insert_actor actor_id node actor_type c =
     c\<lparr>actor_registry := hm_insert actor_id (node, actor_type) (actor_registry c)\<rparr>"

definition register_actor :: "string \<Rightarrow> string \<Rightarrow> ClusterNode \<Rightarrow> ClusterNode" where
  "register_actor actor_id actor_type c =
     c\<lparr>actor_registry := hm_insert actor_id (node_id (local_node c), actor_type) (actor_registry c)\<rparr>"

definition lookup_actor :: "ClusterNode \<Rightarrow> string \<Rightarrow> (string \<times> string) option" where
  "lookup_actor c actor_id = hm_get (actor_registry c) actor_id"

section \<open>Gossip\<close>

definition NodeInfo_from :: "Node \<Rightarrow> NodeInfo" where
  "NodeInfo_from node =
     \<lparr>info_id = node_id node, info_addr = node_addr node,
      info_status = (case node_status node of Up \<Rightarrow> 0 | Suspect \<Rightarrow> 1 | Down \<Rightarrow> 2)\<rparr>"

definition Node_from :: "NodeInfo \<Rightarrow> Node" where
  "Node_from info =
     \<lparr>node_id = info_id info, node_addr = info_addr info,
      node_status = (if info_status info = 0 then Up else if info_status info = 1 then Suspect
                     else if info_status info = 2 then Down else Down)\<rparr>"

definition create_gossip_message :: "ClusterNode \<Rightarrow> GossipMessage" where
  "create_gossip_message c =
     \<lparr>gossip_members = map NodeInfo_from (hm_values (members c)),
      gossip_actors = map (\<lambda>(actor_id, (node, actor_type)).
        \<lparr>loc_actor_id = actor_id, loc_node_id = node, loc_actor_type = actor_type\<rparr>) (actor_registry c)\<rparr>"

definition merge_member :: "NodeInfo \<Rightarrow> (string, Node) hashmap \<Rightarrow> (string, Node) hashmap" where
  "merge_member info ms =
     (let node = Node_from info in
      case hm_get ms (node_id node) of
        Some existing \<Rightarrow> if node_status existing \<noteq> node_status node then hm_insert (node_id node) node ms else ms
      | None \<Rightarrow> hm_insert (node_id node) node ms)"

definition merge_actor :: "ActorLocation \<Rightarrow> (string, string \<times> string) hashmap \<Rightarrow> (string, string \<times> string) hashmap" where
  "merge_actor loc reg = hm_insert (loc_actor_id loc) (loc_node_id loc, loc_actor_type loc) reg"

definition merge_gossip :: "GossipMessage \<Rightarrow> string \<Rightarrow> instant \<Rightarrow> ClusterNode \<Rightarrow> ClusterNode" where
  "merge_gossip gossip sender now c =
     c\<lparr>members := fold merge_member (gossip_members gossip) (members c),
       last_heartbeat := hm_insert sender now (last_heartbeat c),
       actor_registry := fold merge_actor (gossip_actors gossip) (actor_registry c)\<rparr>"

section \<open>The failure detector\<close>

text \<open>
  One member in the loop of the detector: its new entry and whether it was marked Down now.
  None is the panic of \<open>suspect_timeout * 2\<close>; no entry has been changed by then, because an
  earlier one for which the product is computed would have panicked as well.
\<close>

definition detect_member ::
    "ClusterNode \<Rightarrow> instant \<Rightarrow> duration \<Rightarrow> string \<Rightarrow> Node \<Rightarrow> (Node \<times> bool) option" where
  "detect_member c now suspect_timeout i node =
     (if i = node_id (local_node c) then Some (node, False)
      else
        (case hm_get (last_heartbeat c) i of
           None \<Rightarrow> Some (node, False)
         | Some last_seen \<Rightarrow>
             (let elapsed = duration_since now last_seen in
              case duration_mul suspect_timeout 2 of
                None \<Rightarrow> None
              | Some limit \<Rightarrow>
                  if limit < elapsed \<and> node_status node \<noteq> Down then Some (node\<lparr>node_status := Down\<rparr>, True)
                  else if suspect_timeout < elapsed \<and> node_status node = Up
                  then Some (node\<lparr>node_status := Suspect\<rparr>, False)
                  else Some (node, False))))"

fun detect_failures ::
    "ClusterNode \<Rightarrow> instant \<Rightarrow> duration \<Rightarrow> (string, Node) hashmap \<Rightarrow> ((string, Node) hashmap \<times> string list) option" where
  "detect_failures c now d [] = Some ([], [])"
| "detect_failures c now d ((i, node) # ms) =
     (case detect_member c now d i node of
        None \<Rightarrow> None
      | Some (node', down) \<Rightarrow>
          (case detect_failures c now d ms of
             None \<Rightarrow> None
           | Some (ms', down_nodes) \<Rightarrow> Some ((i, node') # ms', (if down then [i] else []) @ down_nodes)))"

definition remove_actors_of :: "string \<Rightarrow> (string, string \<times> string) hashmap \<Rightarrow> (string, string \<times> string) hashmap" where
  "remove_actors_of down_node reg = hm_retain (\<lambda>actor_id (node, _). node \<noteq> down_node) reg"

text \<open>The part of a gossip round before a peer is chosen.\<close>

definition failure_check :: "instant \<Rightarrow> duration \<Rightarrow> ClusterNode \<Rightarrow> ClusterNode option" where
  "failure_check now suspect_timeout c =
     (case detect_failures c now suspect_timeout (members c) of
        None \<Rightarrow> None
      | Some (ms, down_nodes) \<Rightarrow>
          Some (c\<lparr>members := ms, actor_registry := fold remove_actors_of down_nodes (actor_registry c)\<rparr>))"

definition gossip_peers :: "ClusterNode \<Rightarrow> Node list" where
  "gossip_peers c = filter (\<lambda>n. node_id n \<noteq> node_id (local_node c)) (hm_values (members c))"

section \<open>A well-formed view\<close>

text \<open>Every member is filed under its own name, and the node itself is always a member.\<close>

definition members_ok :: "(string, Node) hashmap \<Rightarrow> bool" where
  "members_ok ms \<longleftrightarrow> hm_wf ms \<and> (\<forall>i node. hm_get ms i = Some node \<longrightarrow> node_id node = i)"

definition cluster_ok :: "ClusterNode \<Rightarrow> bool" where
  "cluster_ok c \<longleftrightarrow> members_ok (members c) \<and> hm_wf (last_heartbeat c) \<and> hm_wf (actor_registry c) \<and>
     node_id (local_node c) \<in> hm_keys (members c)"

datatype cluster_event =
    AddMember Node instant
  | RegisterActor string string
  | InsertActor string string string
  | MergeGossip GossipMessage string instant
  | CheckFailures instant duration

primrec cluster_step :: "cluster_event \<Rightarrow> ClusterNode \<Rightarrow> ClusterNode" where
  "cluster_step (AddMember node now) c = add_member node now c"
| "cluster_step (RegisterActor i ty) c = register_actor i ty c"
| "cluster_step (InsertActor i node ty) c = test_insert_actor i node ty c"
| "cluster_step (MergeGossip g sender now) c = merge_gossip g sender now c"
| "cluster_step (CheckFailures now d) c = (case failure_check now d c of None \<Rightarrow> c | Some c' \<Rightarrow> c')"

lemma Node_from_id [simp]: "node_id (Node_from info) = info_id info"
  by (simp add: Node_from_def)

lemma members_ok_insert: "members_ok ms \<Longrightarrow> members_ok (hm_insert (node_id node) node ms)"
  by (simp add: members_ok_def)

lemma merge_member_ok: "members_ok ms \<Longrightarrow> members_ok (merge_member info ms)"
  using members_ok_insert [of ms "Node_from info"] by (auto simp: merge_member_def Let_def split: option.split)

lemma merge_member_keys: "hm_keys (merge_member info ms) = insert (info_id info) (hm_keys ms)"
  by (auto simp: merge_member_def Let_def hm_keys_get split: option.split)

lemma merge_members:
  "members_ok ms \<Longrightarrow> members_ok (fold merge_member infos ms) \<and>
     hm_keys (fold merge_member infos ms) = hm_keys ms \<union> info_id ` set infos"
  by (induction infos arbitrary: ms) (auto simp: merge_member_ok merge_member_keys)

lemma merge_actors_wf: "hm_wf reg \<Longrightarrow> hm_wf (fold merge_actor locs reg)"
  by (induction locs arbitrary: reg) (auto simp: merge_actor_def)

lemma remove_actors_wf: "hm_wf reg \<Longrightarrow> hm_wf (fold remove_actors_of down reg)"
  by (induction down arbitrary: reg) (auto simp: remove_actors_of_def)

lemma detect_member_id: "detect_member c now d i node = Some (node', down) \<Longrightarrow> node_id node' = node_id node"
  by (auto simp: detect_member_def Let_def split: if_splits option.splits)

lemma detect_failures_spec:
  assumes "detect_failures c now d ms = Some (ms', down)" and "distinct (map fst ms)"
  shows "map fst ms' = map fst ms \<and>
    (\<forall>i. hm_get ms' i = (case hm_get ms i of None \<Rightarrow> None | Some node \<Rightarrow> map_option fst (detect_member c now d i node))) \<and>
    (\<forall>i. i \<in> set down \<longleftrightarrow> (\<exists>node. hm_get ms i = Some node \<and> map_option snd (detect_member c now d i node) = Some True))"
  using assms
proof (induction ms arbitrary: ms' down)
  case (Cons kv ms)
  obtain j node where kv: "kv = (j, node)" by (cases kv)
  with Cons.prems obtain node1 b ms1 down1 where d: "detect_member c now d j node = Some (node1, b)"
    "detect_failures c now d ms = Some (ms1, down1)"
    "ms' = (j, node1) # ms1" "down = (if b then [j] else []) @ down1"
    by (auto split: option.splits)
  have "hm_get ms j = None" using Cons.prems(2) kv by (simp add: hm_get_def map_of_eq_None_iff)
  with Cons.IH [OF d(2)] Cons.prems(2) kv d show ?case by (auto simp: hm_get_def)
qed (simp add: hm_get_def)

lemma failure_check_spec:
  assumes "failure_check now d c = Some c'" and "hm_wf (members c)"
  obtains down where "map fst (members c') = map fst (members c)"
    "\<And>i. hm_get (members c') i =
      (case hm_get (members c) i of None \<Rightarrow> None | Some node \<Rightarrow> map_option fst (detect_member c now d i node))"
    "\<And>i. i \<in> set down \<longleftrightarrow>
      (\<exists>node. hm_get (members c) i = Some node \<and> map_option snd (detect_member c now d i node) = Some True)"
    "actor_registry c' = fold remove_actors_of down (actor_registry c)"
    "local_node c' = local_node c" "last_heartbeat c' = last_heartbeat c"
proof -
  obtain ms down where d: "detect_failures c now d (members c) = Some (ms, down)"
    "c' = c\<lparr>members := ms, actor_registry := fold remove_actors_of down (actor_registry c)\<rparr>"
    using assms(1) by (auto simp: failure_check_def split: option.splits)
  with that [of down] detect_failures_spec [OF d(1)] assms(2) show thesis
    by (simp add: hm_wf_def)
qed

lemma hm_keys_fst: "hm_keys m = set (map fst m)"
  by (simp add: hm_keys_def)

lemma failure_check_ok:
  assumes "cluster_ok c" and "failure_check now d c = Some c'"
  shows "cluster_ok c'"
proof -
  have wf: "hm_wf (members c)" using assms(1) by (simp add: cluster_ok_def members_ok_def)
  from failure_check_spec [OF assms(2) wf] obtain down where
    k: "map fst (members c') = map fst (members c)"
    and get: "\<And>i. hm_get (members c') i =
      (case hm_get (members c) i of None \<Rightarrow> None | Some node \<Rightarrow> map_option fst (detect_member c now d i node))"
    and rest: "actor_registry c' = fold remove_actors_of down (actor_registry c)"
      "local_node c' = local_node c" "last_heartbeat c' = last_heartbeat c" by metis
  have "members_ok (members c')"
    using assms(1) wf unfolding members_ok_def cluster_ok_def hm_wf_def k get
    by (auto split: option.splits dest: detect_member_id)
  then show ?thesis
    using assms(1) k rest by (simp add: cluster_ok_def hm_keys_fst remove_actors_wf)
qed

interpretation cluster: task cluster_step cluster_ok
proof unfold_locales
  fix c e
  assume ok: "cluster_ok c"
  show "cluster_ok (cluster_step e c)"
  proof (cases e)
    case (MergeGossip g sender now)
    with ok merge_members [of "members c" "gossip_members g"] show ?thesis
      by (simp add: cluster_ok_def merge_gossip_def merge_actors_wf)
  next
    case (CheckFailures now d)
    with ok failure_check_ok show ?thesis by (auto split: option.split)
  qed (use ok in \<open>auto simp: cluster_ok_def add_member_def register_actor_def test_insert_actor_def members_ok_insert\<close>)
qed

lemma ClusterNode_new_ok: "cluster_ok (ClusterNode_new i addr now)"
  by (simp add: cluster_ok_def ClusterNode_new_def members_ok_def Let_def)

section \<open>What gossip does to a view\<close>

definition status_of :: "ClusterNode \<Rightarrow> string \<rightharpoonup> NodeStatus" where
  "status_of c i = map_option node_status (hm_get (members c) i)"

lemma map_add_absorb: "f ++ (g ++ f) = g ++ f"
  by (auto simp: fun_eq_iff map_add_def split: option.split)

lemma map_of_rev_wf: "hm_wf m \<Longrightarrow> map_of (rev m) = map_of m"
  by (subst map_of_inject_set) (simp_all add: hm_wf_def rev_map [symmetric])

lemma merge_member_status:
  "map_option node_status (hm_get (merge_member info ms) i) =
     (if i = info_id info then Some (node_status (Node_from info)) else map_option node_status (hm_get ms i))"
  by (auto simp: merge_member_def Let_def split: option.split)

lemma merge_members_status:
  "map_option node_status (hm_get (fold merge_member infos ms) i) =
     (case map_of (rev (map (\<lambda>info. (info_id info, node_status (Node_from info))) infos)) i of
        Some st \<Rightarrow> Some st
      | None \<Rightarrow> map_option node_status (hm_get ms i))"
proof (induction infos arbitrary: ms)
  case (Cons info infos)
  then show ?case by (auto simp: merge_member_status map_add_def split: option.split)
qed simp

lemma Node_from_NodeInfo: "Node_from (NodeInfo_from node) = node"
  by (cases "node_status node") (simp_all add: Node_from_def NodeInfo_from_def)

lemma NodeInfo_from_id [simp]: "info_id (NodeInfo_from node) = node_id node"
  by (simp add: NodeInfo_from_def)

lemma gossip_statuses:
  assumes "members_ok ms"
  shows "map_of (rev (map (\<lambda>info. (info_id info, node_status (Node_from info))) (map NodeInfo_from (hm_values ms)))) i
    = map_option node_status (hm_get ms i)"
proof -
  have "map (\<lambda>info. (info_id info, node_status (Node_from info))) (map NodeInfo_from (hm_values ms))
      = map (\<lambda>(k, node). (k, node_status node)) ms"
    using assms by (auto simp: members_ok_def hm_values_def Node_from_NodeInfo hm_entry_get [symmetric])
  moreover have "hm_wf (map (\<lambda>(k, node). (k, node_status node)) ms)"
    unfolding hm_wf_def map_fst_map_value using assms by (simp add: members_ok_def hm_wf_def)
  ultimately show ?thesis
    using map_of_map_value [of "\<lambda>k. node_status" ms i] by (simp add: map_of_rev_wf hm_get_def del: map_map)
qed

lemma gossip_actor_table:
  "fold merge_actor (gossip_actors (create_gossip_message c)) reg = fold (\<lambda>(k, v). hm_insert k v) (actor_registry c) reg"
  by (simp add: create_gossip_message_def fold_map comp_def case_prod_unfold merge_actor_def [abs_def])

lemma merge_status:
  assumes "cluster_ok a"
  shows "status_of (merge_gossip (create_gossip_message a) sender now c) i =
    (case status_of a i of Some st \<Rightarrow> Some st | None \<Rightarrow> status_of c i)"
  using assms gossip_statuses [of "members a" i]
  by (simp add: status_of_def merge_gossip_def merge_members_status create_gossip_message_def cluster_ok_def
      split: option.split del: map_map)

lemma lookup_actor_get: "lookup_actor c = hm_get (actor_registry c)"
  by (simp add: fun_eq_iff lookup_actor_def)

lemma merge_actors:
  assumes "cluster_ok a" "cluster_ok c"
  shows "lookup_actor (merge_gossip (create_gossip_message a) sender now c) = lookup_actor c ++ lookup_actor a"
proof -
  have "hm_get (fold (\<lambda>(k, v). hm_insert k v) (actor_registry a) (actor_registry c))
      = hm_get (actor_registry c) ++ map_of (rev (actor_registry a))"
    by (rule hashmap.get_puts) (use assms in \<open>simp add: cluster_ok_def\<close>)
  moreover have "map_of (rev (actor_registry a)) = hm_get (actor_registry a)"
    using assms(1) by (simp add: map_of_rev_wf cluster_ok_def hm_get_def fun_eq_iff)
  ultimately show ?thesis
    by (simp add: lookup_actor_get merge_gossip_def gossip_actor_table)
qed

lemma cluster_step_local: "local_node (cluster_step e c) = local_node c"
  by (cases e) (auto simp: add_member_def register_actor_def test_insert_actor_def merge_gossip_def
      failure_check_def split: option.split)

lemma cluster_steps_local: "local_node (fold cluster_step es c) = local_node c"
  by (induction es arbitrary: c) (simp_all add: cluster_step_local)

lemma members_distinct:
  assumes "cluster_ok c"
  shows "distinct (map node_id (get_members c))"
proof -
  have "map node_id (get_members c) = map fst (members c)"
    using assms by (auto simp: cluster_ok_def members_ok_def get_members_def hm_values_def hm_entry_get [symmetric])
  then show ?thesis using assms by (simp add: cluster_ok_def members_ok_def hm_wf_def)
qed

lemma cluster_step_keys:
  assumes "cluster_ok c"
  shows "hm_keys (members c) \<subseteq> hm_keys (members (cluster_step e c))"
proof (cases e)
  case (MergeGossip g sender now)
  with assms merge_members [of "members c" "gossip_members g"] show ?thesis
    by (auto simp: cluster_ok_def merge_gossip_def)
next
  case (CheckFailures now d)
  then show ?thesis
  proof (cases "failure_check now d c")
    case (Some c')
    have "map fst (members c') = map fst (members c)"
      by (rule failure_check_spec [OF Some]) (use assms in \<open>simp_all add: cluster_ok_def members_ok_def\<close>)
    with CheckFailures Some show ?thesis by (simp add: hm_keys_fst)
  qed (use CheckFailures in simp)
qed (auto simp: add_member_def register_actor_def test_insert_actor_def)

lemma members_filed:
  assumes "cluster_ok c"
  shows "map fst (members c) = map node_id (get_members c)"
proof -
  have "node_id node = i" if "(i, node) \<in> set (members c)" for i node
    using assms that by (auto simp: cluster_ok_def members_ok_def hm_wf_def hm_get_def)
  then show ?thesis by (auto simp: get_members_def hm_values_def)
qed

text \<open>
  C23. A view is always well formed. After any sequence of joins, registrations, merged gossip
  and failure checks, a node is still a member of its own view, every member is filed under its
  own name, no member ever appears twice, and no member is ever forgotten.
\<close>

theorem cluster_view_wellformed:
  "let c = fold cluster_step es (ClusterNode_new i addr now); c' = cluster_step e c in
     i \<in> hm_keys (members c) \<and> map fst (members c) = map node_id (get_members c)
     \<and> distinct (map node_id (get_members c)) \<and> hm_keys (members c) \<subseteq> hm_keys (members c')"
proof -
  let ?c = "fold cluster_step es (ClusterNode_new i addr now)"
  have ok: "cluster_ok ?c" by (rule cluster.inv_run [OF ClusterNode_new_ok])
  have local: "node_id (local_node ?c) = i"
    by (simp add: cluster_steps_local) (simp add: ClusterNode_new_def Let_def)
  show ?thesis
    using ok local members_distinct [OF ok] members_filed [OF ok] cluster_step_keys [OF ok, of e]
    by (simp add: Let_def cluster_ok_def)
qed

definition gossip_exchange :: "instant \<Rightarrow> ClusterNode \<Rightarrow> ClusterNode \<Rightarrow> ClusterNode \<times> ClusterNode" where
  "gossip_exchange now a b =
     (let b' = merge_gossip (create_gossip_message a) (node_id (local_node a)) now b;
          a' = merge_gossip (create_gossip_message b') (node_id (local_node b')) now a
      in (a', b'))"

lemma gossip_exchange_ok:
  assumes "cluster_ok a" and "cluster_ok b" and "gossip_exchange now a b = (a', b')"
  shows "cluster_ok a' \<and> cluster_ok b'"
  using assms cluster.inv_step [of _ "MergeGossip g sender now" for g sender]
  by (auto simp: gossip_exchange_def Let_def)

lemma gossip_exchange_views:
  assumes "cluster_ok a" and "cluster_ok b" and "gossip_exchange now a b = (a', b')"
  shows "status_of a' = status_of b' \<and> lookup_actor a' = lookup_actor b' \<and>
    status_of a' = status_of b ++ status_of a \<and> lookup_actor a' = lookup_actor b ++ lookup_actor a"
proof -
  have b': "b' = merge_gossip (create_gossip_message a) (node_id (local_node a)) now b"
    and a': "a' = merge_gossip (create_gossip_message b') (node_id (local_node b')) now a"
    using assms(3) by (auto simp: gossip_exchange_def Let_def)
  have ok: "cluster_ok b'"
    using cluster.inv_step [OF assms(2), of "MergeGossip (create_gossip_message a) (node_id (local_node a)) now"] b'
    by simp
  have sb: "status_of b' = status_of b ++ status_of a"
    unfolding b' by (simp add: fun_eq_iff merge_status [OF assms(1)] map_add_def)
  have sa: "status_of a' = status_of a ++ status_of b'"
    unfolding a' by (simp add: fun_eq_iff merge_status [OF ok] map_add_def)
  have lb: "lookup_actor b' = lookup_actor b ++ lookup_actor a"
    unfolding b' by (rule merge_actors [OF assms(1,2)])
  have la: "lookup_actor a' = lookup_actor a ++ lookup_actor b'"
    unfolding a' by (rule merge_actors [OF ok assms(1)])
  show ?thesis using sa sb la lb map_add_absorb by metis
qed

text \<open>
  C7. A gossip exchange makes two views agree. When a sends its gossip to b, b merges it and
  answers with its own, and a merges the answer, then both hold the same status for every node
  and the same location for every actor, where a's knowledge overrides b's.
\<close>

theorem gossip_exchange_agrees:
  assumes "cluster_ok a" and "cluster_ok b" and "gossip_exchange now a b = (a', b')"
  shows "status_of a' = status_of b' \<and> lookup_actor a' = lookup_actor b' \<and>
    status_of a' = status_of b ++ status_of a \<and> lookup_actor a' = lookup_actor b ++ lookup_actor a"
  using assms by (rule gossip_exchange_views)

definition sample_cluster :: "string \<Rightarrow> ClusterNode" where
  "sample_cluster i = ClusterNode_new i ''addr'' 0"

theorem gossip_exchange_agrees_witness:
  "case gossip_exchange 5 (register_actor ''kv'' ''Store'' (sample_cluster ''a'')) (sample_cluster ''b'') of
     (a', b') \<Rightarrow> status_of a' = status_of b' \<and> lookup_actor b' ''kv'' = Some (''a'', ''Store'')"
proof -
  let ?a = "register_actor ''kv'' ''Store'' (sample_cluster ''a'')" and ?b = "sample_cluster ''b''"
  obtain a' b' where x: "gossip_exchange 5 ?a ?b = (a', b')" by (cases "gossip_exchange 5 ?a ?b")
  have a: "cluster_ok ?a"
    using cluster.inv_step [OF ClusterNode_new_ok, of "RegisterActor ''kv'' ''Store''"] by (simp add: sample_cluster_def)
  have b: "cluster_ok ?b" by (simp add: sample_cluster_def ClusterNode_new_ok)
  have "lookup_actor ?a ''kv'' = Some (''a'', ''Store'')"
    by (simp add: lookup_actor_def register_actor_def sample_cluster_def ClusterNode_new_def Let_def)
  moreover have "lookup_actor b' = lookup_actor ?b ++ lookup_actor ?a"
    using gossip_exchange_agrees [OF a b x] by auto
  ultimately have "lookup_actor b' ''kv'' = Some (''a'', ''Store'')" by simp
  with gossip_exchange_agrees [OF a b x] x show ?thesis by simp
qed

section \<open>What the failure detector does to a view\<close>

text \<open>The status a failure check gives to a member, from its old one.\<close>

definition detected_status :: "ClusterNode \<Rightarrow> instant \<Rightarrow> duration \<Rightarrow> string \<Rightarrow> NodeStatus \<Rightarrow> NodeStatus" where
  "detected_status c now d i old =
     (case hm_get (last_heartbeat c) i of
        None \<Rightarrow> old
      | Some seen \<Rightarrow>
          if i = node_id (local_node c) then old
          else if 2 * d < now - seen then Down
          else if d < now - seen \<and> old = Up then Suspect
          else old)"

lemma detect_member_status:
  assumes "detect_member c now d i node = Some (node', down)"
  shows "node_status node' = detected_status c now d i (node_status node)"
    and "down \<longleftrightarrow> node_status node' = Down \<and> node_status node \<noteq> Down"
  using assms
  by (auto simp: detect_member_def detected_status_def duration_since_def Let_def split: if_splits option.splits)

lemma detect_member_total: "d * 2 \<le> duration_max \<Longrightarrow> detect_member c now d i node \<noteq> None"
  by (simp add: detect_member_def Let_def duration_mul_def del: not_None_eq split: option.split)

lemma detect_failures_total:
  assumes "d * 2 \<le> duration_max"
  shows "\<exists>x. detect_failures c now d ms = Some x"
proof (induction ms)
  case (Cons kv ms)
  obtain i node where kv: "kv = (i, node)" by (cases kv)
  obtain node' b where "detect_member c now d i node = Some (node', b)"
    using detect_member_total [OF assms, of c now i node] by (cases "detect_member c now d i node") auto
  with Cons kv show ?case by (auto split: option.split)
qed simp

lemma failure_check_members:
  assumes "cluster_ok c" and "failure_check now d c = Some c'"
  obtains down where "\<And>i. status_of c' i = map_option (detected_status c now d i) (status_of c i)"
    "\<And>i. i \<in> set down \<longleftrightarrow> status_of c i \<noteq> Some Down \<and> status_of c' i = Some Down"
    "actor_registry c' = fold remove_actors_of down (actor_registry c)"
proof -
  have wf: "hm_wf (members c)" using assms(1) by (simp add: cluster_ok_def members_ok_def)
  obtain ms down where d: "detect_failures c now d (members c) = Some (ms, down)"
    "c' = c\<lparr>members := ms, actor_registry := fold remove_actors_of down (actor_registry c)\<rparr>"
    using assms(2) by (auto simp: failure_check_def split: option.splits)
  note spec = detect_failures_spec [OF d(1) wf [unfolded hm_wf_def]]
  have keys: "map fst ms = map fst (members c)" using spec by blast
  have get: "hm_get ms i = (case hm_get (members c) i of None \<Rightarrow> None | Some node \<Rightarrow> map_option fst (detect_member c now d i node))"
    and down: "i \<in> set down \<longleftrightarrow> (\<exists>node. hm_get (members c) i = Some node \<and> map_option snd (detect_member c now d i node) = Some True)"
    for i using spec by blast+
  have c': "status_of c' i = map_option node_status (hm_get ms i)" for i by (simp add: status_of_def d(2))
  have c: "status_of c i = map_option node_status (hm_get (members c) i)" for i by (simp add: status_of_def)
  have all: "status_of c' i = map_option (detected_status c now d i) (status_of c i) \<and>
      (i \<in> set down \<longleftrightarrow> status_of c i \<noteq> Some Down \<and> status_of c' i = Some Down)" for i
  proof (cases "hm_get (members c) i")
    case None
    then show ?thesis by (simp add: c c' get down)
  next
    case (Some node)
    with keys have "hm_get ms i \<noteq> None" by (metis hm_keys_fst hm_keys_get option.discI)
    with get [of i] Some obtain node' b where n: "detect_member c now d i node = Some (node', b)"
      by (cases "detect_member c now d i node") auto
    have "status_of c i = Some (node_status node)" "status_of c' i = Some (node_status node')" "i \<in> set down \<longleftrightarrow> b"
      using Some n by (simp_all add: c c' get down)
    with detect_member_status [OF n] show ?thesis by auto
  qed
  show thesis by (rule that [of down]) (use all d(2) in simp_all)
qed

lemma remove_actors_get:
  "hm_wf reg \<Longrightarrow> hm_get (fold remove_actors_of down reg) i =
     (case hm_get reg i of None \<Rightarrow> None | Some (node, ty) \<Rightarrow> if node \<in> set down then None else Some (node, ty))"
proof (induction down arbitrary: reg)
  case (Cons n down)
  have "hm_wf (remove_actors_of n reg)" using Cons.prems by (simp add: remove_actors_of_def)
  with Cons.IH [of "remove_actors_of n reg"] Cons.prems show ?case
    by (auto simp: remove_actors_of_def hm_get_retain split: option.split)
qed (auto split: option.split)

text \<open>
  C9. Failure detection. A failure check never panics for a timeout whose double is a
  \<open>Duration\<close>. It marks exactly the members, other than the node itself, that were last heard
  of more than twice the timeout ago as Down, and those that were Up and last heard of more than
  the timeout ago as Suspect. A member without a heartbeat entry, which is one known only
  through gossip, is never suspected, and no check improves a status.
\<close>

theorem failure_detection:
  assumes "cluster_ok c" and "d * 2 \<le> duration_max"
  shows "\<exists>c'. failure_check now d c = Some c' \<and>
    status_of c' = (\<lambda>i. map_option (detected_status c now d i) (status_of c i))"
proof -
  obtain c' where c': "failure_check now d c = Some c'"
    using detect_failures_total [OF assms(2), of c now "members c"]
    by (auto simp: failure_check_def split: option.splits)
  have "status_of c' i = map_option (detected_status c now d i) (status_of c i)" for i
    by (rule failure_check_members [OF assms(1) c']) simp
  with c' show ?thesis by auto
qed

lemma failure_check_actors:
  assumes "cluster_ok c" and "failure_check now d c = Some c'"
  shows "lookup_actor c' a =
    (case lookup_actor c a of
       None \<Rightarrow> None
     | Some (node, ty) \<Rightarrow>
         if status_of c node \<noteq> Some Down \<and> status_of c' node = Some Down then None else Some (node, ty))"
proof (rule failure_check_members [OF assms])
  fix down
  assume "\<And>i. i \<in> set down \<longleftrightarrow> status_of c i \<noteq> Some Down \<and> status_of c' i = Some Down"
    and "actor_registry c' = fold remove_actors_of down (actor_registry c)"
  then show ?thesis
    using assms(1) remove_actors_get [of "actor_registry c" down a]
    by (simp add: lookup_actor_def cluster_ok_def split: option.split)
qed

text \<open>
  C22. Actors of failed nodes are forgotten. A failure check removes exactly the actors located
  on nodes that this check marked Down; every other location stays.
\<close>

theorem failed_node_cleanup:
  assumes "cluster_ok c" and "failure_check now d c = Some c'"
  shows "lookup_actor c' a =
    (case lookup_actor c a of
       None \<Rightarrow> None
     | Some (node, ty) \<Rightarrow>
         if status_of c node \<noteq> Some Down \<and> status_of c' node = Some Down then None else Some (node, ty))"
  using assms by (rule failure_check_actors)

text \<open>A node a that last heard of b at time 0 and knows an actor there.\<close>

definition watching_cluster :: ClusterNode where
  "watching_cluster = test_insert_actor ''kv'' ''b'' ''Store''
     (add_member \<lparr>node_id = ''b'', node_addr = ''host'', node_status = Up\<rparr> 0 (sample_cluster ''a''))"

lemma watching_cluster_ok: "cluster_ok watching_cluster"
proof -
  have "cluster_ok (fold cluster_step [AddMember \<lparr>node_id = ''b'', node_addr = ''host'', node_status = Up\<rparr> 0,
      InsertActor ''kv'' ''b'' ''Store''] (sample_cluster ''a''))"
    unfolding sample_cluster_def by (rule cluster.inv_run [OF ClusterNode_new_ok])
  then show ?thesis by (simp add: watching_cluster_def)
qed

lemmas watching_cluster_defs = watching_cluster_def sample_cluster_def ClusterNode_new_def add_member_def
  test_insert_actor_def status_of_def lookup_actor_def detected_status_def Let_def

theorem failure_detection_witness:
  "\<exists>c'. failure_check 25 10 watching_cluster = Some c' \<and>
    status_of c' ''b'' = Some Down \<and> status_of c' ''a'' = Some Up"
proof -
  have "(10 :: nat) * 2 \<le> duration_max" by (simp add: duration_max_def)
  then obtain c' where c': "failure_check 25 10 watching_cluster = Some c'"
      "status_of c' = (\<lambda>i. map_option (detected_status watching_cluster 25 10 i) (status_of watching_cluster i))"
    using failure_detection [OF watching_cluster_ok, of 10 25] by blast
  have "map_option (detected_status watching_cluster 25 10 ''b'') (status_of watching_cluster ''b'') = Some Down"
    "map_option (detected_status watching_cluster 25 10 ''a'') (status_of watching_cluster ''a'') = Some Up"
    by (simp_all add: watching_cluster_defs)
  with c' show ?thesis by simp
qed

theorem failed_node_cleanup_witness:
  "\<exists>c'. failure_check 25 10 watching_cluster = Some c' \<and> lookup_actor c' ''kv'' = None"
proof -
  obtain c' where c': "failure_check 25 10 watching_cluster = Some c'" "status_of c' ''b'' = Some Down"
    by (simp add: failure_check_def detect_member_def duration_mul_def duration_max_def duration_since_def
        watching_cluster_defs hm_insert_def hm_get_def)
  moreover have "lookup_actor watching_cluster ''kv'' = Some (''b'', ''Store'')" "status_of watching_cluster ''b'' = Some Up"
    by (simp_all add: watching_cluster_defs)
  ultimately show ?thesis
    using failed_node_cleanup [OF watching_cluster_ok c'(1), of "''kv''"] by simp
qed

section \<open>Where the protocol falls short\<close>

lemma gossip_exchange_status:
  assumes "cluster_ok a" and "cluster_ok b" and "gossip_exchange now a b = (a', b')" and "status_of a i = Some st"
  shows "status_of a' i = Some st \<and> status_of b' i = Some st"
  using gossip_exchange_views [OF assms(1-3)] assms(4) by (metis map_add_find_right)

text \<open>Exchanges between two nodes, each started by the first or by the second of them.\<close>

definition exchange_between :: "instant \<times> bool \<Rightarrow> ClusterNode \<times> ClusterNode \<Rightarrow> ClusterNode \<times> ClusterNode" where
  "exchange_between ev ab =
     (if snd ev then gossip_exchange (fst ev) (fst ab) (snd ab)
      else prod.swap (gossip_exchange (fst ev) (snd ab) (fst ab)))"

definition both_hold :: "string \<Rightarrow> NodeStatus \<Rightarrow> ClusterNode \<times> ClusterNode \<Rightarrow> bool" where
  "both_hold i st ab \<longleftrightarrow> status_of (fst ab) i = Some st \<and> status_of (snd ab) i = Some st"

lemma exchange_keeps_status:
  assumes "cluster_ok (fst ab)" and "cluster_ok (snd ab)" and "both_hold i st ab"
  shows "cluster_ok (fst (exchange_between ev ab)) \<and> cluster_ok (snd (exchange_between ev ab))
    \<and> both_hold i st (exchange_between ev ab)"
proof -
  obtain x y where x: "gossip_exchange (fst ev) (fst ab) (snd ab) = (x, y)" by (rule prod.exhaust)
  obtain u v where u: "gossip_exchange (fst ev) (snd ab) (fst ab) = (u, v)" by (rule prod.exhaust)
  show ?thesis
    using gossip_exchange_ok [OF assms(1,2) x] gossip_exchange_status [OF assms(1,2) x]
      gossip_exchange_ok [OF assms(2,1) u] gossip_exchange_status [OF assms(2,1) u] assms(3)
    by (simp add: exchange_between_def both_hold_def x u)
qed

lemma exchanges_keep_status:
  assumes "cluster_ok (fst ab)" and "cluster_ok (snd ab)" and "both_hold i st ab"
  shows "both_hold i st (fold exchange_between evs ab)"
  using assms
proof (induction evs arbitrary: ab)
  case (Cons ev evs)
  from exchange_keeps_status [OF Cons.prems, of ev] Cons.IH [of "exchange_between ev ab"] show ?case by simp
qed simp

text \<open>
  C36. A suspected node adopts the suspicion. If a suspects b, an exchange started by a leaves b
  with the status Suspect for itself, although b is alive and a has just heard of it, and both
  keep this status through any sequence of later exchanges between them, whoever starts them.
\<close>

theorem suspicion_adopted:
  assumes "cluster_ok a" and "cluster_ok b" and "gossip_exchange now a b = (a', b')"
    and "status_of a (node_id (local_node b)) = Some Suspect"
  shows "hm_get (last_heartbeat a') (node_id (local_node b)) = Some now
    \<and> both_hold (node_id (local_node b)) Suspect (fold exchange_between evs (a', b'))"
proof -
  have "hm_get (last_heartbeat a') (node_id (local_node b)) = Some now"
    using assms(3) by (auto simp: gossip_exchange_def merge_gossip_def Let_def)
  moreover have "both_hold (node_id (local_node b)) Suspect (a', b')"
    using gossip_exchange_status [OF assms] by (simp add: both_hold_def)
  ultimately show ?thesis using gossip_exchange_ok [OF assms(1-3)] by (simp add: exchanges_keep_status)
qed

lemma checks_keep_down:
  assumes "cluster_ok c" and "status_of c n = Some Down" and "lookup_actor c a = Some (n, ty)"
  shows "lookup_actor (fold cluster_step (map (\<lambda>(now, d). CheckFailures now d) checks) c) a = Some (n, ty)"
  using assms
proof (induction checks arbitrary: c)
  case (Cons x checks)
  obtain now d where x: "x = (now, d)" by (cases x)
  let ?c = "cluster_step (CheckFailures now d) c"
  have "status_of ?c n = Some Down \<and> lookup_actor ?c a = Some (n, ty)"
  proof (cases "failure_check now d c")
    case (Some c')
    have "status_of c' n = map_option (detected_status c now d n) (status_of c n)"
      by (rule failure_check_members [OF Cons.prems(1) Some]) simp
    then have "status_of c' n = Some Down"
      using Cons.prems(2) by (simp add: detected_status_def split: option.split)
    moreover have "lookup_actor c' a = Some (n, ty)"
      using failure_check_actors [OF Cons.prems(1) Some, of a] Cons.prems(2,3) by simp
    ultimately show ?thesis using Some by simp
  qed (use Cons.prems in simp)
  with Cons.IH [of ?c] cluster.inv_step [OF Cons.prems(1), of "CheckFailures now d"] x show ?case by simp
qed simp

text \<open>
  C37. The actors of a node that is already Down come back. Gossip that still lists an actor on
  a node marked Down puts it into the table again, and no number of failure checks removes it,
  because a check cleans up only after the nodes it marks Down itself.
\<close>

theorem down_actor_returns:
  assumes "cluster_ok c" and "status_of c n = Some Down"
    and "gossip = \<lparr>gossip_members = [], gossip_actors = [\<lparr>loc_actor_id = a, loc_node_id = n, loc_actor_type = ty\<rparr>]\<rparr>"
  shows "lookup_actor (fold cluster_step (map (\<lambda>(now, d). CheckFailures now d) checks)
      (merge_gossip gossip sender t c)) a = Some (n, ty)"
proof -
  let ?c = "merge_gossip gossip sender t c"
  have "cluster_ok ?c" using cluster.inv_step [OF assms(1), of "MergeGossip gossip sender t"] by simp
  moreover have "status_of ?c n = Some Down" "lookup_actor ?c a = Some (n, ty)"
    using assms by (simp_all add: merge_gossip_def status_of_def lookup_actor_def merge_actor_def)
  ultimately show ?thesis by (rule checks_keep_down)
qed

definition suspecting_cluster :: "NodeStatus \<Rightarrow> ClusterNode" where
  "suspecting_cluster st = add_member \<lparr>node_id = ''b'', node_addr = ''host'', node_status = st\<rparr> 0 (sample_cluster ''a'')"

lemma suspecting_cluster_ok: "cluster_ok (suspecting_cluster st)"
  using cluster.inv_step [OF ClusterNode_new_ok, of "AddMember \<lparr>node_id = ''b'', node_addr = ''host'', node_status = st\<rparr> 0"]
  by (simp add: suspecting_cluster_def sample_cluster_def)

lemma suspecting_cluster_status: "status_of (suspecting_cluster st) ''b'' = Some st"
  by (simp add: suspecting_cluster_def add_member_def status_of_def)

theorem suspicion_adopted_witness:
  "case gossip_exchange 5 (suspecting_cluster Suspect) (sample_cluster ''b'') of
     (a', b') \<Rightarrow> hm_get (last_heartbeat a') ''b'' = Some 5
       \<and> both_hold ''b'' Suspect (fold exchange_between [(6, True), (7, False)] (a', b'))"
proof -
  obtain a' b' where x: "gossip_exchange 5 (suspecting_cluster Suspect) (sample_cluster ''b'') = (a', b')"
    by (cases "gossip_exchange 5 (suspecting_cluster Suspect) (sample_cluster ''b'')")
  have "cluster_ok (sample_cluster ''b'')" "node_id (local_node (sample_cluster ''b'')) = ''b''"
    by (simp_all add: sample_cluster_def ClusterNode_new_ok) (simp add: ClusterNode_new_def Let_def)
  with suspicion_adopted [OF suspecting_cluster_ok _ x, of "[(6, True), (7, False)]"] suspecting_cluster_status x
  show ?thesis by (simp del: fold_simps)
qed

theorem down_actor_returns_witness:
  "lookup_actor (fold cluster_step (map (\<lambda>(now, d). CheckFailures now d) [(100, 1), (200, 1)])
     (merge_gossip \<lparr>gossip_members = [], gossip_actors = [\<lparr>loc_actor_id = ''kv'', loc_node_id = ''b'', loc_actor_type = ''Store''\<rparr>]\<rparr>
       ''c'' 50 (suspecting_cluster Down))) ''kv'' = Some (''b'', ''Store'')"
  by (rule down_actor_returns [OF suspecting_cluster_ok suspecting_cluster_status refl])

end
