(* ===== verification/Remote_Client.thy ===== *)
theory Remote_Client
  imports Wire Mailbox "HOL-Library.Multiset"
begin

text \<open>
  The client side of a connection: \<open>src/remote/client.rs\<close> (the task that multiplexes
  requests over one connection, and the calls that talk to it) and \<open>src/remote/addr.rs\<close>
  (typed remote addresses and correlation identifiers).
\<close>

section \<open>The client task\<close>

text \<open>A number stands for the oneshot sender of a waiting request.\<close>

datatype ClientCommand =
    ClientSend Envelope "nat option"
  | ClientClose

text \<open>
  \<open>answered\<close> and \<open>dropped\<close> record what became of the oneshot senders: a result sent, or
  dropped without one, which the waiting request sees as a closed channel.
\<close>

record 'c client_task =
  cl_conn :: "'c TcpConnection"
  pending :: "(u64, nat) hashmap"
  cl_open :: bool
  answered :: "(nat \<times> (TransportError + Envelope)) list"
  dropped :: "nat list"

datatype client_event =
    CommandReady ClientCommand
  | ConnReady

definition client_start :: "'c TcpConnection \<Rightarrow> 'c client_task" where
  "client_start conn = \<lparr>cl_conn = conn, pending = [], cl_open = True, answered = [], dropped = []\<rparr>"

definition client_track :: "u64 \<Rightarrow> nat \<Rightarrow> 'c client_task \<Rightarrow> 'c client_task" where
  "client_track cid tx st =
     st\<lparr>pending := hm_insert cid tx (pending st),
        dropped := dropped st @ (case hm_get (pending st) cid of None \<Rightarrow> [] | Some old \<Rightarrow> [old])\<rparr>"

definition client_resolve :: "u64 \<Rightarrow> TransportError + Envelope \<Rightarrow> 'c client_task \<Rightarrow> 'c client_task" where
  "client_resolve cid res st =
     (case hm_get (pending st) cid of
        None \<Rightarrow> st
      | Some tx \<Rightarrow> st\<lparr>pending := hm_remove cid (pending st), answered := answered st @ [(tx, res)]\<rparr>)"

text \<open>Leaving the loop drops the table of pending requests.\<close>

definition client_break :: "'c client_task \<Rightarrow> 'c client_task" where
  "client_break st = st\<lparr>cl_open := False, pending := [], dropped := dropped st @ hm_values (pending st)\<rparr>"

definition client_send_command ::
    "'c network \<Rightarrow> Envelope \<Rightarrow> nat option \<Rightarrow> 'c client_task \<Rightarrow> 'c client_task" where
  "client_send_command N e tx_opt st =
     (let cid = correlation_id e;
          st1 = (case tx_opt of None \<Rightarrow> st | Some tx \<Rightarrow> client_track cid tx st)
      in (case TcpConnection_send N e (cl_conn st1) of
            (Inr _, conn) \<Rightarrow> st1\<lparr>cl_conn := conn\<rparr>
          | (Inl err, conn) \<Rightarrow> client_resolve cid (Inl err) (st1\<lparr>cl_conn := conn\<rparr>)))"

definition client_receive :: "'c network \<Rightarrow> 'c client_task \<Rightarrow> 'c client_task" where
  "client_receive N st =
     (case TcpConnection_recv N (cl_conn st) of
        (Inr e, conn) \<Rightarrow>
          if is_response e then client_resolve (correlation_id e) (Inr e) (st\<lparr>cl_conn := conn\<rparr>)
          else st\<lparr>cl_conn := conn\<rparr>
      | (Inl Disconnected, conn) \<Rightarrow> client_break (st\<lparr>cl_conn := conn\<rparr>)
      | (Inl _, conn) \<Rightarrow> st\<lparr>cl_conn := conn\<rparr>)"

text \<open>
  One iteration of the loop, for the arm that is ready. A command that reaches a task which has
  left its loop is dropped with the sender it carries.
\<close>

fun client_step :: "'c network \<Rightarrow> client_event \<Rightarrow> 'c client_task \<Rightarrow> 'c client_task" where
  "client_step N (CommandReady (ClientSend e tx)) st =
     (if cl_open st then client_send_command N e tx st
      else st\<lparr>dropped := dropped st @ (case tx of None \<Rightarrow> [] | Some tx \<Rightarrow> [tx])\<rparr>)"
| "client_step N (CommandReady ClientClose) st = (if cl_open st then client_break st else st)"
| "client_step N ConnReady st = (if cl_open st then client_receive N st else st)"

section \<open>The calls\<close>

text \<open>
  The calls put a command into the client's channel (capacity 32, the parameter M of the
  mailboxes) and, for a request, wait for the answer. A poll returns None while it waits.
\<close>

record 'q RemoteClient =
  cmd_tx :: 'q
  client_local_addr :: string

definition RemoteClient_new ::
    "('q, ClientCommand) mpsc \<Rightarrow> 'c TcpConnection \<Rightarrow> ('q RemoteClient \<times> 'c client_task) option" where
  "RemoteClient_new M conn =
     (case mpsc_channel M 32 of
        None \<Rightarrow> None
      | Some q \<Rightarrow> Some (\<lparr>cmd_tx = q, client_local_addr = conn_local_addr conn\<rparr>, client_start conn))"

definition client_command_poll ::
    "('q, ClientCommand) mpsc \<Rightarrow> ClientCommand \<Rightarrow> 'q RemoteClient
      \<Rightarrow> (TransportError + unit) option \<times> 'q RemoteClient" where
  "client_command_poll M cmd cl =
     (case mpsc_send M cmd (cmd_tx cl) of
        (r, q) \<Rightarrow> (map_option (\<lambda>ok. if ok then Inr () else Inl Disconnected) r, cl\<lparr>cmd_tx := q\<rparr>))"

definition RemoteClient_do_send ::
    "('q, ClientCommand) mpsc \<Rightarrow> Envelope \<Rightarrow> 'q RemoteClient
      \<Rightarrow> (TransportError + unit) option \<times> 'q RemoteClient" where
  "RemoteClient_do_send M e cl = client_command_poll M (ClientSend e None) cl"

text \<open>What the receiver of the oneshot channel tx sees.\<close>

definition client_rx :: "'c client_task \<Rightarrow> nat \<Rightarrow> (TransportError + Envelope) option option" where
  "client_rx st tx =
     (case map_of (answered st) tx of
        Some r \<Rightarrow> Some (Some r)
      | None \<Rightarrow> if tx \<in> set (dropped st) then Some None else None)"

datatype client_request = CommandQueued Envelope nat | ResponseAwaited nat

fun map_response :: "(TransportError + Envelope) option option \<Rightarrow> (TransportError + Envelope) option" where
  "map_response None = None"
| "map_response (Some None) = Some (Inl Disconnected)"
| "map_response (Some (Some r)) = Some r"

fun RemoteClient_send_poll ::
    "('q, ClientCommand) mpsc \<Rightarrow> 'c client_task \<Rightarrow> client_request \<Rightarrow> 'q RemoteClient
      \<Rightarrow> (TransportError + Envelope) option \<times> client_request \<times> 'q RemoteClient" where
  "RemoteClient_send_poll M st (CommandQueued e tx) cl =
     (case client_command_poll M (ClientSend e (Some tx)) cl of
        (None, cl') \<Rightarrow> (None, CommandQueued e tx, cl')
      | (Some (Inl err), cl') \<Rightarrow> (Some (Inl err), ResponseAwaited tx, cl')
      | (Some (Inr _), cl') \<Rightarrow> (map_response (client_rx st tx), ResponseAwaited tx, cl'))"
| "RemoteClient_send_poll M st (ResponseAwaited tx) cl =
     (map_response (client_rx st tx), ResponseAwaited tx, cl)"

definition RemoteClient_send_timeout_poll ::
    "('q, ClientCommand) mpsc \<Rightarrow> 'c client_task \<Rightarrow> bool \<Rightarrow> client_request \<Rightarrow> 'q RemoteClient
      \<Rightarrow> (TransportError + Envelope) option \<times> client_request \<times> 'q RemoteClient" where
  "RemoteClient_send_timeout_poll M st elapsed req cl =
     (case RemoteClient_send_poll M st req cl of
        (None, req', cl') \<Rightarrow> (if elapsed then Some (Inl TimedOut) else None, req', cl')
      | done \<Rightarrow> done)"

text \<open>
  Unlike the timeout of a local request, the one of a remote request covers the wait for the
  command channel too: once it has elapsed, a poll always has a result.
\<close>

lemma remote_timeout_bounds_all: "fst (RemoteClient_send_timeout_poll M st True req cl) \<noteq> None"
  by (auto simp: RemoteClient_send_timeout_poll_def split: prod.split option.split)

section \<open>Remote addresses\<close>

definition CORRELATION_ID :: u64 where
  "CORRELATION_ID = 1"

definition next_correlation_id :: "u64 \<Rightarrow> u64 \<times> u64" where
  "next_correlation_id counter = fetch_add 1 counter"

interpretation correlation_ids: id_source next_correlation_id "\<lambda>i. i"
  by unfold_locales (simp_all add: next_correlation_id_def fetch_add_def)

datatype NodeId = NodeId string

primrec node_name :: "NodeId \<Rightarrow> string" where
  "node_name (NodeId s) = s"

record RemoteActorId =
  ra_node :: NodeId
  ra_actor_name :: string

record 'q RemoteAddr =
  ra_id :: RemoteActorId
  ra_local_node :: NodeId
  ra_client :: "'q RemoteClient"

definition RemoteAddr_new :: "string \<Rightarrow> string \<Rightarrow> string \<Rightarrow> 'q RemoteClient \<Rightarrow> 'q RemoteAddr" where
  "RemoteAddr_new local_node_id remote_node_id actor_name client =
     \<lparr>ra_id = \<lparr>ra_node = NodeId remote_node_id, ra_actor_name = actor_name\<rparr>,
      ra_local_node = NodeId local_node_id, ra_client = client\<rparr>"

definition RemoteClient_remote_addr :: "'q RemoteClient \<Rightarrow> string \<Rightarrow> string \<Rightarrow> 'q RemoteAddr" where
  "RemoteClient_remote_addr cl remote_node actor_name =
     RemoteAddr_new (client_local_addr cl) remote_node actor_name cl"

text \<open>
  \<open>do_send\<close> and \<open>send\<close> build the envelope with the next correlation identifier (a panic
  of the encoder is None) and hand it to the client; \<open>tx\<close> is the fresh oneshot channel of the
  request.
\<close>

definition RemoteAddr_envelope ::
    "'x RemoteMessage \<Rightarrow> 'q RemoteAddr \<Rightarrow> 'x \<Rightarrow> u64 \<Rightarrow> (Envelope \<times> u64) option" where
  "RemoteAddr_envelope R addr m counter =
     (case next_correlation_id counter of
        (cid, counter') \<Rightarrow>
          (case Envelope_from_message R m cid (node_name (ra_local_node addr)) (ra_actor_name (ra_id addr)) of
             None \<Rightarrow> None
           | Some e \<Rightarrow> Some (e, counter')))"

definition RemoteAddr_do_send ::
    "('q, ClientCommand) mpsc \<Rightarrow> 'x RemoteMessage \<Rightarrow> 'q RemoteAddr \<Rightarrow> 'x \<Rightarrow> u64
      \<Rightarrow> ((TransportError + unit) option \<times> 'q RemoteClient \<times> u64) option" where
  "RemoteAddr_do_send M R addr m counter =
     (case RemoteAddr_envelope R addr m counter of
        None \<Rightarrow> None
      | Some (e, counter') \<Rightarrow>
          (case RemoteClient_do_send M e (ra_client addr) of (r, cl) \<Rightarrow> Some (r, cl, counter')))"

definition RemoteAddr_send ::
    "'x RemoteMessage \<Rightarrow> 'q RemoteAddr \<Rightarrow> 'x \<Rightarrow> nat \<Rightarrow> u64 \<Rightarrow> (client_request \<times> u64) option" where
  "RemoteAddr_send R addr m tx counter =
     (case RemoteAddr_envelope R addr m counter of
        None \<Rightarrow> None
      | Some (e, counter') \<Rightarrow> Some (CommandQueued e tx, counter'))"

section \<open>Where every request ends up\<close>

lemma hm_values_insert:
  "hm_get t k = None \<Longrightarrow> mset (hm_values (hm_insert k v t)) = add_mset v (mset (hm_values t))"
  "hm_get t k = Some old \<Longrightarrow>
     add_mset old (mset (hm_values (hm_insert k v t))) = add_mset v (mset (hm_values t))"
  by (induction t) (auto simp: hm_get_def hm_values_def hm_insert_def split: if_splits)

lemma hm_values_remove:
  assumes "hm_wf t" "hm_get t k = Some v"
  shows "mset (hm_values t) = add_mset v (mset (hm_values (hm_remove k t)))"
  using assms
proof (induction t)
  case (Cons kv t)
  have "AList.delete k t = t" if "k \<notin> fst ` set t" using that by (simp add: delete_idem)
  with Cons show ?case
    by (cases kv) (auto simp: hm_wf_def hm_get_def hm_values_def hm_remove_def split: if_splits)
qed (simp add: hm_get_def)

fun request_of :: "client_event \<Rightarrow> (Envelope \<times> nat) list" where
  "request_of (CommandReady (ClientSend e (Some tx))) = [(e, tx)]"
| "request_of _ = []"

definition requests :: "client_event list \<Rightarrow> (Envelope \<times> nat) list" where
  "requests evs = concat (map request_of evs)"

text \<open>
  The books of a client: every request made so far is in exactly one place (waiting, answered
  or dropped), a waiting entry is filed under its request's correlation identifier, and an
  answer that is an envelope is a response with that identifier.
\<close>

definition answer_ok :: "(Envelope \<times> nat) list \<Rightarrow> nat \<times> (TransportError + Envelope) \<Rightarrow> bool" where
  "answer_ok rs a \<longleftrightarrow> (\<exists>e. (e, fst a) \<in> set rs \<and>
     (case snd a of Inl _ \<Rightarrow> True | Inr resp \<Rightarrow> is_response resp \<and> correlation_id resp = correlation_id e))"

definition client_ok :: "(Envelope \<times> nat) list \<Rightarrow> 'c client_task \<Rightarrow> bool" where
  "client_ok rs st \<longleftrightarrow> hm_wf (pending st) \<and> (cl_open st \<or> pending st = []) \<and>
     (\<forall>cid tx. hm_get (pending st) cid = Some tx \<longrightarrow> (\<exists>e. (e, tx) \<in> set rs \<and> correlation_id e = cid)) \<and>
     list_all (answer_ok rs) (answered st) \<and>
     mset (map snd rs) = mset (map fst (answered st)) + mset (dropped st) + mset (hm_values (pending st))"

lemma answer_ok_more: "answer_ok rs a \<Longrightarrow> answer_ok (rs @ rs') a"
  by (auto simp: answer_ok_def)

lemma client_ok_conn [simp]: "client_ok rs (st\<lparr>cl_conn := conn\<rparr>) = client_ok rs st"
  by (simp add: client_ok_def)

lemma client_track_ok:
  assumes "client_ok rs st" "cl_open st"
  shows "client_ok (rs @ [(e, tx)]) (client_track (correlation_id e) tx st)"
proof -
  have "list_all (answer_ok (rs @ [(e, tx)])) (answered st)"
    using assms(1) by (auto simp: client_ok_def list_all_iff answer_ok_more)
  then show ?thesis
    using assms hm_values_insert [of "pending st" "correlation_id e"]
    by (cases "hm_get (pending st) (correlation_id e)")
      (fastforce simp: client_ok_def client_track_def)+
qed

lemma client_resolve_ok:
  assumes "client_ok rs st" "cl_open st"
    and "\<And>resp. res = Inr resp \<Longrightarrow> is_response resp \<and> correlation_id resp = cid"
  shows "client_ok rs (client_resolve cid res st)"
proof (cases "hm_get (pending st) cid")
  case (Some tx)
  then obtain e where "(e, tx) \<in> set rs" "correlation_id e = cid"
    using assms(1) by (auto simp: client_ok_def)
  then have "answer_ok rs (tx, res)"
    using assms(3) by (cases res) (auto simp: answer_ok_def)
  with Some assms(1,2) hm_values_remove [of "pending st" cid tx] show ?thesis
    by (auto simp: client_ok_def client_resolve_def)
qed (use assms in \<open>simp add: client_resolve_def\<close>)

lemma client_break_ok: "client_ok rs st \<Longrightarrow> client_ok rs (client_break st)"
  by (simp add: client_ok_def client_break_def hm_values_def)

lemma client_ok_more:
  assumes "client_ok rs st" "\<not> cl_open st"
  shows "client_ok (rs @ [(e, tx)]) (st\<lparr>dropped := dropped st @ [tx]\<rparr>)"
  using assms by (fastforce simp: client_ok_def list_all_iff answer_ok_more)

lemma client_track_open [simp]: "cl_open (client_track cid tx st) = cl_open st"
  by (simp add: client_track_def)

lemma client_send_command_ok:
  assumes "client_ok rs st" "cl_open st"
  shows "client_ok (rs @ (case tx of None \<Rightarrow> [] | Some tx \<Rightarrow> [(e, tx)])) (client_send_command N e tx st)"
proof -
  let ?st = "case tx of None \<Rightarrow> st | Some tx \<Rightarrow> client_track (correlation_id e) tx st"
  have "client_ok (rs @ (case tx of None \<Rightarrow> [] | Some tx \<Rightarrow> [(e, tx)])) ?st" "cl_open ?st"
    using assms client_track_ok by (auto split: option.split)
  then show ?thesis
    by (auto simp: client_send_command_def Let_def intro!: client_resolve_ok split: prod.split sum.split)
qed

lemma client_receive_ok:
  assumes "client_ok rs st" "cl_open st"
  shows "client_ok rs (client_receive N st)"
proof -
  obtain r conn where r: "TcpConnection_recv N (cl_conn st) = (r, conn)"
    by (cases "TcpConnection_recv N (cl_conn st)")
  show ?thesis
  proof (cases r)
    case (Inl err)
    with r assms show ?thesis by (cases err) (simp_all add: client_receive_def client_break_ok)
  next
    case (Inr e)
    with r assms show ?thesis by (auto simp: client_receive_def intro!: client_resolve_ok)
  qed
qed

lemma client_step_ok: "client_ok rs st \<Longrightarrow> client_ok (rs @ request_of ev) (client_step N ev st)"
proof (induction N ev st rule: client_step.induct)
  case (1 N e tx st)
  then show ?case
    using client_send_command_ok [where tx = tx and e = e and N = N and rs = rs and st = st] client_ok_more [of rs st e] by (cases tx) auto
qed (simp_all add: client_break_ok client_receive_ok)

interpretation client: task "\<lambda>ev (rs, st). (rs @ request_of ev, client_step N ev st)" "\<lambda>(rs, st). client_ok rs st" for N
  by unfold_locales (auto intro: client_step_ok)

lemma client_run_pair:
  "fold (\<lambda>ev (rs, st). (rs @ request_of ev, client_step N ev st)) evs (rs, st)
     = (rs @ requests evs, fold (client_step N) evs st)"
  by (induction evs arbitrary: rs st) (simp_all add: requests_def)

lemma client_start_ok: "client_ok [] (client_start conn)"
  by (simp add: client_ok_def client_start_def hm_values_def)

lemma client_run_ok: "client_ok (requests evs) (fold (client_step N) evs (client_start conn))"
  using client.inv_run [of "([], client_start conn)" N evs] client_run_pair [of N evs "[]" "client_start conn"]
    client_start_ok [of conn] by simp

text \<open>
  C6. Every request is accounted for. Over any sequence of commands and arriving envelopes,
  every request the client was given is in exactly one place: waiting, answered once, or
  dropped once, and none is left waiting once the task has ended. Whenever a request is answered
  with an envelope, that envelope is a response that carries the correlation identifier of a
  request sent with that very channel.
\<close>

theorem client_requests_accounted:
  "let st = fold (client_step N) evs (client_start conn) in
     mset (map snd (requests evs)) = mset (map fst (answered st)) + mset (dropped st) + mset (hm_values (pending st))
     \<and> (cl_open st \<or> pending st = [])
     \<and> list_all (answer_ok (requests evs)) (answered st)"
  using client_run_ok [of evs N conn] by (simp add: client_ok_def Let_def)

text \<open>
  A matching response reaches its request. If the table holds a request under the
  correlation identifier of an arriving response, that request gets this response and leaves the
  table, and no other request is touched.
\<close>

lemma client_response_delivered:
  assumes "cl_open st" and "hm_get (pending st) cid = Some tx" and "hm_wf (pending st)"
    and "TcpConnection_recv N (cl_conn st) = (Inr e, conn)" and "is_response e" and "correlation_id e = cid"
  shows "answered (client_step N ConnReady st) = answered st @ [(tx, Inr e)]
    \<and> hm_get (pending (client_step N ConnReady st)) = (hm_get (pending st))(cid := None)
    \<and> dropped (client_step N ConnReady st) = dropped st"
  using assms by (simp add: client_receive_def client_resolve_def)

text \<open>
  Two requests must not share a correlation identifier. If a second request is tracked
  under the identifier of one that still waits, the first is dropped, and the response to
  whichever comes back first is handed to the second.
\<close>

lemma correlation_collision:
  assumes "cl_open st" and "hm_wf (pending st)" and "hm_get (pending st) (correlation_id e1) = None"
    and "correlation_id e2 = correlation_id e1"
    and "TcpConnection_send N e1 (cl_conn st) = (Inr (), conn1)"
    and "TcpConnection_send N e2 conn1 = (Inr (), conn2)"
    and "TcpConnection_recv N conn2 = (Inr r, conn3)" and "is_response r" and "correlation_id r = correlation_id e1"
  shows "let st' = fold (client_step N) [CommandReady (ClientSend e1 (Some tx1)), CommandReady (ClientSend e2 (Some tx2)), ConnReady] st
    in dropped st' = dropped st @ [tx1] \<and> answered st' = answered st @ [(tx2, Inr r)]"
  using assms
  by (simp add: client_send_command_def client_track_def client_receive_def client_resolve_def Let_def)

section \<open>Distinct identifiers lose nothing\<close>

abbreviation request_ids :: "client_event list \<Rightarrow> u64 list" where
  "request_ids evs \<equiv> map (correlation_id \<circ> fst) (requests evs)"

lemma client_resolve_keeps [simp]:
  "dropped (client_resolve cid res st) = dropped st" "cl_open (client_resolve cid res st) = cl_open st"
  by (simp_all add: client_resolve_def split: option.split)

lemma client_receive_dropped:
  assumes "cl_open (client_receive N st)"
  shows "dropped (client_receive N st) = dropped st \<and> cl_open st"
proof -
  obtain r conn where r: "TcpConnection_recv N (cl_conn st) = (r, conn)"
    by (cases "TcpConnection_recv N (cl_conn st)")
  show ?thesis
  proof (cases r)
    case (Inl err)
    with r assms show ?thesis by (cases err) (simp_all add: client_receive_def client_break_def)
  next
    case (Inr e)
    with r assms show ?thesis by (auto simp: client_receive_def split: if_splits)
  qed
qed

lemma client_send_command_dropped:
  assumes "tx \<noteq> None \<Longrightarrow> hm_get (pending st) (correlation_id e) = None"
  shows "dropped (client_send_command N e tx st) = dropped st"
    and "cl_open (client_send_command N e tx st) = cl_open st"
  using assms
  by (auto simp: client_send_command_def client_track_def Let_def split: prod.split sum.split option.split)

lemma client_step_dropped:
  assumes "client_ok rs st" and "distinct (map (correlation_id \<circ> fst) (rs @ request_of ev))"
    and "cl_open (client_step N ev st)"
  shows "dropped (client_step N ev st) = dropped st \<and> cl_open st"
  using assms
proof (induction N ev st rule: client_step.induct)
  case (1 N e tx st)
  have "hm_get (pending st) (correlation_id e) = None" if "tx \<noteq> None"
  proof (rule ccontr)
    assume "hm_get (pending st) (correlation_id e) \<noteq> None"
    then obtain e' tx' where "(e', tx') \<in> set rs" "correlation_id e' = correlation_id e"
      using 1(1) unfolding client_ok_def by blast
    then have "correlation_id e \<in> (correlation_id \<circ> fst) ` set rs" by force
    with 1(2) that show False by auto
  qed
  with client_send_command_dropped [of tx st e N] 1(3) show ?case by (auto split: if_splits)
next
  case (2 N st)
  then show ?case by (auto simp: client_break_def split: if_splits)
next
  case (3 N st)
  then show ?case using client_receive_dropped by (auto split: if_splits)
qed

text \<open>
  C24. With distinct correlation identifiers nothing is lost. If all requests made on a
  connection carry different identifiers, no request is dropped as long as the client task
  runs: each is answered or still waits.
\<close>

theorem distinct_requests_kept:
  assumes "distinct (request_ids evs)"
    and "cl_open (fold (client_step N) evs (client_start conn))"
  shows "dropped (fold (client_step N) evs (client_start conn)) = []"
  using assms
proof (induction evs rule: rev_induct)
  case (snoc ev evs)
  note st = client_step_dropped [OF client_run_ok [of evs N conn], of ev N]
  have "distinct (map (correlation_id \<circ> fst) (requests evs @ request_of ev))"
    using snoc.prems(1) by (simp add: requests_def o_def)
  with st snoc.prems(2) have "dropped (client_step N ev (fold (client_step N) evs (client_start conn)))
      = dropped (fold (client_step N) evs (client_start conn))" "cl_open (fold (client_step N) evs (client_start conn))"
    by simp_all
  with snoc.IH snoc.prems(1) show ?case by (simp add: requests_def o_def)
qed (simp add: client_start_def)

section \<open>Witnesses\<close>

text \<open>A network that accepts every envelope and delivers a scripted list of responses.\<close>

definition scripted_network :: "Envelope list network" where
  "scripted_network =
     \<lparr>sink_send = (\<lambda>e c. (None, c)),
      stream_next = (\<lambda>c. case c of [] \<Rightarrow> (None, []) | e # es \<Rightarrow> (Some (Inr e), es)),
      sink_close = (\<lambda>c. (None, c)), dial = (\<lambda>a. Inr []), local_name = (\<lambda>c. Some ''me'')\<rparr>"

definition ask :: "u64 \<Rightarrow> Envelope" where
  "ask cid = (bare [])\<lparr>correlation_id := cid\<rparr>"

definition reply :: "u64 \<Rightarrow> Envelope" where
  "reply cid = (bare [])\<lparr>correlation_id := cid, is_response := True\<rparr>"

definition scripted_client :: "Envelope list \<Rightarrow> Envelope list client_task" where
  "scripted_client es = client_start (TcpConnection_new scripted_network es)"

lemmas scripted_defs = scripted_client_def scripted_network_def ask_def reply_def bare_def client_start_def
  TcpConnection_new_def TcpConnection_send_def TcpConnection_recv_def

theorem distinct_requests_kept_witness:
  "dropped (fold (client_step scripted_network)
     [CommandReady (ClientSend (ask 1) (Some 1)), CommandReady (ClientSend (ask 2) (Some 2)), ConnReady] (scripted_client [reply 2])) = []"
  unfolding scripted_client_def
  by (rule distinct_requests_kept)
    (simp_all add: requests_def client_send_command_def client_track_def client_receive_def client_resolve_def scripted_defs)

end
