(* ===== verification/Local_Call.thy ===== *)
theory Local_Call
  imports Actor_System
begin

text \<open>
  A request to a local actor from end to end: \<open>Addr::send\<close> in \<open>src/address.rs\<close> puts
  the envelope into the mailbox, the actor's task in \<open>src/system.rs\<close> handles it, and the
  oneshot channel of \<open>src/envelope.rs\<close> brings the result back.
\<close>

section \<open>Waiting for the answer\<close>

text \<open>
  What the receiver of a oneshot channel finds, given what the actor's task has sent: once the
  task is over, an envelope it did not answer has been dropped and the sending half with it.
\<close>

fun sent_on :: "nat \<Rightarrow> ('m, 'r) call list \<Rightarrow> 'r list" where
  "sent_on tx [] = []"
| "sent_on tx (OneshotSend tx' r # cs) = (if tx' = tx then r # sent_on tx cs else sent_on tx cs)"
| "sent_on tx (c # cs) = sent_on tx cs"

definition oneshot_rx :: "('a, 'm, 'st, 'r, 'q) actor_task \<Rightarrow> nat \<Rightarrow> 'r option option" where
  "oneshot_rx t tx =
     (case sent_on tx (log (task_cell t)) of
        [] \<Rightarrow> if actor_over t then Some None else None
      | r # rs \<Rightarrow> Some (Some r))"

lemma sent_on_append [simp]: "sent_on tx (cs @ ds) = sent_on tx cs @ sent_on tx ds"
  by (induction cs rule: sent_on.induct [of _ tx]) simp_all

lemma sent_on_api [simp]: "list_all api_call us \<Longrightarrow> sent_on tx us = []"
  by (induction us rule: sent_on.induct [of _ tx]) simp_all

text \<open>
  The caller starts a request and polls it, the actor's task is polled, and the caller polls
  again; the result is None if the request still waits then.
\<close>

definition ask_actor ::
    "('q, 'm) channel \<Rightarrow> ('a, 'm, 'st, 'r, 'i) behaviour \<Rightarrow> ('st, 'i) stream_source \<Rightarrow> signals \<Rightarrow> 'm message
      \<Rightarrow> ('a, 'm, 'st, 'r, 'q) actor_task \<Rightarrow> (MailboxError + 'r) option \<times> ('a, 'm, 'st, 'r, 'q) actor_task" where
  "ask_actor M B spoll sig m t =
     (let addr = ctx_addr (ctx (task_cell t)) in
      case Addr_send_start m (shared (task_cell t)) of
        (req, w) \<Rightarrow>
          (case Addr_send_poll M addr (oneshot_rx t) req w of
             (Some r, req', w') \<Rightarrow> (Some r, actor_step M B spoll (Interfere (\<lambda>_. w')) t)
           | (None, req', w') \<Rightarrow>
               (let t' = actor_step M B spoll (Poll sig) (actor_step M B spoll (Interfere (\<lambda>_. w')) t)
                in (fst (Addr_send_poll M addr (oneshot_rx t') req' (shared (task_cell t'))), t'))))"

text \<open>A handler that returns r for the message m, whatever the rest of the cell looks like.\<close>

definition handler_returns ::
    "('q, 'm) channel \<Rightarrow> ('a, 'm, 'st, 'r, 'i) behaviour \<Rightarrow> 'm message \<Rightarrow> ('a, 'm, 'st, 'r, 'q) cell \<Rightarrow> 'r \<Rightarrow> bool" where
  "handler_returns M B m s r \<longleftrightarrow>
     (\<forall>s' :: ('a, 'm, 'st, 'r, 'q) cell. actor s' = actor s \<longrightarrow> fst (exec M (handle B m (actor s)) s') = Some r)"

lemma actor_step_request:
  assumes "mpsc_laws M contents cap live"
    and "contents (mailbox (shared s) (addr_id (ctx_addr (ctx s)))) = [Sync (MessageEnvelope_with_response m tx)]"
    and "handler_returns M B m s r"
  shows "\<exists>streams' s' us. actor_step M B spoll (Poll sig) (ActorRunning head streams s) = ActorRunning True streams' s'
    \<and> log s' = log s @ HandleCalled m # us @ [OneshotSend tx r] \<and> list_all api_call us"
proof -
  let ?self = "addr_id (ctx_addr (ctx s))" and ?x = "Sync (MessageEnvelope_with_response m tx)"
  obtain streams1 s1 where c: "collect_streams head streams s = (streams1, s1)"
    by (cases "collect_streams head streams s")
  note f = collect_streams_cases [OF c]
  have self: "addr_id (ctx_addr (ctx s1)) = ?self" using f(2) by (simp add: same_identity_def)
  obtain rr q where q: "mpsc_recv M (mailbox (shared s) ?self) = (rr, q)"
    by (cases "mpsc_recv M (mailbox (shared s) ?self)")
  with mpsc_recvD [OF assms(1) q] assms(2) have rr: "rr = Some (Some ?x)"
    by (simp add: recv_law_def)
  let ?s2 = "s1\<lparr>shared := set_mailbox ?self q (shared s1)\<rparr>"
  obtain res s3 where e: "exec M (handle B m (actor ?s2)) (emit (HandleCalled m) ?s2) = (res, s3)"
    by (cases "exec M (handle B m (actor ?s2)) (emit (HandleCalled m) ?s2)")
  have "actor (emit (HandleCalled m) ?s2) = actor s" using f(4) by simp
  with assms(3) have "fst (exec M (handle B m (actor s)) (emit (HandleCalled m) ?s2)) = Some r"
    unfolding handler_returns_def by blast
  with e f(4) have res: "res = Some r" by simp
  obtain us where us: "log s3 = log s @ [HandleCalled m] @ us" "list_all api_call us"
    using exec_log [OF e] f(1) by auto
  have "ActorMessage_handle M B ?x ?s2 = (Some (), emit (OneshotSend tx r) s3)"
    using e res by (simp add: ActorMessage_handle_eq MessageEnvelope_with_response_def)
  then have "actor_step M B spoll (Poll sig) (ActorRunning head streams s)
      = ActorRunning True streams1 (emit (OneshotSend tx r) s3)"
    using q rr f(3) by (simp add: actor_step_running [OF c] actor_select_def self del: actor_step.simps)
  with us show ?thesis by auto
qed

text \<open>
  A request is answered. If a running actor's mailbox is open and empty and its handler
  returns r for the message, then a caller that sends the request, lets the actor's task be
  polled once and polls again has r, whatever signals are pending, and the actor goes on
  running.
\<close>

lemma local_request_answer:
  assumes "mpsc_laws M contents cap live"
    and "contents (mailbox (shared s) (addr_id (ctx_addr (ctx s)))) = []"
    and "0 < cap (mailbox (shared s) (addr_id (ctx_addr (ctx s))))"
    and "live (mailbox (shared s) (addr_id (ctx_addr (ctx s))))"
    and "sent_on (next_oneshot (shared s)) (log s) = []"
    and "handler_returns M B m s r"
  shows "\<exists>streams' s'. ask_actor M B spoll sig m (ActorRunning head streams s)
    = (Some (Inr r), ActorRunning True streams' s')"
proof -
  let ?self = "addr_id (ctx_addr (ctx s))" and ?tx = "next_oneshot (shared s)"
  let ?x = "Sync (MessageEnvelope_with_response m ?tx)" and ?w = "(shared s)\<lparr>next_oneshot := Suc ?tx\<rparr>"
  obtain sr q where sr: "mpsc_send M ?x (mailbox (shared s) ?self) = (sr, q)"
    by (cases "mpsc_send M ?x (mailbox (shared s) ?self)")
  have ok: "sr = Some True" "contents q = [?x]"
    using mpsc_sendD [OF assms(1) sr] assms(2-4) by (simp_all add: send_law_def)
  let ?s = "s\<lparr>shared := set_mailbox ?self q ?w\<rparr>"
  have sent: "Addr_send_poll M (ctx_addr (ctx s)) (oneshot_rx (ActorRunning head streams s)) (Enqueueing ?x ?tx) ?w
      = (None, Awaiting ?tx, set_mailbox ?self q ?w)"
    using sr ok(1) assms(5) by (simp add: enqueue_poll_def oneshot_rx_def)
  have "contents (mailbox (shared ?s) (addr_id (ctx_addr (ctx ?s)))) = [?x]"
    using ok(2) by (simp add: set_mailbox_def)
  moreover have "handler_returns M B m ?s r" using assms(6) by (simp add: handler_returns_def)
  ultimately obtain streams' s' us
    where step: "actor_step M B spoll (Poll sig) (ActorRunning head streams ?s) = ActorRunning True streams' s'"
      and log: "log s' = log s @ HandleCalled m # us @ [OneshotSend ?tx r]" "list_all api_call us"
    using actor_step_request [OF assms(1), of ?s m ?tx B r spoll sig head streams] by auto
  have "oneshot_rx (ActorRunning True streams' s') ?tx = Some (Some r)"
    using log assms(5) by (simp add: oneshot_rx_def)
  with step sent show ?thesis
    by (simp add: ask_actor_def Addr_send_start_def Let_def del: actor_step.simps(2))
qed

section \<open>An actor behaves like an object\<close>

text \<open>
  A handler without calls of the context turns the actor's state and a message into a new state
  and a reply. \<open>object_run\<close> is the sequential object with these transitions.
\<close>

definition pure_handler :: "('a, 'm, 'st, 'r, 'i) behaviour \<Rightarrow> ('m \<Rightarrow> 'a \<Rightarrow> 'a \<times> 'r) \<Rightarrow> bool" where
  "pure_handler B f \<longleftrightarrow> (\<forall>m a. handle B (User m) a = Ret (fst (f m a)) (snd (f m a)))"

fun object_run :: "('m \<Rightarrow> 'a \<Rightarrow> 'a \<times> 'r) \<Rightarrow> 'm list \<Rightarrow> 'a \<Rightarrow> 'r list \<times> 'a" where
  "object_run f [] a = ([], a)"
| "object_run f (m # ms) a =
     (case f m a of (a', r) \<Rightarrow> (case object_run f ms a' of (rs, a'') \<Rightarrow> (r # rs, a'')))"

fun ask_all ::
    "('q, 'm) channel \<Rightarrow> ('a, 'm, 'st, 'r, 'i) behaviour \<Rightarrow> ('st, 'i) stream_source \<Rightarrow> signals \<Rightarrow> 'm list
      \<Rightarrow> ('a, 'm, 'st, 'r, 'q) actor_task \<Rightarrow> (MailboxError + 'r) option list \<times> ('a, 'm, 'st, 'r, 'q) actor_task" where
  "ask_all M B spoll sig [] t = ([], t)"
| "ask_all M B spoll sig (m # ms) t =
     (case ask_actor M B spoll sig (User m) t of
        (r, t') \<Rightarrow> (case ask_all M B spoll sig ms t' of (rs, t'') \<Rightarrow> (r # rs, t'')))"

text \<open>A running actor in state a with an open, empty mailbox and unused channels for its answers.\<close>

definition idle ::
    "('q \<Rightarrow> 'm ActorMessage list) \<Rightarrow> ('q \<Rightarrow> nat) \<Rightarrow> ('q \<Rightarrow> bool) \<Rightarrow> ('a, 'm, 'st, 'r, 'q) actor_task \<Rightarrow> 'a \<Rightarrow> bool" where
  "idle contents cap live t a \<longleftrightarrow>
     (\<exists>head streams s. t = ActorRunning head streams s \<and> actor s = a \<and>
        contents (mailbox (shared s) (addr_id (ctx_addr (ctx s)))) = [] \<and>
        0 < cap (mailbox (shared s) (addr_id (ctx_addr (ctx s)))) \<and>
        live (mailbox (shared s) (addr_id (ctx_addr (ctx s)))) \<and>
        (\<forall>tx \<ge> next_oneshot (shared s). sent_on tx (log s) = []))"

lemma actor_step_pure:
  assumes "mpsc_laws M contents cap live" and "pure_handler B f"
    and "contents (mailbox (shared s) (addr_id (ctx_addr (ctx s)))) = [Sync (MessageEnvelope_with_response (User m) tx)]"
  shows "\<exists>streams' s' q. actor_step M B spoll (Poll sig) (ActorRunning head streams s) = ActorRunning True streams' s'
    \<and> actor s' = fst (f m (actor s)) \<and> same_identity (ctx s) (ctx s')
    \<and> shared s' = set_mailbox (addr_id (ctx_addr (ctx s))) q (shared s)
    \<and> contents q = [] \<and> cap q = cap (mailbox (shared s) (addr_id (ctx_addr (ctx s))))
    \<and> live q = live (mailbox (shared s) (addr_id (ctx_addr (ctx s))))
    \<and> log s' = log s @ [HandleCalled (User m), OneshotSend tx (snd (f m (actor s)))]"
proof -
  let ?self = "addr_id (ctx_addr (ctx s))" and ?x = "Sync (MessageEnvelope_with_response (User m) tx)"
  obtain streams1 s1 where c: "collect_streams head streams s = (streams1, s1)"
    by (cases "collect_streams head streams s")
  note fr = collect_streams_cases [OF c]
  have self: "addr_id (ctx_addr (ctx s1)) = ?self" using fr(2) by (simp add: same_identity_def)
  obtain rr q where q: "mpsc_recv M (mailbox (shared s) ?self) = (rr, q)"
    by (cases "mpsc_recv M (mailbox (shared s) ?self)")
  have rr: "rr = Some (Some ?x)" "contents q = []" "cap q = cap (mailbox (shared s) ?self)"
    "live q = live (mailbox (shared s) ?self)"
    using mpsc_recvD [OF assms(1) q] assms(3) by (simp_all add: recv_law_def)
  let ?s2 = "s1\<lparr>shared := set_mailbox ?self q (shared s1)\<rparr>"
  have "handle B (User m) (actor s) = Ret (fst (f m (actor s))) (snd (f m (actor s)))"
    using assms(2) by (simp add: pure_handler_def)
  then have "ActorMessage_handle M B ?x ?s2 = (Some (),
      emit (OneshotSend tx (snd (f m (actor s)))) (emit (HandleCalled (User m)) ?s2\<lparr>actor := fst (f m (actor s))\<rparr>))"
    using fr(4) by (simp add: ActorMessage_handle_eq MessageEnvelope_with_response_def)
  then show ?thesis
    using q rr fr
    by (auto simp: actor_step_running [OF c] actor_select_def self simp del: actor_step.simps intro!: exI [of _ q])
qed

lemma ask_actor_pure:
  assumes "mpsc_laws M contents cap live" and "pure_handler B f" and "idle contents cap live t a"
  shows "\<exists>t'. ask_actor M B spoll sig (User m) t = (Some (Inr (snd (f m a))), t') \<and> idle contents cap live t' (fst (f m a))"
proof -
  obtain head streams s where t: "t = ActorRunning head streams s" "actor s = a"
    and mb: "contents (mailbox (shared s) (addr_id (ctx_addr (ctx s)))) = []"
      "0 < cap (mailbox (shared s) (addr_id (ctx_addr (ctx s))))" "live (mailbox (shared s) (addr_id (ctx_addr (ctx s))))"
    and fresh: "\<forall>tx \<ge> next_oneshot (shared s). sent_on tx (log s) = []"
    using assms(3) unfolding idle_def by blast
  let ?self = "addr_id (ctx_addr (ctx s))" and ?tx = "next_oneshot (shared s)"
  let ?x = "Sync (MessageEnvelope_with_response (User m) ?tx)" and ?w = "(shared s)\<lparr>next_oneshot := Suc ?tx\<rparr>"
  obtain sr q where sr: "mpsc_send M ?x (mailbox (shared s) ?self) = (sr, q)"
    by (cases "mpsc_send M ?x (mailbox (shared s) ?self)")
  have ok: "sr = Some True" "contents q = [?x]" "0 < cap q" "live q"
    using mpsc_sendD [OF assms(1) sr] mb by (simp_all add: send_law_def)
  let ?s = "s\<lparr>shared := set_mailbox ?self q ?w\<rparr>"
  have "contents (mailbox (shared ?s) (addr_id (ctx_addr (ctx ?s)))) = [?x]"
    using ok(2) by (simp add: set_mailbox_def)
  from actor_step_pure [OF assms(1,2) this, of spoll sig head streams] obtain streams' s' q'
    where step: "actor_step M B spoll (Poll sig) (ActorRunning head streams ?s) = ActorRunning True streams' s'"
      and s': "actor s' = fst (f m a)" "same_identity (ctx s) (ctx s')" "shared s' = set_mailbox ?self q' (set_mailbox ?self q ?w)"
        "log s' = log s @ [HandleCalled (User m), OneshotSend ?tx (snd (f m a))]"
      and q': "contents q' = []" "0 < cap q'" "live q'"
    using t(2) ok by (auto simp: set_mailbox_def)
  have "ask_actor M B spoll sig (User m) t = (Some (Inr (snd (f m a))), ActorRunning True streams' s')"
    using sr ok(1) fresh step s'(4) t(1)
    by (simp add: ask_actor_def Addr_send_start_def enqueue_poll_def oneshot_rx_def Let_def del: actor_step.simps(2))
  moreover have "idle contents cap live (ActorRunning True streams' s') (fst (f m a))"
    using s' q' fresh by (auto simp: idle_def same_identity_def set_mailbox_def)
  ultimately show ?thesis by blast
qed

lemma actor_refines:
  assumes "mpsc_laws M contents cap live" and "pure_handler B f" and "idle contents cap live t a"
  shows "fst (ask_all M B spoll sig ms t) = map (Some \<circ> Inr) (fst (object_run f ms a))
    \<and> idle contents cap live (snd (ask_all M B spoll sig ms t)) (snd (object_run f ms a))"
  using assms(3)
proof (induction ms arbitrary: t a)
  case (Cons m ms)
  obtain t' where t': "ask_actor M B spoll sig (User m) t = (Some (Inr (snd (f m a))), t')"
    "idle contents cap live t' (fst (f m a))"
    using ask_actor_pure [OF assms(1,2) Cons.prems] by blast
  with Cons.IH [OF t'(2)] show ?case by (simp add: split_beta)
qed simp

text \<open>
  C5. An actor is a sequential object. If an actor's handler makes no calls of its context, then
  any sequence of requests sent through its mailbox is answered, request by request, exactly as
  the object with the handler's transitions answers it, and leaves the actor in the object's
  state, idle again.
\<close>

theorem actor_refines_object:
  assumes "mpsc_laws M contents cap live" and "pure_handler B f" and "idle contents cap live t a"
  shows "fst (ask_all M B spoll sig ms t) = map (Some \<circ> Inr) (fst (object_run f ms a))
    \<and> idle contents cap live (snd (ask_all M B spoll sig ms t)) (snd (object_run f ms a))"
  using assms by (rule actor_refines)

definition adder :: "(nat, nat, unit, nat, unit) behaviour" where
  "adder = echo_behaviour\<lparr>handle := \<lambda>m a. case m of User n \<Rightarrow> Ret (a + n) (a + n) | Terminated i \<Rightarrow> Ret a 0\<rparr>"

theorem actor_refines_object_witness:
  "fst (ask_all list_mpsc adder (\<lambda>st. (StreamPending, st)) quiet [1, 2] (ActorRunning True [] sample_cell))
     = [Some (Inr 6), Some (Inr 8)]"
proof -
  have p: "pure_handler adder (\<lambda>n a. (a + n, a + n))" by (simp add: pure_handler_def adder_def)
  have "idle (\<lambda>(n, live, xs). xs) fst (\<lambda>(n, live, xs). live) (ActorRunning True [] sample_cell) 5"
    by (auto simp: idle_def sample_cell_def sample_world_def)
  from actor_refines_object [OF list_mpsc_laws p this, of "\<lambda>st. (StreamPending, st)" quiet "[1, 2]"]
  show ?thesis by (simp del: ask_all.simps)
qed

end
