(* ===== verification/Remote_Handler.thy ===== *)
theory Remote_Handler
  imports Remote_Client Local_Call
begin

text \<open>
  The serving side of a connection: \<open>src/remote/handler.rs\<close> (handlers for actor and message
  pairs, the message router) and \<open>src/remote/server.rs\<close> (the loop that serves one
  connection).
\<close>

section \<open>Asking a local actor\<close>

text \<open>
  What a handler needs of an actor: the outcome of \<open>addr.send(msg).await\<close> and
  \<open>addr.do_send(msg).await\<close> in a state of the node, None while the future still waits (there
  is no timeout). The state is abstract here; below it is the task of an actor of the model.
\<close>

record ('m, 'r, 's) actor_port =
  port_send :: "'m \<Rightarrow> 's \<Rightarrow> (MailboxError + 'r) option \<times> 's"
  port_do_send :: "'m \<Rightarrow> 's \<Rightarrow> (MailboxError + unit) option \<times> 's"

type_synonym 's EnvelopeHandler = "Envelope \<Rightarrow> 's \<Rightarrow> Envelope option \<times> 's"

section \<open>Handlers\<close>

text \<open>
  A handler is a future; its value here is the response it has produced, None both where it
  returned without one and where it still waits for its actor. A handler that waits holds up the
  loop of its connection in the source; that loop is modelled for handlers that return.
\<close>

definition make_handler ::
    "'m RemoteMessage \<Rightarrow> 'r RemoteMessage \<Rightarrow> ('m, 'r, 's) actor_port \<Rightarrow> string \<Rightarrow> 's EnvelopeHandler" where
  "make_handler RM RR port node_id envelope s =
     (case decode RM (payload envelope) of
        None \<Rightarrow> (None, s)
      | Some m \<Rightarrow>
          (case port_send port m s of
             (None, s') \<Rightarrow> (None, s')
           | (Some (Inl _), s') \<Rightarrow> (None, s')
           | (Some (Inr result), s') \<Rightarrow>
               (case encode RR result of
                  None \<Rightarrow> (None, s')
                | Some buf \<Rightarrow>
                    (Some \<lparr>message_type = type_id RR, payload = buf, correlation_id = correlation_id envelope,
                           sender_node = node_id, target_actor = sender_node envelope, is_response = True\<rparr>, s'))))"

definition make_tell_handler :: "'m RemoteMessage \<Rightarrow> ('m, 'r, 's) actor_port \<Rightarrow> 's EnvelopeHandler" where
  "make_tell_handler RM port envelope s =
     (case decode RM (payload envelope) of
        None \<Rightarrow> (None, s)
      | Some m \<Rightarrow> (None, snd (port_do_send port m s)))"

record LocalNode =
  local_id :: NodeId

definition LocalNode_new :: "string \<Rightarrow> LocalNode" where
  "LocalNode_new s = \<lparr>local_id = NodeId s\<rparr>"

definition LocalNode_handler ::
    "LocalNode \<Rightarrow> 'm RemoteMessage \<Rightarrow> 'r RemoteMessage \<Rightarrow> ('m, 'r, 's) actor_port \<Rightarrow> 's EnvelopeHandler" where
  "LocalNode_handler n RM RR port = make_handler RM RR port (node_name (local_id n))"

definition LocalNode_tell_handler ::
    "LocalNode \<Rightarrow> 'm RemoteMessage \<Rightarrow> ('m, 'r, 's) actor_port \<Rightarrow> 's EnvelopeHandler" where
  "LocalNode_tell_handler n RM port = make_tell_handler RM port"

definition LocalNode_remote_addr :: "LocalNode \<Rightarrow> string \<Rightarrow> string \<Rightarrow> 'q RemoteClient \<Rightarrow> 'q RemoteAddr" where
  "LocalNode_remote_addr n remote_node actor_name client =
     RemoteAddr_new (node_name (local_id n)) remote_node actor_name client"

section \<open>The message router\<close>

record 's MessageRouter =
  handlers :: "(string, 's EnvelopeHandler) hashmap"
  default_handler :: "'s EnvelopeHandler option"

definition MessageRouter_new :: "'s MessageRouter" where
  "MessageRouter_new = \<lparr>handlers = [], default_handler = None\<rparr>"

definition MessageRouter_route_type :: "string \<Rightarrow> 's EnvelopeHandler \<Rightarrow> 's MessageRouter \<Rightarrow> 's MessageRouter" where
  "MessageRouter_route_type ty h r = r\<lparr>handlers := hm_insert ty h (handlers r)\<rparr>"

definition MessageRouter_route :: "'m RemoteMessage \<Rightarrow> 's EnvelopeHandler \<Rightarrow> 's MessageRouter \<Rightarrow> 's MessageRouter" where
  "MessageRouter_route R h r = r\<lparr>handlers := hm_insert (type_id R) h (handlers r)\<rparr>"

definition MessageRouter_default :: "'s EnvelopeHandler \<Rightarrow> 's MessageRouter \<Rightarrow> 's MessageRouter" where
  "MessageRouter_default h r = r\<lparr>default_handler := Some h\<rparr>"

definition MessageRouter_build :: "'s MessageRouter \<Rightarrow> 's EnvelopeHandler" where
  "MessageRouter_build r envelope s =
     (case hm_get (handlers r) (message_type envelope) of
        Some handler \<Rightarrow> handler envelope s
      | None \<Rightarrow>
          (case default_handler r of
             Some handler \<Rightarrow> handler envelope s
           | None \<Rightarrow> (None, s)))"

section \<open>Serving a connection\<close>

text \<open>The state of the task of one accepted connection.\<close>

record ('c, 's) server_task =
  srv_conn :: "'c TcpConnection"
  srv_node :: 's
  srv_open :: bool

definition server_accept :: "'c network \<Rightarrow> 'c \<Rightarrow> 's \<Rightarrow> ('c, 's) server_task" where
  "server_accept N stream s = \<lparr>srv_conn = TcpConnection_new N stream, srv_node = s, srv_open = True\<rparr>"

definition server_round :: "'c network \<Rightarrow> 's EnvelopeHandler \<Rightarrow> ('c, 's) server_task \<Rightarrow> ('c, 's) server_task" where
  "server_round N handler t =
     (if \<not> srv_open t then t
      else
        (case TcpConnection_recv N (srv_conn t) of
           (Inl _, conn) \<Rightarrow> t\<lparr>srv_conn := conn, srv_open := False\<rparr>
         | (Inr envelope, conn) \<Rightarrow>
             (case handler envelope (srv_node t) of
                (None, s) \<Rightarrow> t\<lparr>srv_conn := conn, srv_node := s\<rparr>
              | (Some response, s) \<Rightarrow>
                  (case TcpConnection_send N response conn of
                     (ok, conn') \<Rightarrow>
                       t\<lparr>srv_conn := conn', srv_node := s, srv_open := (case ok of Inl _ \<Rightarrow> False | Inr _ \<Rightarrow> True)\<rparr>))))"

text \<open>Handling a list of envelopes in order, the k-th with \<open>h k\<close>: the specification of a serving loop.\<close>

fun handle_all ::
    "(nat \<Rightarrow> Envelope \<Rightarrow> 's \<Rightarrow> Envelope option \<times> 's) \<Rightarrow> nat \<Rightarrow> Envelope list \<Rightarrow> 's \<Rightarrow> Envelope option list \<times> 's" where
  "handle_all h k [] s = ([], s)"
| "handle_all h k (e # es) s =
     (case h k e s of (r, s1) \<Rightarrow> (case handle_all h (Suc k) es s1 of (rs, s2) \<Rightarrow> (r # rs, s2)))"

section \<open>Interface: a well-behaved handler\<close>

text \<open>
  What the remote client relies on to match answers: a handler that answers keeps the
  correlation identifier, marks the answer as a response, and sends it back to where the
  request came from.
\<close>

definition replies_to :: "Envelope \<Rightarrow> Envelope \<Rightarrow> bool" where
  "replies_to e r \<longleftrightarrow> correlation_id r = correlation_id e \<and> is_response r \<and> target_actor r = sender_node e"

definition exchange_ok :: "Envelope \<Rightarrow> Envelope option \<Rightarrow> bool" where
  "exchange_ok e r \<longleftrightarrow> (case r of None \<Rightarrow> True | Some resp \<Rightarrow> replies_to e resp)"

locale envelope_handler =
  fixes handler :: "Envelope \<Rightarrow> 's \<Rightarrow> Envelope option \<times> 's"
  assumes handler_replies: "handler e s = (Some r, s') \<Longrightarrow> replies_to e r"
begin

lemma handle_all_replies:
  "handle_all (\<lambda>_. handler) k es s = (rs, s') \<Longrightarrow> list_all2 exchange_ok es rs"
proof (induction es arbitrary: k s rs)
  case (Cons e es)
  then show ?case
    by (auto simp: exchange_ok_def split: prod.splits option.split dest: handler_replies)
qed simp

end

interpretation request_handler: envelope_handler "make_handler RM RR port node_id" for RM RR port node_id
  by unfold_locales (auto simp: make_handler_def replies_to_def split: option.splits prod.splits sum.splits)

interpretation tell_handler: envelope_handler "make_tell_handler RM port" for RM port
  by unfold_locales (auto simp: make_tell_handler_def split: option.splits)

section \<open>The router is a table of handlers\<close>

definition router_invar :: "'s MessageRouter \<Rightarrow> bool" where
  "router_invar r \<longleftrightarrow> hm_wf (handlers r)"

definition routed :: "'s MessageRouter \<Rightarrow> string \<rightharpoonup> 's EnvelopeHandler" where
  "routed r = hm_get (handlers r)"

interpretation router: lookup_table MessageRouter_new MessageRouter_route_type routed router_invar
  by unfold_locales (simp_all add: router_invar_def routed_def MessageRouter_new_def MessageRouter_route_type_def)

lemma MessageRouter_route_eq: "MessageRouter_route R = MessageRouter_route_type (type_id R)"
  by (simp add: fun_eq_iff MessageRouter_route_def MessageRouter_route_type_def)

lemma MessageRouter_build_routed:
  "MessageRouter_build r e s =
     (case routed r (message_type e) of
        Some h \<Rightarrow> h e s
      | None \<Rightarrow> (case default_handler r of Some h \<Rightarrow> h e s | None \<Rightarrow> (None, s)))"
  by (simp add: MessageRouter_build_def routed_def)

lemma MessageRouter_build_routes:
  fixes routes :: "(string \<times> 's EnvelopeHandler) list"
  defines "r \<equiv> fold (\<lambda>(ty, h). MessageRouter_route_type ty h) routes MessageRouter_new"
  shows "MessageRouter_build (MessageRouter_default d r) e s
      = (case map_of (rev routes) (message_type e) of Some h \<Rightarrow> h e s | None \<Rightarrow> d e s)"
    and "MessageRouter_build r e s
      = (case map_of (rev routes) (message_type e) of Some h \<Rightarrow> h e s | None \<Rightarrow> (None, s))"
proof -
  have "default_handler (fold (\<lambda>(ty, h). MessageRouter_route_type ty h) routes r) = default_handler r"
    for routes and r :: "'s MessageRouter"
    by (induction routes arbitrary: r) (auto simp: MessageRouter_route_type_def)
  then have none: "default_handler r = None" by (simp add: r_def MessageRouter_new_def)
  have d: "routed (MessageRouter_default d r) = routed r" "default_handler (MessageRouter_default d r) = Some d"
    by (simp_all add: routed_def MessageRouter_default_def)
  have get: "routed r ty = map_of (rev routes) ty" for ty
    unfolding r_def by (rule router.get_puts_start)
  show "MessageRouter_build (MessageRouter_default d r) e s
      = (case map_of (rev routes) (message_type e) of Some h \<Rightarrow> h e s | None \<Rightarrow> d e s)"
    by (simp add: MessageRouter_build_routed d get split: option.split)
  show "MessageRouter_build r e s
      = (case map_of (rev routes) (message_type e) of Some h \<Rightarrow> h e s | None \<Rightarrow> (None, s))"
    by (simp add: MessageRouter_build_routed none get split: option.split)
qed

text \<open>
  Dispatch by type. A router built from a list of routes and a default handler hands an
  envelope to the last handler routed for its message type and to the default handler if there
  is none; without a default handler such an envelope is ignored and the node is unchanged.
\<close>

lemma router_dispatch:
  "MessageRouter_build (MessageRouter_default d (fold (\<lambda>(ty, h). MessageRouter_route_type ty h) routes MessageRouter_new)) e s
     = (case map_of (rev routes) (message_type e) of Some h \<Rightarrow> h e s | None \<Rightarrow> d e s)
   \<and> MessageRouter_build (fold (\<lambda>(ty, h). MessageRouter_route_type ty h) routes MessageRouter_new) e s
     = (case map_of (rev routes) (message_type e) of Some h \<Rightarrow> h e s | None \<Rightarrow> (None, s))"
  by (simp add: MessageRouter_build_routes)

lemma MessageRouter_build_envelope_handler:
  assumes "\<And>ty h. hm_get (handlers r) ty = Some h \<Longrightarrow> envelope_handler h"
    and "\<And>h. default_handler r = Some h \<Longrightarrow> envelope_handler h"
  shows "envelope_handler (MessageRouter_build r)"
proof unfold_locales
  fix e s resp s'
  assume "MessageRouter_build r e s = (Some resp, s')"
  then obtain h where "envelope_handler h" "h e s = (Some resp, s')"
    using assms by (auto simp: MessageRouter_build_def split: option.splits)
  then show "replies_to e resp" by (rule envelope_handler.handler_replies)
qed

text \<open>
  The handlers the library makes for an actor (\<open>LocalNode::handler\<close> and
  \<open>LocalNode::tell_handler\<close>), as data; \<open>'m\<close> and \<open>'r\<close> are the unions of the message and
  result types of a node, every route having its own serializers for them.
\<close>

datatype ('m, 'r, 's) route =
    RequestRoute LocalNode "'m RemoteMessage" "'r RemoteMessage" "('m, 'r, 's) actor_port"
  | TellRoute LocalNode "'m RemoteMessage" "('m, 'r, 's) actor_port"

primrec route_handler :: "('m, 'r, 's) route \<Rightarrow> 's EnvelopeHandler" where
  "route_handler (RequestRoute n RM RR port) = LocalNode_handler n RM RR port"
| "route_handler (TellRoute n RM port) = LocalNode_tell_handler n RM port"

definition library_router :: "(string \<times> ('m, 'r, 's) route) list \<Rightarrow> ('m, 'r, 's) route option \<Rightarrow> 's MessageRouter" where
  "library_router routes dflt =
     (let r = fold (\<lambda>(ty, x). MessageRouter_route_type ty (route_handler x)) routes MessageRouter_new
      in case dflt of None \<Rightarrow> r | Some x \<Rightarrow> MessageRouter_default (route_handler x) r)"

lemma route_handler_replies: "envelope_handler (route_handler x)"
  by (cases x)
    (simp_all add: LocalNode_handler_def LocalNode_tell_handler_def request_handler.envelope_handler_axioms
      tell_handler.envelope_handler_axioms)

lemma library_router_replies: "envelope_handler (MessageRouter_build (library_router routes dflt))"
proof (rule MessageRouter_build_envelope_handler)
  have routes: "(\<forall>ty h. hm_get (handlers (fold (\<lambda>(ty, x). MessageRouter_route_type ty (route_handler x)) routes r)) ty = Some h
        \<longrightarrow> envelope_handler h)
      \<and> default_handler (fold (\<lambda>(ty, x). MessageRouter_route_type ty (route_handler x)) routes r) = default_handler r"
    if "\<forall>ty h. hm_get (handlers r) ty = Some h \<longrightarrow> envelope_handler h" for r
    using that
  proof (induction routes arbitrary: r)
    case (Cons p routes)
    let ?r = "case p of (ty, x) \<Rightarrow> MessageRouter_route_type ty (route_handler x) r"
    have "\<forall>ty h. hm_get (handlers ?r) ty = Some h \<longrightarrow> envelope_handler h"
      using Cons.prems by (auto simp: MessageRouter_route_type_def route_handler_replies split: prod.split)
    moreover have "default_handler ?r = default_handler r"
      by (simp add: MessageRouter_route_type_def split: prod.split)
    ultimately show ?case using Cons.IH [of ?r] by (cases p) simp
  qed simp
  note start = routes [of MessageRouter_new]
  show "envelope_handler h" if "hm_get (handlers (library_router routes dflt)) ty = Some h" for ty h
    using that start
    by (auto simp: library_router_def MessageRouter_new_def MessageRouter_default_def Let_def split: option.splits)
  show "envelope_handler h" if "default_handler (library_router routes dflt) = Some h" for h
    using that start
    by (auto simp: library_router_def MessageRouter_new_def MessageRouter_default_def Let_def route_handler_replies
        split: option.splits)
qed

text \<open>A port that answers every number with its successor and counts the requests.\<close>

definition counting_port :: "(nat, nat, nat) actor_port" where
  "counting_port = \<lparr>port_send = (\<lambda>n s. (Some (Inr (Suc n)), Suc s)), port_do_send = (\<lambda>n s. (Some (Inr ()), Suc s))\<rparr>"

section \<open>Remote requests to a local actor\<close>

text \<open>
  The port of an actor of the model, whose task is polled once: a request that is not answered
  in this poll still waits.
\<close>

definition actor_port_of ::
    "('q, 'm) channel \<Rightarrow> ('a, 'm, 'st, 'r, 'i) behaviour \<Rightarrow> ('st, 'i) stream_source \<Rightarrow> signals
      \<Rightarrow> ('m, 'r, ('a, 'm, 'st, 'r, 'q) actor_task) actor_port" where
  "actor_port_of M B spoll sig =
     \<lparr>port_send = (\<lambda>m t. ask_actor M B spoll sig (User m) t),
      port_do_send = (\<lambda>m t. case Addr_do_send M (ctx_addr (ctx (task_cell t))) (User m) (shared (task_cell t)) of
          (r, w) \<Rightarrow> (r, actor_step M B spoll (Interfere (\<lambda>_. w)) t))\<rparr>"

text \<open>
  A remote request reaches its actor and comes back. For a message and a result that prost
  can encode and decode, an envelope made by \<open>from_message\<close> and given to the handler of a
  running actor with an empty mailbox yields an answer to this very envelope, whose payload
  decodes to what the actor's handler returned.
\<close>

lemma remote_request_answer:
  assumes "mpsc_laws M contents cap live"
    and "contents (mailbox (shared s) (addr_id (ctx_addr (ctx s)))) = []"
    and "0 < cap (mailbox (shared s) (addr_id (ctx_addr (ctx s))))"
    and "live (mailbox (shared s) (addr_id (ctx_addr (ctx s))))"
    and "sent_on (next_oneshot (shared s)) (log s) = []"
    and "handler_returns M B (User m) s r"
    and "prost_ok RM m" and "prost_ok RR r"
    and "Envelope_from_message RM m cid sender target = Some e"
  shows "\<exists>resp t'. LocalNode_handler n RM RR (actor_port_of M B spoll sig) e (ActorRunning head streams s) = (Some resp, t')
    \<and> replies_to e resp \<and> decode RR (payload resp) = Some r
    \<and> resp = \<lparr>message_type = type_id RR, payload = the (encode RR r), correlation_id = correlation_id e,
        sender_node = node_name (local_id n), target_actor = sender_node e, is_response = True\<rparr>"
proof -
  obtain streams' s' where "ask_actor M B spoll sig (User m) (ActorRunning head streams s)
      = (Some (Inr r), ActorRunning True streams' s')"
    using local_request_answer [OF assms(1-6)] by blast
  moreover obtain b where "encode RM m = Some b" "decode RM b = Some m"
    using assms(7) by (auto simp: prost_ok_def split: option.splits)
  moreover obtain b' where "encode RR r = Some b'" "decode RR b' = Some r"
    using assms(8) by (auto simp: prost_ok_def split: option.splits)
  ultimately show ?thesis
    using assms(9)
    by (auto simp: LocalNode_handler_def make_handler_def actor_port_of_def Envelope_from_message_def replies_to_def)
qed

end
