(* ===== verification/Cluster_Server.thy ===== *)
theory Cluster_Server
  imports Cluster_Node Remote_Handler
begin

text \<open>
  The cluster node on the network (\<open>src/remote/cluster.rs\<close>): the loop that serves one
  connection with gossip and actor envelopes multiplexed on it, sending gossip to a peer, and a
  round of the periodic gossip task.
\<close>

section \<open>Transport envelopes\<close>

text \<open>
  A cluster message is serialized into the payload of a transport envelope. The correlation
  identifier of a transport envelope is always 0.
\<close>

definition cluster_envelope :: "bytes \<Rightarrow> string \<Rightarrow> bool \<Rightarrow> Envelope" where
  "cluster_envelope buf sender response =
     \<lparr>message_type = ''cluster'', payload = buf, correlation_id = 0,
      sender_node = sender, target_actor = [], is_response = response\<rparr>"

definition wrap_response :: "ClusterMessage prost \<Rightarrow> ClusterPayload \<Rightarrow> ClusterNode \<Rightarrow> Envelope option" where
  "wrap_response P pl c =
     (case encode P \<lparr>cm_payload = Some pl\<rparr> of
        None \<Rightarrow> None
      | Some buf \<Rightarrow> Some (cluster_envelope buf (node_id (local_node c)) True))"

section \<open>Serving a connection\<close>

text \<open>
  What a received envelope does to the node (its cluster view and the state its actors live in)
  and the envelope sent back, if any. \<open>now\<close> is the clock when gossip is merged.
\<close>

definition cluster_serve ::
    "ClusterMessage prost \<Rightarrow> 's EnvelopeHandler option \<Rightarrow> instant \<Rightarrow> Envelope \<Rightarrow> ClusterNode \<times> 's
      \<Rightarrow> Envelope option \<times> ClusterNode \<times> 's" where
  "cluster_serve P handler now envelope node =
     (case node of (c, s) \<Rightarrow>
        (case decode P (payload envelope) of
           None \<Rightarrow> (None, c, s)
         | Some cluster_msg \<Rightarrow>
             (case cm_payload cluster_msg of
                Some (PayloadGossip gossip) \<Rightarrow>
                  (let c' = merge_gossip gossip (sender_node envelope) now c
                   in (wrap_response P (PayloadGossip (create_gossip_message c')) c', c', s))
              | Some (PayloadEnvelope actor_envelope) \<Rightarrow>
                  (case handler of
                     None \<Rightarrow> (None, c, s)
                   | Some h \<Rightarrow>
                       (case h actor_envelope s of
                          (None, s') \<Rightarrow> (None, c, s')
                        | (Some response, s') \<Rightarrow> (wrap_response P (PayloadEnvelope response) c, c, s')))
              | None \<Rightarrow> (None, c, s))))"

text \<open>One round of the loop; a failure to send the answer is ignored and the loop goes on.\<close>

definition cluster_server_round ::
    "'c network \<Rightarrow> ClusterMessage prost \<Rightarrow> 's EnvelopeHandler option \<Rightarrow> instant
      \<Rightarrow> ('c, ClusterNode \<times> 's) server_task \<Rightarrow> ('c, ClusterNode \<times> 's) server_task" where
  "cluster_server_round N P handler now t =
     (if \<not> srv_open t then t
      else
        (case TcpConnection_recv N (srv_conn t) of
           (Inl _, conn) \<Rightarrow> t\<lparr>srv_conn := conn, srv_open := False\<rparr>
         | (Inr envelope, conn) \<Rightarrow>
             (case cluster_serve P handler now envelope (srv_node t) of
                (None, node) \<Rightarrow> t\<lparr>srv_conn := conn, srv_node := node\<rparr>
              | (Some resp, node) \<Rightarrow>
                  t\<lparr>srv_conn := snd (TcpConnection_send N resp conn), srv_node := node\<rparr>)))"

definition gossip_server_round ::
    "'c network \<Rightarrow> ClusterMessage prost \<Rightarrow> instant
      \<Rightarrow> ('c, ClusterNode \<times> 's) server_task \<Rightarrow> ('c, ClusterNode \<times> 's) server_task" where
  "gossip_server_round N P now t = cluster_server_round N P None now t"

section \<open>Sending gossip\<close>

definition absorb_gossip :: "ClusterMessage prost \<Rightarrow> instant \<Rightarrow> Envelope \<Rightarrow> ClusterNode \<Rightarrow> ClusterNode" where
  "absorb_gossip P now response c =
     (case decode P (payload response) of
        None \<Rightarrow> c
      | Some cluster_resp \<Rightarrow>
          (case cm_payload cluster_resp of
             Some (PayloadGossip their_gossip) \<Rightarrow> merge_gossip their_gossip (sender_node response) now c
           | _ \<Rightarrow> c))"

text \<open>
  \<open>send_gossip_conn\<close> also returns the connection as it is when the function drops it, None
  where none was opened, so that what went over it can be observed.
\<close>

definition send_gossip_conn ::
    "'c network \<Rightarrow> ClusterMessage prost \<Rightarrow> Node \<Rightarrow> instant \<Rightarrow> ClusterNode
      \<Rightarrow> (TransportError + unit) \<times> ClusterNode \<times> 'c TcpConnection option" where
  "send_gossip_conn N P peer now c =
     (case encode P \<lparr>cm_payload = Some (PayloadGossip (create_gossip_message c))\<rparr> of
        None \<Rightarrow> (Inl (Io InvalidData), c, None)
      | Some buf \<Rightarrow>
          (case TcpTransport_connect N (node_addr peer) of
             Inl err \<Rightarrow> (Inl err, c, None)
           | Inr conn \<Rightarrow>
               (case TcpConnection_send N (cluster_envelope buf (node_id (local_node c)) False) conn of
                  (Inl err, conn') \<Rightarrow> (Inl err, c, Some conn')
                | (Inr _, conn') \<Rightarrow>
                    (case TcpConnection_recv N conn' of
                       (Inr response, conn'') \<Rightarrow> (Inr (), absorb_gossip P now response c, Some conn'')
                     | (Inl _, conn'') \<Rightarrow> (Inr (), c, Some conn'')))))"

definition send_gossip_to ::
    "'c network \<Rightarrow> ClusterMessage prost \<Rightarrow> Node \<Rightarrow> instant \<Rightarrow> ClusterNode \<Rightarrow> (TransportError + unit) \<times> ClusterNode" where
  "send_gossip_to N P peer now c = (case send_gossip_conn N P peer now c of (r, c', conn) \<Rightarrow> (r, c'))"

text \<open>
  A round of \<open>start_periodic_gossip\<close>: the failure check, then gossip with one of the other
  members. \<open>pick\<close> is the random choice (rand's \<open>choose\<close>), None on an empty list. The
  result None is the panic of the failure check, which ends the task.
\<close>

definition gossip_round ::
    "'c network \<Rightarrow> ClusterMessage prost \<Rightarrow> (Node list \<Rightarrow> Node option) \<Rightarrow> instant \<Rightarrow> instant \<Rightarrow> duration
      \<Rightarrow> ClusterNode \<Rightarrow> ClusterNode option" where
  "gossip_round N P pick now later suspect_timeout c =
     (case failure_check now suspect_timeout c of
        None \<Rightarrow> None
      | Some c' \<Rightarrow>
          (case pick (gossip_peers c') of
             None \<Rightarrow> Some c'
           | Some peer \<Rightarrow> Some (snd (send_gossip_to N P peer later c'))))"

section \<open>A gossip exchange over the wire\<close>

lemma absorb_gossip_ok: "cluster_ok c \<Longrightarrow> cluster_ok (absorb_gossip P now response c)"
  using cluster.inv_step [of c "MergeGossip g (sender_node response) now" for g]
  by (auto simp: absorb_gossip_def split: option.split ClusterPayload.split)

lemma send_gossip_to_ok: "cluster_ok c \<Longrightarrow> cluster_ok (snd (send_gossip_to N P peer now c))"
  by (auto simp: send_gossip_to_def send_gossip_conn_def absorb_gossip_ok split: option.split sum.split prod.split)

lemma cluster_serve_ok: "cluster_ok c \<Longrightarrow> cluster_ok (fst (snd (cluster_serve P handler now e (c, s))))"
  using cluster.inv_step [of c "MergeGossip g (sender_node e) now" for g]
  by (auto simp: cluster_serve_def Let_def split: option.split ClusterPayload.split prod.split)

text \<open>A round of the periodic task keeps the view well formed and does not panic for sane timeouts.\<close>

lemma gossip_round_ok:
  assumes "cluster_ok c" and "d * 2 \<le> duration_max"
  shows "\<exists>c'. gossip_round N P pick now later d c = Some c' \<and> cluster_ok c'"
proof -
  obtain c1 where c1: "failure_check now d c = Some c1"
    using detect_failures_total [OF assms(2), of c now "members c"] by (auto simp: failure_check_def)
  from failure_check_ok [OF assms(1) c1] have "cluster_ok c1" .
  with c1 show ?thesis by (auto simp: gossip_round_def send_gossip_to_ok split: option.split)
qed

text \<open>The gossip-only server never touches the actors of the node.\<close>

lemma gossip_server_keeps_actors: "snd (srv_node (gossip_server_round N P now t)) = snd (srv_node t)"
  by (cases "srv_node t")
    (auto simp: gossip_server_round_def cluster_server_round_def cluster_serve_def Let_def
      split: prod.split sum.split option.split ClusterPayload.split)

text \<open>
  The other end of a connection is a node in the state \<open>remote c\<close> that serves what is sent:
  a frame sent is delivered to it, changes its state as \<open>cluster_serve\<close> does, and the next
  frame read is its answer; where it has none, nothing more comes.
\<close>

definition peer_serves ::
    "'c network \<Rightarrow> ClusterMessage prost \<Rightarrow> 's EnvelopeHandler option \<Rightarrow> instant \<Rightarrow> ('c \<Rightarrow> ClusterNode \<times> 's) \<Rightarrow> bool" where
  "peer_serves N P handler now remote \<longleftrightarrow>
     (\<forall>e c. \<exists>c1 c2. sink_send N e c = (None, c1) \<and>
        remote c1 = snd (cluster_serve P handler now e (remote c)) \<and>
        stream_next N c1 = (map_option Inr (fst (cluster_serve P handler now e (remote c))), c2) \<and>
        remote c2 = remote c1)"

lemma gossip_wire_exchange:
  assumes "prost_ok P \<lparr>cm_payload = Some (PayloadGossip (create_gossip_message a))\<rparr>"
    and "gossip_exchange now a b = (a', b')"
    and "prost_ok P \<lparr>cm_payload = Some (PayloadGossip (create_gossip_message b'))\<rparr>"
    and "dial N (node_addr peer) = Inr c0" and "remote c0 = (b, s)"
    and "peer_serves N P handler now remote"
  shows "\<exists>conn. send_gossip_conn N P peer now a = (Inr (), a', Some conn) \<and> remote (framed conn) = (b', s)"
proof -
  obtain buf where buf: "encode P \<lparr>cm_payload = Some (PayloadGossip (create_gossip_message a))\<rparr> = Some buf"
    "decode P buf = Some \<lparr>cm_payload = Some (PayloadGossip (create_gossip_message a))\<rparr>"
    using assms(1) by (auto simp: prost_ok_def split: option.splits)
  obtain rbuf where rbuf: "encode P \<lparr>cm_payload = Some (PayloadGossip (create_gossip_message b'))\<rparr> = Some rbuf"
    "decode P rbuf = Some \<lparr>cm_payload = Some (PayloadGossip (create_gossip_message b'))\<rparr>"
    using assms(3) by (auto simp: prost_ok_def split: option.splits)
  let ?e = "cluster_envelope buf (node_id (local_node a)) False"
  have ex: "b' = merge_gossip (create_gossip_message a) (node_id (local_node a)) now b"
    "a' = merge_gossip (create_gossip_message b') (node_id (local_node b')) now a"
    using assms(2) by (auto simp: gossip_exchange_def Let_def)
  have serve: "cluster_serve P handler now ?e (b, s) = (Some (cluster_envelope rbuf (node_id (local_node b')) True), b', s)"
    using buf(2) rbuf(1) ex(1) by (simp add: cluster_serve_def cluster_envelope_def wrap_response_def Let_def)
  obtain c1 c2 where "sink_send N ?e c0 = (None, c1)"
    "stream_next N c1 = (Some (Inr (cluster_envelope rbuf (node_id (local_node b')) True)), c2)" "remote c2 = (b', s)"
    using assms(6) serve unfolding peer_serves_def assms(5) [symmetric] by (metis fst_conv snd_conv option.map(2))
  then show ?thesis
    using buf(1) rbuf(2) assms(4) ex(2)
    by (simp add: send_gossip_conn_def TcpTransport_connect_def TcpConnection_new_def TcpConnection_send_def
        TcpConnection_recv_def absorb_gossip_def cluster_envelope_def)
qed

text \<open>
  C21. Gossip over the wire is an exchange of views. If a can reach b, the node b at the other
  end of the connection serves the frames sent to it, and prost can encode and decode the two
  gossip messages, then sending gossip succeeds, leaves a with the view a direct exchange would
  give it, and leaves the node at the other end with the view the exchange would give b, its
  actors untouched.
\<close>

theorem gossip_over_wire:
  assumes "prost_ok P \<lparr>cm_payload = Some (PayloadGossip (create_gossip_message a))\<rparr>"
    and "gossip_exchange now a b = (a', b')"
    and "prost_ok P \<lparr>cm_payload = Some (PayloadGossip (create_gossip_message b'))\<rparr>"
    and "dial N (node_addr peer) = Inr c0" and "remote c0 = (b, s)"
    and "peer_serves N P handler now remote"
  shows "send_gossip_to N P peer now a = (Inr (), a') \<and>
    (\<exists>conn. snd (snd (send_gossip_conn N P peer now a)) = Some conn \<and> remote (framed conn) = (b', s))"
  using gossip_wire_exchange [OF assms] by (auto simp: send_gossip_to_def)

text \<open>
  A serializer for two messages, a network whose other end answers with a function, and one
  whose other end is a node that serves.
\<close>

definition two_prost :: "'x \<Rightarrow> 'x \<Rightarrow> 'x prost" where
  "two_prost m1 m2 = \<lparr>encode = (\<lambda>m. Some (if m = m1 then [1] else [2])), decode = (\<lambda>b. Some (if b = [1] then m1 else m2))\<rparr>"

lemma two_prost_ok: "prost_ok (two_prost m1 m2) m1" "prost_ok (two_prost m1 m2) m2"
  by (simp_all add: prost_ok_def two_prost_def)

definition answering_network :: "(Envelope \<Rightarrow> Envelope option) \<Rightarrow> Envelope option network" where
  "answering_network answer =
     \<lparr>sink_send = (\<lambda>e c. (None, Some e)),
      stream_next = (\<lambda>c. case c of None \<Rightarrow> (None, None) | Some e \<Rightarrow> (map_option Inr (answer e), None)),
      sink_close = (\<lambda>c. (None, c)), dial = (\<lambda>a. Inr None), local_name = (\<lambda>c. None)\<rparr>"

definition node_network ::
    "ClusterMessage prost \<Rightarrow> 's EnvelopeHandler option \<Rightarrow> instant \<Rightarrow> ClusterNode \<times> 's
      \<Rightarrow> (Envelope option \<times> ClusterNode \<times> 's) network" where
  "node_network P handler now node =
     \<lparr>sink_send = (\<lambda>e (r, n). (None, cluster_serve P handler now e n)),
      stream_next = (\<lambda>(r, n). (map_option Inr r, (None, n))),
      sink_close = (\<lambda>c. (None, c)), dial = (\<lambda>a. Inr (None, node)), local_name = (\<lambda>c. None)\<rparr>"

lemma node_network_serves: "peer_serves (node_network P handler now node) P handler now snd"
  unfolding peer_serves_def
proof (intro allI)
  fix e and c :: "Envelope option \<times> ClusterNode \<times> 'a"
  let ?N = "node_network P handler now node" and ?x = "cluster_serve P handler now e (snd c)"
  show "\<exists>c1 c2. sink_send ?N e c = (None, c1) \<and> snd c1 = snd ?x \<and>
      stream_next ?N c1 = (map_option Inr (fst ?x), c2) \<and> snd c2 = snd c1"
    by (intro exI [of _ ?x] exI [of _ "(None, snd ?x)"]) (simp add: node_network_def case_prod_beta)
qed

theorem gossip_over_wire_witness:
  "\<exists>(N :: (Envelope option \<times> ClusterNode \<times> unit) network) P peer a' b'.
     gossip_exchange 5 watching_cluster (sample_cluster ''b'') = (a', b') \<and>
     send_gossip_to N P peer 5 watching_cluster = (Inr (), a') \<and>
     (\<exists>conn. snd (snd (send_gossip_conn N P peer 5 watching_cluster)) = Some conn \<and> snd (framed conn) = (b', ()))"
proof -
  let ?a = watching_cluster and ?b = "sample_cluster ''b''"
  let ?peer = "\<lparr>node_id = ''b'', node_addr = ''host'', node_status = Up\<rparr>"
  obtain a' b' where x: "gossip_exchange 5 ?a ?b = (a', b')" by (cases "gossip_exchange 5 ?a ?b")
  let ?P = "two_prost \<lparr>cm_payload = Some (PayloadGossip (create_gossip_message ?a))\<rparr>
    \<lparr>cm_payload = Some (PayloadGossip (create_gossip_message b'))\<rparr>"
  let ?N = "node_network ?P None 5 (?b, ())"
  have "dial ?N (node_addr ?peer) = Inr (None, ?b, ())" by (simp add: node_network_def)
  from gossip_over_wire [OF two_prost_ok(1) x two_prost_ok(2) this snd_conv node_network_serves] x
  show ?thesis by blast
qed

end
