(* ===== verification/Server_Loops.thy ===== *)
theory Server_Loops
  imports Cluster_Server "HOL-Library.While_Combinator" "HOL-Library.Sublist"
begin

text \<open>
  The loops that serve one accepted connection, in \<open>RemoteServer::run\<close>
  (\<open>src/remote/server.rs\<close>) and \<open>ClusterNode::start_server\<close>
  (\<open>src/remote/cluster.rs\<close>): they end when the connection does, having handled the frames
  that came in over the connection, in order and once each, and sent the answers over it. A loop
  that never ends has the value None.
\<close>

section \<open>The loops\<close>

definition server_loop ::
    "'c network \<Rightarrow> 's EnvelopeHandler \<Rightarrow> ('c, 's) server_task \<Rightarrow> ('c, 's) server_task option" where
  "server_loop N handler t = while_option srv_open (server_round N handler) t"

text \<open>\<open>clk k\<close> is the clock when the k-th envelope of the connection is served.\<close>

definition cluster_loop_body ::
    "'c network \<Rightarrow> ClusterMessage prost \<Rightarrow> 's EnvelopeHandler option \<Rightarrow> (nat \<Rightarrow> instant)
      \<Rightarrow> nat \<times> ('c, ClusterNode \<times> 's) server_task \<Rightarrow> nat \<times> ('c, ClusterNode \<times> 's) server_task" where
  "cluster_loop_body N P handler clk kt = (Suc (fst kt), cluster_server_round N P handler (clk (fst kt)) (snd kt))"

definition cluster_server_loop ::
    "'c network \<Rightarrow> ClusterMessage prost \<Rightarrow> 's EnvelopeHandler option \<Rightarrow> (nat \<Rightarrow> instant)
      \<Rightarrow> ('c, ClusterNode \<times> 's) server_task \<Rightarrow> ('c, ClusterNode \<times> 's) server_task option" where
  "cluster_server_loop N P handler clk t =
     map_option snd (while_option (srv_open \<circ> snd) (cluster_loop_body N P handler clk) (0, t))"

section \<open>The connection seen from outside\<close>

text \<open>
  \<open>inbox c\<close> are the envelopes the other end has sent or will still send over the connection
  before it closes or fails, \<open>sent c\<close> those the connection has accepted for sending. Reading
  takes the envelopes of the inbox in order and then reports the end; a send that succeeds
  appends to what was sent, one that fails changes neither.
\<close>

definition duplex :: "'c network \<Rightarrow> ('c \<Rightarrow> Envelope list) \<Rightarrow> ('c \<Rightarrow> Envelope list) \<Rightarrow> bool" where
  "duplex N inbox sent \<longleftrightarrow>
     (\<forall>c. sent (snd (stream_next N c)) = sent c \<and>
       (case inbox c of
          [] \<Rightarrow> (\<nexists>e. fst (stream_next N c) = Some (Inr e))
        | e # es \<Rightarrow> fst (stream_next N c) = Some (Inr e) \<and> inbox (snd (stream_next N c)) = es)) \<and>
     (\<forall>e c. inbox (snd (sink_send N e c)) = inbox c \<and>
       sent (snd (sink_send N e c)) = (if fst (sink_send N e c) = None then sent c @ [e] else sent c))"

definition reliable :: "'c network \<Rightarrow> bool" where
  "reliable N \<longleftrightarrow> (\<forall>e c. fst (sink_send N e c) = None)"

lemma duplex_recv_end:
  assumes "duplex N inbox sent" and "inbox (framed conn) = []"
  shows "\<exists>err conn'. TcpConnection_recv N conn = (Inl err, conn') \<and> sent (framed conn') = sent (framed conn)"
proof -
  obtain r c where r: "stream_next N (framed conn) = (r, c)" by (rule prod.exhaust)
  have "sent (snd (stream_next N (framed conn))) = sent (framed conn)"
    "\<nexists>e. fst (stream_next N (framed conn)) = Some (Inr e)"
    using assms by (auto simp: duplex_def split: list.splits)
  with r show ?thesis by (auto simp: TcpConnection_recv_def split: option.split sum.split)
qed

lemma duplex_recv:
  assumes "duplex N inbox sent" and "inbox (framed conn) = e # es"
  shows "\<exists>conn'. TcpConnection_recv N conn = (Inr e, conn') \<and> inbox (framed conn') = es \<and>
    sent (framed conn') = sent (framed conn)"
proof -
  obtain r c where r: "stream_next N (framed conn) = (r, c)" by (rule prod.exhaust)
  have "sent (snd (stream_next N (framed conn))) = sent (framed conn)"
    "fst (stream_next N (framed conn)) = Some (Inr e)" "inbox (snd (stream_next N (framed conn))) = es"
    using assms by (auto simp: duplex_def split: list.splits)
  with r show ?thesis by (simp add: TcpConnection_recv_def)
qed

lemma duplex_send:
  assumes "duplex N inbox sent" and "TcpConnection_send N e conn = (ok, conn')"
  shows "inbox (framed conn') = inbox (framed conn) \<and>
    sent (framed conn') = sent (framed conn) @ (if fst (sink_send N e (framed conn)) = None then [e] else []) \<and>
    ok = (case fst (sink_send N e (framed conn)) of None \<Rightarrow> Inr () | Some err \<Rightarrow> Inl (from_io_error err))"
proof -
  obtain r c where r: "sink_send N e (framed conn) = (r, c)" by (rule prod.exhaust)
  have "inbox (snd (sink_send N e (framed conn))) = inbox (framed conn)"
    "sent (snd (sink_send N e (framed conn)))
      = (if fst (sink_send N e (framed conn)) = None then sent (framed conn) @ [e] else sent (framed conn))"
    using assms(1) by (auto simp: duplex_def)
  with r assms(2) show ?thesis by (auto simp: TcpConnection_send_def split: option.splits)
qed

section \<open>Specification\<close>

definition answers :: "Envelope option list \<Rightarrow> Envelope list" where
  "answers rs = map the (filter (\<lambda>r. r \<noteq> None) rs)"

lemma answers_simps [simp]:
  "answers [] = []" "answers (None # rs) = answers rs" "answers (Some r # rs) = r # answers rs"
  by (simp_all add: answers_def)

lemma handle_all_const: "handle_all (\<lambda>_. h) k es s = handle_all (\<lambda>_. h) 0 es s"
proof (induction es arbitrary: k s)
  case (Cons e es)
  have "handle_all (\<lambda>_. h) (Suc k) es s1 = handle_all (\<lambda>_. h) (Suc 0) es s1" for s1
    using Cons.IH [of "Suc k" s1] Cons.IH [of "Suc 0" s1] by simp
  then show ?case by simp
qed simp

text \<open>
  What the remote server's loop did when it ended in the task \<open>t\<close>: it handled the
  envelopes \<open>es\<close>, an initial part of those that came in, in order and once each, with the
  results \<open>rs\<close> and the node left as this handling leaves it, and sent the answers in order.
  Either it handled all that came in and sent all answers, or sending the last answer
  failed, the connection refusing it.
\<close>

definition server_outcome ::
    "'c network \<Rightarrow> 's EnvelopeHandler \<Rightarrow> ('c \<Rightarrow> Envelope list) \<Rightarrow> Envelope list \<Rightarrow> Envelope list \<Rightarrow> 's
      \<Rightarrow> Envelope list \<Rightarrow> Envelope option list \<Rightarrow> ('c, 's) server_task \<Rightarrow> bool" where
  "server_outcome N h sent incoming before s es rs t \<longleftrightarrow>
     handle_all (\<lambda>_. h) 0 es s = (rs, srv_node t) \<and>
     (es = incoming \<and> sent (framed (srv_conn t)) = before @ answers rs \<or>
      (\<exists>rest c replies lost. incoming = es @ rest \<and> answers rs = replies @ [lost] \<and>
         sent (framed (srv_conn t)) = before @ replies \<and> fst (sink_send N lost c) \<noteq> None))"

lemma server_outcome_Cons:
  assumes "h e s = (r, s1)" and "server_outcome N h sent es (before @ answers [r]) s1 ds rs t"
  shows "server_outcome N h sent (e # es) before s (e # ds) (r # rs) t"
  using assms handle_all_const [of h "Suc 0" ds s1]
  by (cases r) (auto simp: server_outcome_def)

section \<open>The remote server's loop\<close>

lemma server_loop_unfold:
  "server_loop N h t = (if srv_open t then server_loop N h (server_round N h t) else Some t)"
  unfolding server_loop_def by (subst while_option_unfold) simp

lemma server_loop_outcome:
  assumes "duplex N inbox sent" and "srv_open t" and "inbox (framed (srv_conn t)) = es"
  shows "\<exists>t' ds rs. server_loop N h t = Some t' \<and> \<not> srv_open t' \<and>
    server_outcome N h sent es (sent (framed (srv_conn t))) (srv_node t) ds rs t'"
  using assms(2,3)
proof (induction es arbitrary: t)
  case Nil
  obtain err conn where "TcpConnection_recv N (srv_conn t) = (Inl err, conn)" "sent (framed conn) = sent (framed (srv_conn t))"
    using duplex_recv_end [OF assms(1) Nil(2)] by blast
  with Nil show ?case
    by (subst server_loop_unfold, subst server_loop_unfold)
      (auto simp: server_round_def server_outcome_def intro!: exI [of _ "[]"])
next
  case (Cons e es)
  obtain conn where recv: "TcpConnection_recv N (srv_conn t) = (Inr e, conn)" "inbox (framed conn) = es"
    "sent (framed conn) = sent (framed (srv_conn t))"
    using duplex_recv [OF assms(1) Cons.prems(2)] by blast
  obtain r s1 where h: "h e (srv_node t) = (r, s1)" by (rule prod.exhaust)
  let ?t = "server_round N h t"
  consider (go) "srv_open ?t" "srv_node ?t = s1" "inbox (framed (srv_conn ?t)) = es"
      "sent (framed (srv_conn ?t)) = sent (framed (srv_conn t)) @ answers [r]"
    | (lost) resp where "r = Some resp" "\<not> srv_open ?t" "srv_node ?t = s1" "fst (sink_send N resp (framed conn)) \<noteq> None"
      "sent (framed (srv_conn ?t)) = sent (framed (srv_conn t))"
  proof (cases r)
    case None
    with that(1) Cons.prems recv h show thesis by (simp add: server_round_def)
  next
    case (Some resp)
    obtain ok conn' where send: "TcpConnection_send N resp conn = (ok, conn')" by (rule prod.exhaust)
    note d = duplex_send [OF assms(1) send]
    show thesis
    proof (cases "fst (sink_send N resp (framed conn))")
      case None
      with that(1) Cons.prems recv h Some send d show thesis by (simp add: server_round_def)
    next
      case (Some err)
      with that(2) [of resp] Cons.prems recv h \<open>r = Some resp\<close> send d show thesis by (simp add: server_round_def)
    qed
  qed
  then show ?case
  proof cases
    case go
    from Cons.IH [OF go(1,3)] obtain t' ds rs where t': "server_loop N h ?t = Some t'" "\<not> srv_open t'"
      "server_outcome N h sent es (sent (framed (srv_conn t)) @ answers [r]) s1 ds rs t'"
      unfolding go(2,4) by blast
    have "server_loop N h t = Some t'" using t'(1) Cons.prems(1) by (subst server_loop_unfold) simp
    with t'(2) server_outcome_Cons [OF h t'(3)] show ?thesis by blast
  next
    case lost
    have "server_loop N h t = Some ?t"
      using Cons.prems(1) lost(2) by (subst server_loop_unfold, subst server_loop_unfold) simp
    moreover have "server_outcome N h sent (e # es) (sent (framed (srv_conn t))) (srv_node t) [e] [r] ?t"
      using lost h by (auto simp: server_outcome_def)
    ultimately show ?thesis using lost(2) by blast
  qed
qed

section \<open>The cluster server's loop\<close>

text \<open>
  A failure to send is ignored here, so the loop always handles everything that came in; what
  it sent are its answers, in order, without those the connection refused.
\<close>

definition cluster_outcome ::
    "'c network \<Rightarrow> (nat \<Rightarrow> Envelope \<Rightarrow> 's \<Rightarrow> Envelope option \<times> 's) \<Rightarrow> ('c \<Rightarrow> Envelope list) \<Rightarrow> Envelope list \<Rightarrow> Envelope list
      \<Rightarrow> nat \<Rightarrow> 's \<Rightarrow> ('c, 's) server_task \<Rightarrow> bool" where
  "cluster_outcome N h sent incoming before k s t \<longleftrightarrow>
     (\<exists>rs replies. handle_all h k incoming s = (rs, srv_node t) \<and>
        sent (framed (srv_conn t)) = before @ replies \<and> subseq replies (answers rs) \<and>
        (reliable N \<longrightarrow> replies = answers rs))"

lemma cluster_outcome_Cons:
  assumes "h k e s = (r, s1)" and "cluster_outcome N h sent es (before @ some) (Suc k) s1 t"
    and "subseq some (answers [r])" and "reliable N \<Longrightarrow> some = answers [r]"
  shows "cluster_outcome N h sent (e # es) before k s t"
proof -
  obtain rs replies where *: "handle_all h (Suc k) es s1 = (rs, srv_node t)"
    "sent (framed (srv_conn t)) = (before @ some) @ replies" "subseq replies (answers rs)"
    "reliable N \<longrightarrow> replies = answers rs"
    using assms(2) unfolding cluster_outcome_def by blast
  have app: "answers (r # rs) = answers [r] @ answers rs" by (cases r) simp_all
  have "subseq (some @ replies) (answers (r # rs))"
    unfolding app by (rule list_emb_append_mono [OF assms(3) *(3)])
  moreover have "reliable N \<longrightarrow> some @ replies = answers (r # rs)"
    using *(4) assms(4) unfolding app by simp
  ultimately show ?thesis
    unfolding cluster_outcome_def using assms(1) *(1,2) by (intro exI [of _ "r # rs"] exI [of _ "some @ replies"]) simp
qed

lemma cluster_loop_unfold:
  "while_option (srv_open \<circ> snd) (cluster_loop_body N P handler clk) (k, t) =
     (if srv_open t
      then while_option (srv_open \<circ> snd) (cluster_loop_body N P handler clk) (Suc k, cluster_server_round N P handler (clk k) t)
      else Some (k, t))"
  by (subst while_option_unfold) (simp add: cluster_loop_body_def)

lemma cluster_round_sends:
  assumes "duplex N inbox sent" and "srv_open t" and "inbox (framed (srv_conn t)) = e # es"
    and "cluster_serve P handler now e (srv_node t) = (r, s1)"
  defines "t' \<equiv> cluster_server_round N P handler now t"
  obtains some where "srv_open t'" "srv_node t' = s1" "inbox (framed (srv_conn t')) = es"
    "sent (framed (srv_conn t')) = sent (framed (srv_conn t)) @ some" "subseq some (answers [r])"
    "reliable N \<Longrightarrow> some = answers [r]"
proof -
  obtain conn where recv: "TcpConnection_recv N (srv_conn t) = (Inr e, conn)" "inbox (framed conn) = es"
    "sent (framed conn) = sent (framed (srv_conn t))"
    using duplex_recv [OF assms(1,3)] by blast
  show thesis
  proof (cases r)
    case None
    with that [of "[]"] assms(2,4) recv show thesis by (simp add: t'_def cluster_server_round_def)
  next
    case (Some resp)
    obtain ok conn' where send: "TcpConnection_send N resp conn = (ok, conn')" by (rule prod.exhaust)
    let ?some = "if fst (sink_send N resp (framed conn)) = None then [resp] else []"
    show thesis
      using that [of ?some] duplex_send [OF assms(1) send] assms(2,4) recv Some send
      by (auto simp: t'_def cluster_server_round_def reliable_def)
  qed
qed

lemma cluster_loop_outcome:
  assumes "duplex N inbox sent" and "srv_open t" and "inbox (framed (srv_conn t)) = es"
  shows "\<exists>k' t'. while_option (srv_open \<circ> snd) (cluster_loop_body N P handler clk) (k, t) = Some (k', t') \<and> \<not> srv_open t' \<and>
    cluster_outcome N (\<lambda>k. cluster_serve P handler (clk k)) sent es (sent (framed (srv_conn t))) k (srv_node t) t'"
  using assms(2,3)
proof (induction es arbitrary: t k)
  case Nil
  obtain err conn where "TcpConnection_recv N (srv_conn t) = (Inl err, conn)" "sent (framed conn) = sent (framed (srv_conn t))"
    using duplex_recv_end [OF assms(1) Nil(2)] by blast
  with Nil show ?case
    by (subst cluster_loop_unfold, subst cluster_loop_unfold) (auto simp: cluster_server_round_def cluster_outcome_def)
next
  case (Cons e es)
  obtain r s1 where h: "cluster_serve P handler (clk k) e (srv_node t) = (r, s1)" by (rule prod.exhaust)
  let ?t = "cluster_server_round N P handler (clk k) t"
  obtain some where t: "srv_open ?t" "srv_node ?t = s1" "inbox (framed (srv_conn ?t)) = es"
    "sent (framed (srv_conn ?t)) = sent (framed (srv_conn t)) @ some" "subseq some (answers [r])"
    "reliable N \<Longrightarrow> some = answers [r]"
    using cluster_round_sends [OF assms(1) Cons.prems h] by blast
  let ?h = "\<lambda>k. cluster_serve P handler (clk k)"
  from Cons.IH [OF t(1,3), of "Suc k"] obtain k' t' where t':
    "while_option (srv_open \<circ> snd) (cluster_loop_body N P handler clk) (Suc k, ?t) = Some (k', t')" "\<not> srv_open t'"
    "cluster_outcome N ?h sent es (sent (framed (srv_conn t)) @ some) (Suc k) s1 t'"
    unfolding t(2,4) by blast
  have "cluster_outcome N ?h sent (e # es) (sent (framed (srv_conn t))) k (srv_node t) t'"
    by (rule cluster_outcome_Cons [OF h t'(3) t(5,6)])
  with t' Cons.prems(1) show ?case by (subst cluster_loop_unfold) auto
qed

section \<open>The loops serve their connection\<close>

text \<open>
  C13. The loops that serve a connection end, having served it. On a connection over which
  finitely many envelopes come in, the remote server's loop ends with the task closed, and has
  handled the incoming envelopes in order and once each and sent the answers in order, all
  of them, unless the connection refused an answer, which ends the loop there. The cluster
  server's loop ends and has handled every incoming envelope in order and once each, whatever
  the connection refuses; what it sent are its answers in order, all of them if the connection
  refuses none. In both cases the node is left in the state this handling gives.
\<close>

theorem server_loops_end:
  assumes "duplex N inbox sent"
  shows "(\<exists>t es rs. server_loop N h (server_accept N stream s) = Some t \<and> \<not> srv_open t \<and>
      server_outcome N h sent (inbox stream) (sent stream) s es rs t)
    \<and> (\<exists>t. cluster_server_loop N P handler clk (server_accept N stream cs) = Some t \<and> \<not> srv_open t \<and>
      cluster_outcome N (\<lambda>k. cluster_serve P handler (clk k)) sent (inbox stream) (sent stream) 0 cs t)"
proof -
  have start: "srv_open (server_accept N stream x)" "framed (srv_conn (server_accept N stream x)) = stream"
    "srv_node (server_accept N stream x) = x" for x :: 'x
    by (simp_all add: server_accept_def TcpConnection_new_def)
  have "\<exists>t es rs. server_loop N h (server_accept N stream s) = Some t \<and> \<not> srv_open t \<and>
      server_outcome N h sent (inbox stream) (sent stream) s es rs t"
    using server_loop_outcome [OF assms, of "server_accept N stream s" "inbox stream" h] by (simp add: start)
  moreover have "\<exists>t. cluster_server_loop N P handler clk (server_accept N stream cs) = Some t \<and> \<not> srv_open t \<and>
      cluster_outcome N (\<lambda>k. cluster_serve P handler (clk k)) sent (inbox stream) (sent stream) 0 cs t"
    using cluster_loop_outcome [OF assms, of "server_accept N stream cs" "inbox stream" P handler clk 0]
    by (auto simp: start cluster_server_loop_def)
  ultimately show ?thesis by blast
qed

text \<open>A connection as a pair of lists: what still comes in and what was sent.\<close>

definition pipe_network :: "(Envelope list \<times> Envelope list) network" where
  "pipe_network =
     \<lparr>sink_send = (\<lambda>e (i, out). (None, (i, out @ [e]))),
      stream_next = (\<lambda>(i, out). case i of [] \<Rightarrow> (None, ([], out)) | e # es \<Rightarrow> (Some (Inr e), (es, out))),
      sink_close = (\<lambda>c. (None, c)), dial = (\<lambda>a. Inr ([], [])), local_name = (\<lambda>c. None)\<rparr>"

lemma pipe_network_duplex: "duplex pipe_network fst snd" "reliable pipe_network"
  by (auto simp: duplex_def reliable_def pipe_network_def split: list.split)

lemma reliable_server_outcome:
  "reliable N \<Longrightarrow> server_outcome N h sent incoming before s es rs t \<longleftrightarrow>
     handle_all (\<lambda>_. h) 0 es s = (rs, srv_node t) \<and> es = incoming \<and> sent (framed (srv_conn t)) = before @ answers rs"
  by (auto simp: server_outcome_def reliable_def)

theorem server_loops_end_witness:
  "(\<exists>t. server_loop pipe_network (\<lambda>e s. (Some (reply (correlation_id e)), Suc s)) (server_accept pipe_network ([ask 1, ask 2], []) 0) = Some t
      \<and> srv_node t = 2 \<and> snd (framed (srv_conn t)) = [reply 1, reply 2])
   \<and> (\<exists>t. cluster_server_loop pipe_network (two_prost \<lparr>cm_payload = None\<rparr> \<lparr>cm_payload = None\<rparr>) None (\<lambda>k. k)
        (server_accept pipe_network ([ask 1, ask 2], []) (sample_cluster ''a'', ())) = Some t
      \<and> srv_node t = (sample_cluster ''a'', ()) \<and> snd (framed (srv_conn t)) = [])"
proof -
  let ?P = "two_prost \<lparr>cm_payload = None\<rparr> \<lparr>cm_payload = None\<rparr>"
  have serve: "cluster_serve ?P None k e n = (None, n)" for k e and n :: "ClusterNode \<times> unit"
    by (cases n) (simp add: cluster_serve_def two_prost_def)
  let ?h = "\<lambda>e s. (Some (reply (correlation_id e)), Suc s)" and ?in = "[ask 1, ask 2]"
  note ended = server_loops_end [OF pipe_network_duplex(1), of ?h "(?in, [])" 0 ?P None "\<lambda>k. k" "(sample_cluster ''a'', ())"]
  obtain t es rs where t: "server_loop pipe_network ?h (server_accept pipe_network (?in, []) 0) = Some t"
    "server_outcome pipe_network ?h snd ?in [] 0 es rs t"
    using conjunct1 [OF ended] unfolding fst_conv snd_conv by blast
  have "handle_all (\<lambda>_. ?h) 0 ?in 0 = (rs, srv_node t)" "snd (framed (srv_conn t)) = answers rs"
    using t(2) unfolding reliable_server_outcome [OF pipe_network_duplex(2)] by auto
  then have "srv_node t = 2 \<and> snd (framed (srv_conn t)) = [reply 1, reply 2]" by (auto simp: ask_def)
  moreover obtain t' where t': "cluster_server_loop pipe_network ?P None (\<lambda>k. k)
      (server_accept pipe_network (?in, []) (sample_cluster ''a'', ())) = Some t'"
    "cluster_outcome pipe_network (\<lambda>k. cluster_serve ?P None k) snd ?in [] 0 (sample_cluster ''a'', ()) t'"
    using conjunct2 [OF ended] unfolding fst_conv snd_conv by blast
  have "srv_node t' = (sample_cluster ''a'', ()) \<and> snd (framed (srv_conn t')) = []"
    using t'(2) by (auto simp: cluster_outcome_def serve)
  ultimately show ?thesis using t(1) t'(1) by blast
qed

section \<open>Answers match their requests\<close>

text \<open>
  C25. A server answers in kind. Take any router of handlers the library makes for actors
  (\<open>LocalNode::handler\<close> and \<open>LocalNode::tell_handler\<close>), with or without a default
  handler, serving a connection over which finitely many envelopes come in. The loop ends,
  having handled the incoming envelopes in order and sent the answers; and every answer
  carries the correlation identifier of the very envelope it answers, is marked as a response
  and is addressed to that envelope's sender.
\<close>

theorem server_replies_match:
  assumes "duplex N inbox sent"
  shows "\<exists>t es rs. server_loop N (MessageRouter_build (library_router routes dflt)) (server_accept N stream s) = Some t \<and>
    server_outcome N (MessageRouter_build (library_router routes dflt)) sent (inbox stream) (sent stream) s es rs t \<and>
    list_all2 exchange_ok es rs"
proof -
  let ?h = "MessageRouter_build (library_router routes dflt)"
  obtain t es rs where t: "server_loop N ?h (server_accept N stream s) = Some t"
    "server_outcome N ?h sent (inbox stream) (sent stream) s es rs t"
    using server_loop_outcome [OF assms, of "server_accept N stream s" "inbox stream" ?h]
    by (auto simp: server_accept_def TcpConnection_new_def)
  moreover have "list_all2 exchange_ok es rs"
    by (rule envelope_handler.handle_all_replies
        [OF library_router_replies conjunct1 [OF t(2) [unfolded server_outcome_def]]])
  ultimately show ?thesis by blast
qed

definition sample_routes :: "(string \<times> (nat, nat, nat) route) list" where
  "sample_routes = [(''Add'', RequestRoute (LocalNode_new ''n'') (nat_message ''Add'') (nat_message ''Sum'') counting_port)]"

definition sample_default :: "(nat, nat, nat) route option" where
  "sample_default = Some (TellRoute (LocalNode_new ''n'') (nat_message ''Add'') counting_port)"

lemma sample_router_run:
  "\<exists>resp. handle_all (\<lambda>_. MessageRouter_build (library_router sample_routes sample_default)) 0
     [(ask 4)\<lparr>message_type := ''Add''\<rparr>, ask 5] 0 = ([Some resp, None], 2)"
  by (simp add: sample_routes_def sample_default_def library_router_def MessageRouter_build_def MessageRouter_new_def
      MessageRouter_route_type_def MessageRouter_default_def LocalNode_handler_def LocalNode_tell_handler_def
      make_handler_def make_tell_handler_def nat_message_def counting_port_def ask_def bare_def)

theorem server_replies_match_witness:
  "\<exists>t resp. server_loop pipe_network (MessageRouter_build (library_router sample_routes sample_default))
      (server_accept pipe_network ([(ask 4)\<lparr>message_type := ''Add''\<rparr>, ask 5], []) 0) = Some t \<and>
     srv_node t = 2 \<and> snd (framed (srv_conn t)) = [resp] \<and> replies_to ((ask 4)\<lparr>message_type := ''Add''\<rparr>) resp"
proof -
  let ?h = "MessageRouter_build (library_router sample_routes sample_default)"
  let ?in = "[(ask 4)\<lparr>message_type := ''Add''\<rparr>, ask 5]"
  obtain t es rs where t: "server_loop pipe_network ?h (server_accept pipe_network (?in, []) 0) = Some t"
    "server_outcome pipe_network ?h snd ?in [] 0 es rs t" "list_all2 exchange_ok es rs"
    using server_replies_match [OF pipe_network_duplex(1), of sample_routes sample_default "(?in, [])" 0]
    unfolding fst_conv snd_conv by blast
  note o = t(2) [unfolded reliable_server_outcome [OF pipe_network_duplex(2)]]
  have es: "es = ?in" and sent: "snd (framed (srv_conn t)) = answers rs"
    using conjunct1 [OF conjunct2 [OF o]] conjunct2 [OF conjunct2 [OF o]] by simp_all
  obtain resp where resp: "handle_all (\<lambda>_. ?h) 0 ?in 0 = ([Some resp, None], 2)"
    using sample_router_run by blast
  have node: "rs = [Some resp, None]" "srv_node t = 2"
    using conjunct1 [OF o] unfolding es resp by simp_all
  have "replies_to ((ask 4)\<lparr>message_type := ''Add''\<rparr>) resp"
    using t(3) unfolding es node by (simp add: exchange_ok_def)
  moreover have "snd (framed (srv_conn t)) = [resp]" unfolding sent node by simp
  ultimately show ?thesis using t(1) node(2) by blast
qed

end
