(* ===== verification/Gossip_Network.thy ===== *)
theory Gossip_Network
  imports Cluster_Node
begin

text \<open>
  Many nodes that gossip (\<open>src/remote/cluster.rs\<close>). A schedule is a list of exchanges between
  nodes of a cluster; knowledge never gets lost under any schedule, and two rounds in which one
  node exchanges with all the others make all views equal.
\<close>

section \<open>Exchanges in a cluster\<close>

text \<open>Node i of the cluster sends gossip to node j, which answers.\<close>

definition contact :: "instant \<times> nat \<times> nat \<Rightarrow> ClusterNode list \<Rightarrow> ClusterNode list" where
  "contact ev ns =
     (case ev of (now, i, j) \<Rightarrow>
        (case gossip_exchange now (ns ! i) (ns ! j) of (a, b) \<Rightarrow> ns[i := a, j := b]))"

definition hub_round :: "instant \<Rightarrow> nat \<Rightarrow> (instant \<times> nat \<times> nat) list" where
  "hub_round now n = map (\<lambda>j. (now, 0, j)) [1..<n]"

definition same_view :: "ClusterNode \<Rightarrow> ClusterNode \<Rightarrow> bool" where
  "same_view a b \<longleftrightarrow> status_of a = status_of b \<and> lookup_actor a = lookup_actor b"

definition knows_as_much :: "ClusterNode \<Rightarrow> ClusterNode \<Rightarrow> bool" where
  "knows_as_much a b \<longleftrightarrow> dom (status_of b) \<subseteq> dom (status_of a) \<and> dom (lookup_actor b) \<subseteq> dom (lookup_actor a)"

lemma knows_refl [simp]: "knows_as_much a a"
  by (simp add: knows_as_much_def)

lemma knows_trans: "knows_as_much a b \<Longrightarrow> knows_as_much b c \<Longrightarrow> knows_as_much a c"
  unfolding knows_as_much_def by (meson order_trans)

lemma same_view_trans: "same_view a b \<Longrightarrow> same_view b c \<Longrightarrow> same_view a c"
  by (simp add: same_view_def)

lemma same_view_sym: "same_view a b \<Longrightarrow> same_view b a"
  by (simp add: same_view_def)

lemma same_view_knows: "same_view a b \<Longrightarrow> knows_as_much a b"
  by (simp add: same_view_def knows_as_much_def)

lemma map_add_covered: "dom m \<subseteq> dom n \<Longrightarrow> m ++ n = n"
proof
  fix x assume "dom m \<subseteq> dom n"
  then show "(m ++ n) x = n x" by (cases "n x") (auto simp: map_add_def)
qed

lemma exchange_effect:
  assumes "cluster_ok a" and "cluster_ok b" and "gossip_exchange now a b = (a', b')"
  shows "cluster_ok a'" "cluster_ok b'" "same_view b' a'" "knows_as_much a' a" "knows_as_much b' b"
    "knows_as_much a b \<Longrightarrow> same_view a' a"
proof -
  have v: "status_of a' = status_of b ++ status_of a" "lookup_actor a' = lookup_actor b ++ lookup_actor a"
    "status_of b' = status_of b ++ status_of a" "lookup_actor b' = lookup_actor b ++ lookup_actor a"
    using gossip_exchange_views [OF assms] by metis+
  show "cluster_ok a'" "cluster_ok b'" using gossip_exchange_ok [OF assms] by simp_all
  show "same_view b' a'" "knows_as_much a' a" "knows_as_much b' b" "knows_as_much a b \<Longrightarrow> same_view a' a"
    by (simp_all add: same_view_def knows_as_much_def v map_add_covered)
qed

section \<open>Any schedule\<close>

lemma length_contact [simp]: "length (contact ev ns) = length ns"
  by (simp add: contact_def split: prod.split)

lemma length_contacts [simp]: "length (fold contact evs ns) = length ns"
  by (induction evs arbitrary: ns) simp_all

definition in_cluster :: "nat \<Rightarrow> instant \<times> nat \<times> nat \<Rightarrow> bool" where
  "in_cluster n ev \<longleftrightarrow> fst (snd ev) < n \<and> snd (snd ev) < n"

lemma contact_keeps:
  assumes "list_all cluster_ok ns" and "in_cluster (length ns) ev"
  shows "list_all cluster_ok (contact ev ns) \<and> (k < length ns \<longrightarrow> knows_as_much (contact ev ns ! k) (ns ! k))"
proof -
  obtain now i j where ev: "ev = (now, i, j)" by (cases ev)
  obtain a b where x: "gossip_exchange now (ns ! i) (ns ! j) = (a, b)" by (rule prod.exhaust)
  have ij: "i < length ns" "j < length ns" using assms(2) by (simp_all add: in_cluster_def ev)
  have ok: "cluster_ok (ns ! i)" "cluster_ok (ns ! j)" using assms(1) ij by (simp_all add: list_all_length)
  note e = exchange_effect [OF ok x]
  show ?thesis
    using assms(1) ij e(1,2,4,5) by (auto simp: contact_def ev x list_all_length nth_list_update)
qed

lemma contacts_keep:
  assumes "list_all cluster_ok ns" and "list_all (in_cluster (length ns)) evs"
  shows "list_all cluster_ok (fold contact evs ns) \<and> (k < length ns \<longrightarrow> knows_as_much (fold contact evs ns ! k) (ns ! k))"
  using assms
proof (induction evs arbitrary: ns)
  case (Cons ev evs)
  from Cons.prems contact_keeps [of ns ev k] Cons.IH [of "contact ev ns"] show ?case
    by (auto intro: knows_trans)
qed simp

section \<open>One node contacts the others\<close>

lemma hub_contact:
  assumes "list_all cluster_ok ns" and "0 < j" and "j < length ns"
  shows "same_view (contact (now, 0, j) ns ! j) (contact (now, 0, j) ns ! 0)"
    and "k \<noteq> 0 \<Longrightarrow> k \<noteq> j \<Longrightarrow> contact (now, 0, j) ns ! k = ns ! k"
    and "knows_as_much (ns ! 0) (ns ! j) \<Longrightarrow> same_view (contact (now, 0, j) ns ! 0) (ns ! 0)"
proof -
  obtain a b where x: "gossip_exchange now (ns ! 0) (ns ! j) = (a, b)" by (rule prod.exhaust)
  have pos: "0 < length ns" using assms(3) by linarith
  then have ok: "cluster_ok (ns ! 0)" "cluster_ok (ns ! j)" using assms by (auto simp: list_all_length)
  note e = exchange_effect [OF ok x]
  have n: "contact (now, 0, j) ns ! 0 = a" "contact (now, 0, j) ns ! j = b"
    using assms(2,3) pos by (simp_all add: contact_def x nth_list_update)
  show "same_view (contact (now, 0, j) ns ! j) (contact (now, 0, j) ns ! 0)" using n e(3) by simp
  show "knows_as_much (ns ! 0) (ns ! j) \<Longrightarrow> same_view (contact (now, 0, j) ns ! 0) (ns ! 0)" using n e(6) by simp
  show "k \<noteq> 0 \<Longrightarrow> k \<noteq> j \<Longrightarrow> contact (now, 0, j) ns ! k = ns ! k" by (simp add: contact_def x)
qed

lemma hub_contact_ok:
  assumes "list_all cluster_ok ns" and "j < length ns"
  shows "list_all cluster_ok (contact (now, 0, j) ns)"
proof -
  have "in_cluster (length ns) (now, 0, j)" using assms(2) by (auto simp: in_cluster_def)
  from contact_keeps [OF assms(1) this] show ?thesis by blast
qed

abbreviation visits :: "instant \<Rightarrow> nat list \<Rightarrow> (instant \<times> nat \<times> nat) list" where
  "visits now js \<equiv> map (\<lambda>j. (now, 0, j)) js"

lemma visits_in_cluster:
  "list_all (\<lambda>j. 0 < j \<and> j < length ns) js \<Longrightarrow> list_all (in_cluster (length ns)) (visits now js)"
  by (auto simp: list_all_iff in_cluster_def)

lemma visits_others:
  assumes "list_all cluster_ok ns" and "list_all (\<lambda>j. 0 < j \<and> j < length ns) js" and "k \<noteq> 0" and "k \<notin> set js"
  shows "fold contact (visits now js) ns ! k = ns ! k"
  using assms
proof (induction js arbitrary: ns)
  case (Cons j js)
  from Cons.prems have "list_all cluster_ok (contact (now, 0, j) ns)"
    by (intro hub_contact_ok) simp_all
  with Cons.prems Cons.IH [of "contact (now, 0, j) ns"] hub_contact(2) [of ns j k now] show ?case by simp
qed simp

text \<open>After one round the hub knows all that the nodes it visited know.\<close>

lemma hub_learns:
  assumes "list_all cluster_ok ns" and "list_all (\<lambda>j. 0 < j \<and> j < length ns) js" and "distinct js" and "j \<in> set js"
  shows "knows_as_much (fold contact (visits now js) ns ! 0) (fold contact (visits now js) ns ! j)"
  using assms
proof (induction js arbitrary: ns)
  case (Cons i js)
  let ?ns = "contact (now, 0, i) ns"
  have ok: "list_all cluster_ok ?ns" and i: "0 < i" "i < length ns"
    using Cons.prems hub_contact_ok [of ns i now] by simp_all
  have js: "list_all (\<lambda>j. 0 < j \<and> j < length ?ns) js" using Cons.prems(2) by simp
  show ?case
  proof (cases "j = i")
    case True
    have "knows_as_much (fold contact (visits now js) ?ns ! 0) (?ns ! 0)"
      using contacts_keep [OF ok visits_in_cluster [OF js], of now 0] i by auto
    moreover have "fold contact (visits now js) ?ns ! i = ?ns ! i"
      using Cons.prems(3) i by (intro visits_others [OF ok js]) auto
    moreover have "knows_as_much (?ns ! 0) (?ns ! i)"
      using hub_contact(1) [OF Cons.prems(1) i] same_view_sym same_view_knows by blast
    ultimately show ?thesis using True by (auto intro: knows_trans)
  qed (use Cons.prems Cons.IH [OF ok js] in simp)
qed simp

text \<open>A hub that knows it all keeps its view and gives it to the nodes it visits.\<close>

lemma hub_teaches:
  assumes "list_all cluster_ok ns" and "list_all (\<lambda>j. 0 < j \<and> j < length ns) js" and "distinct js"
    and "list_all (\<lambda>j. knows_as_much (ns ! 0) (ns ! j)) js"
  shows "same_view (fold contact (visits now js) ns ! 0) (ns ! 0)
    \<and> list_all (\<lambda>j. same_view (fold contact (visits now js) ns ! j) (ns ! 0)) js"
  using assms
proof (induction js arbitrary: ns)
  case (Cons i js)
  let ?ns = "contact (now, 0, i) ns"
  have ok: "list_all cluster_ok ?ns" and i: "0 < i" "i < length ns"
    using Cons.prems hub_contact_ok [of ns i now] by simp_all
  have js: "list_all (\<lambda>j. 0 < j \<and> j < length ?ns) js" using Cons.prems(2) by simp
  have hub: "same_view (?ns ! 0) (ns ! 0)" using hub_contact(3) [OF Cons.prems(1) i] Cons.prems(4) by simp
  have others: "?ns ! k = ns ! k" if "k \<in> set js" for k
    using that Cons.prems(2,3) by (intro hub_contact(2) [OF Cons.prems(1) i]) (auto simp: list_all_iff)
  have knows: "list_all (\<lambda>j. knows_as_much (?ns ! 0) (?ns ! j)) js"
    unfolding list_all_iff
  proof
    fix k assume k: "k \<in> set js"
    then have "knows_as_much (ns ! 0) (ns ! k)" using Cons.prems(4) by (simp add: list_all_iff)
    from knows_trans [OF same_view_knows [OF hub] this] show "knows_as_much (?ns ! 0) (?ns ! k)" by (simp only: others [OF k])
  qed
  have "distinct js" using Cons.prems(3) by simp
  note IH = Cons.IH [OF ok js this knows]
  have "fold contact (visits now js) ?ns ! i = ?ns ! i"
    using Cons.prems(3) i by (intro visits_others [OF ok js]) auto
  then have "same_view (fold contact (visits now js) ?ns ! i) (ns ! 0)"
    by (simp only: same_view_trans [OF hub_contact(1) [OF Cons.prems(1) i] hub])
  moreover have "list_all (\<lambda>j. same_view (fold contact (visits now js) ?ns ! j) (ns ! 0)) js"
    using IH same_view_trans [OF _ hub] unfolding list_all_iff by blast
  moreover have "same_view (fold contact (visits now js) ?ns ! 0) (ns ! 0)" using IH same_view_trans [OF _ hub] by blast
  ultimately show ?case by simp
qed (simp add: same_view_def)

text \<open>
  C12. Gossip converges. In a cluster of any size, two rounds in which one node exchanges gossip
  with every other node leave all nodes with the same view, the same status for every member and
  the same location for every actor, and nothing that any node knew at the beginning is missing
  in it.
\<close>

theorem gossip_converges:
  assumes "list_all cluster_ok ns" and "k < length ns" and "i < length ns"
  shows "same_view (fold contact (hub_round now (length ns) @ hub_round later (length ns)) ns ! k)
      (fold contact (hub_round now (length ns) @ hub_round later (length ns)) ns ! i)
    \<and> knows_as_much (fold contact (hub_round now (length ns) @ hub_round later (length ns)) ns ! k) (ns ! i)"
proof -
  let ?js = "[1..<length ns]"
  let ?ns1 = "fold contact (visits now ?js) ns"
  let ?ns2 = "fold contact (visits later ?js) ?ns1"
  have js: "list_all (\<lambda>j. 0 < j \<and> j < length ns) ?js" by (simp add: list_all_iff)
  have ok1: "list_all cluster_ok ?ns1" and grow: "\<And>j. j < length ns \<Longrightarrow> knows_as_much (?ns1 ! j) (ns ! j)"
    using contacts_keep [OF assms(1) visits_in_cluster [OF js]] by auto
  have learnt: "knows_as_much (?ns1 ! 0) (?ns1 ! j)" if "j < length ns" for j
    using that hub_learns [OF assms(1) js, of j now] by (cases "j = 0") auto
  have "same_view (?ns2 ! 0) (?ns1 ! 0) \<and> list_all (\<lambda>j. same_view (?ns2 ! j) (?ns1 ! 0)) ?js"
    using js learnt by (intro hub_teaches [OF ok1]) (auto simp: list_all_iff)
  then have view: "same_view (?ns2 ! j) (?ns1 ! 0)" if "j < length ns" for j
    using that by (cases "j = 0") (auto simp: list_all_iff)
  have "knows_as_much (?ns2 ! k) (ns ! i)"
    using same_view_knows [OF view [OF assms(2)]] learnt [OF assms(3)] grow [OF assms(3)] knows_trans by blast
  moreover have "same_view (?ns2 ! k) (?ns2 ! i)"
    using view [OF assms(2)] view [OF assms(3)] same_view_trans same_view_sym by blast
  ultimately show ?thesis by (simp add: hub_round_def)
qed

theorem gossip_converges_witness:
  "knows_as_much (fold contact (hub_round 1 3 @ hub_round 2 3)
      [sample_cluster ''a'', sample_cluster ''b'', sample_cluster ''c''] ! 2) (sample_cluster ''b'')"
proof -
  let ?ns = "[sample_cluster ''a'', sample_cluster ''b'', sample_cluster ''c'']"
  have ok: "list_all cluster_ok ?ns" by (simp add: sample_cluster_def ClusterNode_new_ok)
  have i: "2 < length ?ns" "1 < length ?ns" by simp_all
  have l: "length ?ns = 3" and b: "?ns ! 1 = sample_cluster ''b''" by simp_all
  from conjunct2 [OF gossip_converges [OF ok i]] show ?thesis unfolding l b .
qed

end
