(* ===== verification/KV_Store.thy ===== *)
theory KV_Store
  imports Remote_Handler
begin

text \<open>
  The distributed key-value example: the store actor of
  \<open>examples/distributed-kv/src/kv_store.rs\<close>, and from \<open>main.rs\<close> the router of its
  node, the choice of the port and the commands of the shell.
\<close>

section \<open>The store actor\<close>

record KVStore =
  data :: "(string, string) hashmap"

definition KVStore_new :: KVStore where
  "KVStore_new = \<lparr>data = []\<rparr>"

datatype kv_request =
    GetRequest string
  | SetRequest string string
  | DeleteRequest string

datatype kv_response =
    GetResponse "string option"
  | SetResponse bool
  | DeleteResponse bool

definition kv_get :: "string \<Rightarrow> KVStore \<Rightarrow> KVStore \<times> kv_response" where
  "kv_get key st = (st, GetResponse (hm_get (data st) key))"

definition kv_set :: "string \<Rightarrow> string \<Rightarrow> KVStore \<Rightarrow> KVStore \<times> kv_response" where
  "kv_set key val st = (st\<lparr>data := hm_insert key val (data st)\<rparr>, SetResponse True)"

definition kv_delete :: "string \<Rightarrow> KVStore \<Rightarrow> KVStore \<times> kv_response" where
  "kv_delete key st =
     (st\<lparr>data := hm_remove key (data st)\<rparr>, DeleteResponse (hm_get (data st) key \<noteq> None))"

primrec kv_handle :: "kv_request \<Rightarrow> KVStore \<Rightarrow> KVStore \<times> kv_response" where
  "kv_handle (GetRequest key) st = kv_get key st"
| "kv_handle (SetRequest key val) st = kv_set key val st"
| "kv_handle (DeleteRequest key) st = kv_delete key st"

text \<open>
  The store as an actor. It has no handler for \<open>Terminated\<close> and can never be sent one, as it
  watches nobody; the arm is there to make the function total.
\<close>

definition kv_behaviour :: "(KVStore, kv_request, 'st, kv_response, 'i) behaviour" where
  "kv_behaviour =
     \<lparr>started = (\<lambda>a. Ret a ()), stopped = (\<lambda>a. Ret a ()),
      handle = (\<lambda>m a. case m of User req \<Rightarrow> Ret (fst (kv_handle req a)) (snd (kv_handle req a)) | Terminated i \<Rightarrow> Panic a),
      item = (\<lambda>i a. Ret a ()), finished = (\<lambda>a. Ret a ())\<rparr>"

section \<open>The store is a map\<close>

interpretation kv: name_table KVStore_new "\<lambda>k v st. fst (kv_set k v st)" "\<lambda>st. hm_get (data st)"
    "\<lambda>st. hm_wf (data st)" "\<lambda>k st. fst (kv_delete k st)"
  by unfold_locales (simp_all add: KVStore_new_def kv_set_def kv_delete_def)

text \<open>The specification: a partial function.\<close>

primrec map_handle :: "kv_request \<Rightarrow> (string \<rightharpoonup> string) \<Rightarrow> (string \<rightharpoonup> string) \<times> kv_response" where
  "map_handle (GetRequest key) m = (m, GetResponse (m key))"
| "map_handle (SetRequest key val) m = (m(key \<mapsto> val), SetResponse True)"
| "map_handle (DeleteRequest key) m = (m(key := None), DeleteResponse (key \<in> dom m))"

lemma kv_handle_refines:
  "map_handle req (hm_get (data st)) = (hm_get (data (fst (kv_handle req st))), snd (kv_handle req st))"
  by (cases req) (auto simp: kv_get_def kv_set_def kv_delete_def dom_def)

lemma object_run_refines:
  "fst (object_run kv_handle reqs st) = fst (object_run map_handle reqs (hm_get (data st)))"
proof (induction reqs arbitrary: st)
  case (Cons req reqs)
  obtain st' r where h: "kv_handle req st = (st', r)" by (cases "kv_handle req st")
  with kv_handle_refines [of req st] have "map_handle req (hm_get (data st)) = (hm_get (data st'), r)" by simp
  with Cons.IH [of st'] h show ?case by (simp add: split_beta)
qed simp

lemma kv_pure: "pure_handler kv_behaviour kv_handle"
  by (simp add: pure_handler_def kv_behaviour_def)

text \<open>
  C27. The key-value actor is a map. Any sequence of get, set and delete requests sent through
  the mailbox of an idle store is answered exactly as a partial function from keys to values
  answers it: a get returns the value set last and not deleted since, and a delete says whether
  there was one.
\<close>

theorem kv_store_is_map:
  assumes "mpsc_laws M contents cap live" and "idle contents cap live t st"
  shows "fst (ask_all M kv_behaviour spoll sig reqs t) =
    map (Some \<circ> Inr) (fst (object_run map_handle reqs (hm_get (data st))))"
  using actor_refines [OF assms(1) kv_pure assms(2), of spoll sig reqs] object_run_refines [of reqs st] by simp

definition kv_cell :: "(KVStore, kv_request, unit, kv_response, kv_request ActorMessage list_channel) cell" where
  "kv_cell = \<lparr>actor = KVStore_new, ctx = Context_with_signals (Addr_new (ActorId 1) 1) 1 0 2,
     shared = \<lparr>next_actor_id = 2, next_notify = 3, next_oneshot = 0, next_timer = 0,
       mailbox = (\<lambda>i. (256, True, [])), watchers = (\<lambda>i. [])\<rparr>, log = []\<rparr>"

theorem kv_store_is_map_witness:
  "fst (ask_all list_mpsc kv_behaviour (\<lambda>st. (StreamPending :: unit stream_poll, st)) quiet
     [SetRequest ''k'' ''v'', GetRequest ''k'', DeleteRequest ''k'', GetRequest ''k'']
     (ActorRunning True [] kv_cell)) =
   map (Some \<circ> Inr) [SetResponse True, GetResponse (Some ''v''), DeleteResponse True, GetResponse None]"
proof -
  have "idle (\<lambda>(n, live, xs). xs) fst (\<lambda>(n, live, xs). live) (ActorRunning True [] kv_cell) KVStore_new"
    by (auto simp: idle_def kv_cell_def)
  from kv_store_is_map [OF list_mpsc_laws this, of "\<lambda>st. (StreamPending, st)" quiet
      "[SetRequest ''k'' ''v'', GetRequest ''k'', DeleteRequest ''k'', GetRequest ''k'']"]
  show ?thesis by (simp add: KVStore_new_def del: ask_all.simps)
qed

section \<open>The node of the store\<close>

text \<open>
  The router \<open>main\<close> builds on the node with the store. The serializers of the three
  request types and of their responses are parameters.
\<close>

record kv_codecs =
  get_request :: "kv_request RemoteMessage"
  set_request :: "kv_request RemoteMessage"
  delete_request :: "kv_request RemoteMessage"
  get_response :: "kv_response RemoteMessage"
  set_response :: "kv_response RemoteMessage"
  delete_response :: "kv_response RemoteMessage"

definition kv_router :: "kv_codecs \<Rightarrow> string \<Rightarrow> (kv_request, kv_response, 's) actor_port \<Rightarrow> 's EnvelopeHandler" where
  "kv_router K node store =
     (let local_node = LocalNode_new node
      in MessageRouter_build
           (MessageRouter_route (delete_request K) (LocalNode_handler local_node (delete_request K) (delete_response K) store)
           (MessageRouter_route (set_request K) (LocalNode_handler local_node (set_request K) (set_response K) store)
           (MessageRouter_route (get_request K) (LocalNode_handler local_node (get_request K) (get_response K) store)
              MessageRouter_new))))"

text \<open>The serializers of a request and of its response.\<close>

primrec request_codec :: "kv_codecs \<Rightarrow> kv_request \<Rightarrow> kv_request RemoteMessage" where
  "request_codec K (GetRequest key) = get_request K"
| "request_codec K (SetRequest key val) = set_request K"
| "request_codec K (DeleteRequest key) = delete_request K"

primrec response_codec :: "kv_codecs \<Rightarrow> kv_request \<Rightarrow> kv_response RemoteMessage" where
  "response_codec K (GetRequest key) = get_response K"
| "response_codec K (SetRequest key val) = set_response K"
| "response_codec K (DeleteRequest key) = delete_response K"

lemma kv_router_types:
  assumes "distinct [type_id (get_request K), type_id (set_request K), type_id (delete_request K)]"
    and "message_type e = type_id (request_codec K req)"
  shows "kv_router K node store e
    = LocalNode_handler (LocalNode_new node) (request_codec K req) (response_codec K req) store e"
  using assms
  by (cases req)
    (auto simp: kv_router_def Let_def fun_eq_iff MessageRouter_build_def MessageRouter_route_def MessageRouter_new_def)

lemma store_handler_step:
  assumes "mpsc_laws M contents cap live" and "idle contents cap live t st"
    and "prost_ok RM req" and "prost_ok RR (snd (kv_handle req st))"
    and "Envelope_from_message RM req cid sender target = Some e"
  shows "\<exists>resp t'. LocalNode_handler n RM RR (actor_port_of M kv_behaviour spoll sig) e t = (Some resp, t') \<and>
    replies_to e resp \<and> decode RR (payload resp) = Some (snd (kv_handle req st)) \<and>
    idle contents cap live t' (fst (kv_handle req st)) \<and>
    resp = \<lparr>message_type = type_id RR, payload = the (encode RR (snd (kv_handle req st))), correlation_id = correlation_id e,
      sender_node = node_name (local_id n), target_actor = sender_node e, is_response = True\<rparr>"
proof -
  obtain t' where t': "ask_actor M kv_behaviour spoll sig (User req) t = (Some (Inr (snd (kv_handle req st))), t')"
    "idle contents cap live t' (fst (kv_handle req st))"
    using ask_actor_pure [OF assms(1) kv_pure assms(2), of spoll sig req] by blast
  obtain b where "encode RM req = Some b" "decode RM b = Some req"
    using assms(3) by (auto simp: prost_ok_def split: option.splits)
  moreover obtain b' where "encode RR (snd (kv_handle req st)) = Some b'" "decode RR b' = Some (snd (kv_handle req st))"
    using assms(4) by (auto simp: prost_ok_def split: option.splits)
  ultimately show ?thesis
    using assms(5) t'
    by (auto simp: LocalNode_handler_def make_handler_def actor_port_of_def Envelope_from_message_def replies_to_def)
qed

text \<open>
  C26. A remote set is visible to a remote get. On the store's node, an envelope with a set
  request followed by one with a get request for the same key, both serialized by prost and
  dispatched by the node's router to the store actor, is answered with the value that was set,
  in an envelope that answers the get.
\<close>

theorem kv_remote_set_get:
  assumes "mpsc_laws M contents cap live" and "idle contents cap live t st"
    and "distinct [type_id (get_request K), type_id (set_request K), type_id (delete_request K)]"
    and "prost_ok (set_request K) (SetRequest key val)" and "prost_ok (set_response K) (SetResponse True)"
    and "prost_ok (get_request K) (GetRequest key)" and "prost_ok (get_response K) (GetResponse (Some val))"
    and "Envelope_from_message (set_request K) (SetRequest key val) cid1 sender target = Some e1"
    and "Envelope_from_message (get_request K) (GetRequest key) cid2 sender target = Some e2"
  shows "\<exists>r1 t1 r2 t2. kv_router K node (actor_port_of M kv_behaviour spoll sig) e1 t = (Some r1, t1) \<and>
    kv_router K node (actor_port_of M kv_behaviour spoll sig) e2 t1 = (Some r2, t2) \<and>
    replies_to e2 r2 \<and> decode (get_response K) (payload r2) = Some (GetResponse (Some val))"
proof -
  have ty: "message_type e1 = type_id (set_request K)" "message_type e2 = type_id (get_request K)"
    using assms(8,9) by (auto simp: Envelope_from_message_def split: option.splits)
  let ?st = "fst (kv_handle (SetRequest key val) st)"
  obtain r1 t1 where r1: "kv_router K node (actor_port_of M kv_behaviour spoll sig) e1 t = (Some r1, t1)"
    "idle contents cap live t1 ?st"
    using store_handler_step [OF assms(1,2,4) _ assms(8), of "set_response K" "LocalNode_new node" spoll sig] assms(5)
    by (auto simp: kv_router_types [OF assms(3), of e1 "SetRequest key val"] ty kv_set_def)
  have "snd (kv_handle (GetRequest key) ?st) = GetResponse (Some val)"
    by (simp add: kv_get_def kv_set_def)
  then obtain r2 t2 where "kv_router K node (actor_port_of M kv_behaviour spoll sig) e2 t1 = (Some r2, t2)"
    "replies_to e2 r2" "decode (get_response K) (payload r2) = Some (GetResponse (Some val))"
    using store_handler_step [OF assms(1) r1(2) assms(6) _ assms(9), of "get_response K" "LocalNode_new node" spoll sig] assms(7)
    by (auto simp: kv_router_types [OF assms(3), of e2 "GetRequest key"] ty)
  with r1(1) show ?thesis by blast
qed

text \<open>A serializer that knows one message.\<close>

definition one_message :: "string \<Rightarrow> 'x \<Rightarrow> 'x RemoteMessage" where
  "one_message ty x = \<lparr>encode = (\<lambda>_. Some [0]), decode = (\<lambda>_. Some x), type_id = ty\<rparr>"

definition sample_codecs :: kv_codecs where
  "sample_codecs =
     \<lparr>get_request = one_message ''Get'' (GetRequest ''k''), set_request = one_message ''Set'' (SetRequest ''k'' ''v''),
      delete_request = one_message ''Delete'' (DeleteRequest ''k''), get_response = one_message ''GetR'' (GetResponse (Some ''v'')),
      set_response = one_message ''SetR'' (SetResponse True), delete_response = one_message ''DeleteR'' (DeleteResponse True)\<rparr>"

theorem kv_remote_set_get_witness:
  "\<exists>e1 e2 r1 t1 r2 t2.
    kv_router sample_codecs ''node-1'' (actor_port_of list_mpsc kv_behaviour (\<lambda>st. (StreamPending :: unit stream_poll, st)) quiet)
      e1 (ActorRunning True [] kv_cell) = (Some r1, t1) \<and>
    kv_router sample_codecs ''node-1'' (actor_port_of list_mpsc kv_behaviour (\<lambda>st. (StreamPending :: unit stream_poll, st)) quiet)
      e2 t1 = (Some r2, t2) \<and>
    decode (get_response sample_codecs) (payload r2) = Some (GetResponse (Some ''v''))"
proof -
  have i: "idle (\<lambda>(n, live, xs). xs) fst (\<lambda>(n, live, xs). live) (ActorRunning True [] kv_cell) KVStore_new"
    by (auto simp: idle_def kv_cell_def)
  obtain e1 where e1: "Envelope_from_message (set_request sample_codecs) (SetRequest ''k'' ''v'') 1 ''a'' ''kv'' = Some e1"
    by (simp add: Envelope_from_message_def sample_codecs_def one_message_def)
  obtain e2 where e2: "Envelope_from_message (get_request sample_codecs) (GetRequest ''k'') 2 ''a'' ''kv'' = Some e2"
    by (simp add: Envelope_from_message_def sample_codecs_def one_message_def)
  show ?thesis
    using kv_remote_set_get [OF list_mpsc_laws i _ _ _ _ _ e1 e2, of "''node-1''" "\<lambda>st. (StreamPending :: unit stream_poll, st)" quiet]
    by (simp add: sample_codecs_def one_message_def prost_ok_def) blast
qed

section \<open>The shell\<close>

text \<open>
  \<open>u16::from_str\<close>: an optional plus sign and at least one digit, at most 65535. A node named
  \<open>node-n\<close> listens on port 7000 + n, where the sum panics beyond 65535 (None).
\<close>

fun parse_digits :: "nat \<Rightarrow> string \<Rightarrow> nat option" where
  "parse_digits acc [] = Some acc"
| "parse_digits acc (c # cs) =
     (let d = of_char c - of_char (CHR ''0'') in
      if of_char (CHR ''0'') \<le> (of_char c :: nat) \<and> d \<le> 9 \<and> acc * 10 + d \<le> 65535
      then parse_digits (acc * 10 + d) cs else None)"

definition parse_u16 :: "string \<Rightarrow> nat option" where
  "parse_u16 s =
     (let digits = (case s of c # cs \<Rightarrow> if c = CHR ''+'' then cs else s | [] \<Rightarrow> [])
      in if digits = [] then None else parse_digits 0 digits)"

definition kv_port :: "string \<Rightarrow> nat option" where
  "kv_port node =
     (if take 5 node = ''node-'' then
        (let n = (case parse_u16 (drop 5 node) of Some n \<Rightarrow> n | None \<Rightarrow> 1)
         in if 7000 + n \<le> 65535 then Some (7000 + n) else None)
      else Some 7001)"

text \<open>The commands of the shell, on the words of an input line.\<close>

datatype kv_action =
    Ignored
  | Usage string
  | CallStore kv_request
  | ShowMembers
  | ShowActors
  | Quit
  | UnknownCommand string

fun join_words :: "string list \<Rightarrow> string" where
  "join_words [] = []"
| "join_words [w] = w"
| "join_words (w # ws) = w @ '' '' @ join_words ws"

definition kv_command :: "string list \<Rightarrow> kv_action" where
  "kv_command parts =
     (case parts of
        [] \<Rightarrow> Ignored
      | cmd # args \<Rightarrow>
          if cmd = ''get'' then
            (case args of [] \<Rightarrow> Usage ''usage: get <key>'' | key # _ \<Rightarrow> CallStore (GetRequest key))
          else if cmd = ''set'' then
            (case args of
               key # v # vs \<Rightarrow> CallStore (SetRequest key (join_words (v # vs)))
             | _ \<Rightarrow> Usage ''usage: set <key> <value>'')
          else if cmd = ''delete'' then
            (case args of [] \<Rightarrow> Usage ''usage: delete <key>'' | key # _ \<Rightarrow> CallStore (DeleteRequest key))
          else if cmd = ''members'' then ShowMembers
          else if cmd = ''actors'' then ShowActors
          else if cmd = ''quit'' \<or> cmd = ''exit'' then Quit
          else UnknownCommand cmd)"

text \<open>
  On the client's side a response has its own type: the serializers of the three response types
  as those of \<open>GetResponse\<close> (with the field \<open>value\<close>), \<open>SetResponse\<close>
  (\<open>success\<close>) and \<open>DeleteResponse\<close> (\<open>deleted\<close>).
\<close>

definition as_get :: "kv_response RemoteMessage \<Rightarrow> string option RemoteMessage" where
  "as_get R = \<lparr>encode = (\<lambda>v. encode R (GetResponse v)),
     decode = (\<lambda>b. case decode R b of Some (GetResponse v) \<Rightarrow> Some v | _ \<Rightarrow> None), type_id = type_id R\<rparr>"

definition as_set :: "kv_response RemoteMessage \<Rightarrow> bool RemoteMessage" where
  "as_set R = \<lparr>encode = (\<lambda>v. encode R (SetResponse v)),
     decode = (\<lambda>b. case decode R b of Some (SetResponse v) \<Rightarrow> Some v | _ \<Rightarrow> None), type_id = type_id R\<rparr>"

definition as_delete :: "kv_response RemoteMessage \<Rightarrow> bool RemoteMessage" where
  "as_delete R = \<lparr>encode = (\<lambda>v. encode R (DeleteResponse v)),
     decode = (\<lambda>b. case decode R b of Some (DeleteResponse v) \<Rightarrow> Some v | _ \<Rightarrow> None), type_id = type_id R\<rparr>"

text \<open>What the shell prints for a response.\<close>

definition get_text :: "string option \<Rightarrow> string" where
  "get_text v = (case v of Some text \<Rightarrow> text | None \<Rightarrow> ''(nil)'')"

definition set_text :: "bool \<Rightarrow> string" where
  "set_text success = ''OK''"

definition delete_text :: "bool \<Rightarrow> string" where
  "delete_text deleted = (if deleted then ''deleted'' else ''not found'')"

lemma parse_digits_bound: "acc \<le> 65535 \<Longrightarrow> parse_digits acc cs = Some n \<Longrightarrow> n \<le> 65535"
  by (induction acc cs rule: parse_digits.induct) (auto simp: Let_def split: if_splits)

lemma parse_u16_bound: "parse_u16 s = Some n \<Longrightarrow> n \<le> 65535"
  using parse_digits_bound [of 0] by (auto simp: parse_u16_def Let_def split: if_splits list.splits)

lemma kv_port_range: "kv_port node = Some p \<Longrightarrow> 7000 \<le> p \<and> p \<le> 65535"
  by (auto simp: kv_port_def Let_def split: if_splits option.splits)

lemma kv_port_panics: "kv_port ''node-60000'' = None"
  by (simp add: kv_port_def parse_u16_def Let_def)

end
