(* ===== verification/Cluster_Client.thy ===== *)
theory Cluster_Client
  imports Cluster_Server
begin

text \<open>
  The cluster client (\<open>src/remote/cluster_client.rs\<close>): it finds an actor's node in the
  cluster view, keeps one client task per node in a connection pool, and wraps actor envelopes
  into cluster messages. The two awaits of a request split it into three parts: up to the
  command given to the client task, the answer of that task, and the unwrapping.
\<close>

section \<open>The connection pool\<close>

text \<open>
  A pooled \<open>RemoteClient\<close> is a handle, the index of its task in the list of client tasks
  started so far.
\<close>

record 'c ConnectionPool =
  clients :: "(string, nat) hashmap"
  client_tasks :: "'c client_task list"

definition ConnectionPool_new :: "'c ConnectionPool" where
  "ConnectionPool_new = \<lparr>clients = [], client_tasks = []\<rparr>"

definition ConnectionPool_get_or_connect ::
    "'c network \<Rightarrow> string \<Rightarrow> 'c ConnectionPool \<Rightarrow> (TransportError + nat) \<times> 'c ConnectionPool" where
  "ConnectionPool_get_or_connect N addr pool =
     (case hm_get (clients pool) addr of
        Some client \<Rightarrow> (Inr client, pool)
      | None \<Rightarrow>
          (case TcpTransport_connect N addr of
             Inl err \<Rightarrow> (Inl err, pool)
           | Inr conn \<Rightarrow>
               (let client = length (client_tasks pool)
                in (Inr client, pool\<lparr>clients := hm_insert addr client (clients pool),
                                     client_tasks := client_tasks pool @ [client_start conn]\<rparr>))))"

definition ConnectionPool_remove :: "string \<Rightarrow> 'c ConnectionPool \<Rightarrow> 'c ConnectionPool" where
  "ConnectionPool_remove addr pool = pool\<lparr>clients := hm_remove addr (clients pool)\<rparr>"

section \<open>Requests\<close>

record 'c ClusterClient =
  cc_cluster :: ClusterNode
  cc_pool :: "'c ConnectionPool"
  cc_local_node_id :: string

definition ClusterClient_new :: "ClusterNode \<Rightarrow> 'c ClusterClient" where
  "ClusterClient_new cluster =
     \<lparr>cc_cluster = cluster, cc_pool = ConnectionPool_new, cc_local_node_id = node_id (local_node cluster)\<rparr>"

definition locate_actor :: "ClusterNode \<Rightarrow> string \<Rightarrow> TransportError + Node" where
  "locate_actor cluster actor_id =
     (case lookup_actor cluster actor_id of
        None \<Rightarrow> Inl (Io NotFound)
      | Some (node, _) \<Rightarrow>
          (case find (\<lambda>n. node_id n = node) (get_members cluster) of
             None \<Rightarrow> Inl (Io NotFound)
           | Some n \<Rightarrow> Inr n))"

text \<open>
  The part common to \<open>send_to_actor\<close> and \<open>do_send_to_actor\<close>: the client to use, the
  address of its node and the transport envelope to send.
\<close>

definition prepare_send ::
    "'c network \<Rightarrow> ClusterMessage prost \<Rightarrow> string \<Rightarrow> Envelope \<Rightarrow> 'c ClusterClient
      \<Rightarrow> (TransportError + nat \<times> string \<times> Envelope) \<times> 'c ClusterClient" where
  "prepare_send N P actor_id envelope cc =
     (case locate_actor (cc_cluster cc) actor_id of
        Inl err \<Rightarrow> (Inl err, cc)
      | Inr node \<Rightarrow>
          (case encode P \<lparr>cm_payload = Some (PayloadEnvelope envelope)\<rparr> of
             None \<Rightarrow> (Inl (Io InvalidData), cc)
           | Some buf \<Rightarrow>
               (case ConnectionPool_get_or_connect N (node_addr node) (cc_pool cc) of
                  (Inl err, pool) \<Rightarrow> (Inl err, cc\<lparr>cc_pool := ConnectionPool_remove (node_addr node) pool\<rparr>)
                | (Inr client, pool) \<Rightarrow>
                    (Inr (client, node_addr node, cluster_envelope buf (cc_local_node_id cc) False),
                     cc\<lparr>cc_pool := pool\<rparr>))))"

text \<open>The result of the client task: a failure empties the node's place in the pool.\<close>

definition finish_send ::
    "ClusterMessage prost \<Rightarrow> string \<Rightarrow> TransportError + Envelope \<Rightarrow> 'c ClusterClient
      \<Rightarrow> (TransportError + Envelope) \<times> 'c ClusterClient" where
  "finish_send P addr res cc =
     (case res of
        Inl err \<Rightarrow> (Inl err, cc\<lparr>cc_pool := ConnectionPool_remove addr (cc_pool cc)\<rparr>)
      | Inr response \<Rightarrow>
          (case decode P (payload response) of
             None \<Rightarrow> (Inl (Io InvalidData), cc)
           | Some cluster_resp \<Rightarrow>
               (case cm_payload cluster_resp of
                  Some (PayloadEnvelope actor_response) \<Rightarrow> (Inr actor_response, cc)
                | _ \<Rightarrow> (Inl (Io InvalidData), cc))))"

definition clear_connection :: "string \<Rightarrow> 'c ClusterClient \<Rightarrow> 'c ClusterClient" where
  "clear_connection addr cc = cc\<lparr>cc_pool := ConnectionPool_remove addr (cc_pool cc)\<rparr>"

text \<open>An event of the task behind a handle.\<close>

definition task_event :: "'c network \<Rightarrow> nat \<Rightarrow> client_event \<Rightarrow> 'c ClusterClient \<Rightarrow> 'c ClusterClient" where
  "task_event N client ev cc =
     (let pool = cc_pool cc
      in cc\<lparr>cc_pool := pool\<lparr>client_tasks := (client_tasks pool)[client := client_step N ev (client_tasks pool ! client)]\<rparr>\<rparr>)"

text \<open>
  A request with the number tx: the command is handed to the client task, which then handles the
  events \<open>evs\<close> of its connection and of other requests, and the answer is taken; None while
  it has not come. \<open>do_send_to_actor\<close> only hands over the command. The command channel
  is not modelled a second time: a command goes straight to the task, and is refused once the
  task has ended.
\<close>

definition send_to_actor ::
    "'c network \<Rightarrow> ClusterMessage prost \<Rightarrow> string \<Rightarrow> Envelope \<Rightarrow> nat \<Rightarrow> client_event list \<Rightarrow> 'c ClusterClient
      \<Rightarrow> (TransportError + Envelope) option \<times> 'c ClusterClient" where
  "send_to_actor N P actor_id envelope tx evs cc =
     (case prepare_send N P actor_id envelope cc of
        (Inl err, cc1) \<Rightarrow> (Some (Inl err), cc1)
      | (Inr (client, addr, e), cc1) \<Rightarrow>
          (let cc2 = fold (task_event N client) (CommandReady (ClientSend e (Some tx)) # evs) cc1
           in (case map_response (client_rx (client_tasks (cc_pool cc2) ! client) tx) of
                 None \<Rightarrow> (None, cc2)
               | Some res \<Rightarrow> (case finish_send P addr res cc2 of (r, cc3) \<Rightarrow> (Some r, cc3)))))"

definition do_send_to_actor ::
    "'c network \<Rightarrow> ClusterMessage prost \<Rightarrow> string \<Rightarrow> Envelope \<Rightarrow> 'c ClusterClient
      \<Rightarrow> (TransportError + unit) \<times> 'c ClusterClient" where
  "do_send_to_actor N P actor_id envelope cc =
     (case prepare_send N P actor_id envelope cc of
        (Inl err, cc1) \<Rightarrow> (Inl err, cc1)
      | (Inr (client, addr, e), cc1) \<Rightarrow>
          (if cl_open (client_tasks (cc_pool cc1) ! client) then Inr () else Inl Disconnected,
           task_event N client (CommandReady (ClientSend e None)) cc1))"

section \<open>Typed addresses\<close>

record 'c ClusterRemoteAddr =
  cra_actor_id :: string
  cra_client :: "'c ClusterClient"

definition ClusterClient_remote_addr :: "string \<Rightarrow> 'c ClusterClient \<Rightarrow> 'c ClusterRemoteAddr" where
  "ClusterClient_remote_addr actor_id cc = \<lparr>cra_actor_id = actor_id, cra_client = cc\<rparr>"

definition cra_envelope :: "'m RemoteMessage \<Rightarrow> 'm \<Rightarrow> u64 \<Rightarrow> 'c ClusterRemoteAddr \<Rightarrow> (Envelope \<times> u64) option" where
  "cra_envelope RM m counter addr =
     (case next_correlation_id counter of
        (cid, counter') \<Rightarrow>
          map_option (\<lambda>e. (e, counter')) (Envelope_from_message RM m cid (cc_local_node_id (cra_client addr)) (cra_actor_id addr)))"

text \<open>
  \<open>send\<close>, \<open>call\<close> and \<open>do_send\<close> of a typed address. The outer None is the panic of the
  encoder in \<open>from_message\<close>; an answer None means that the request still waits.
\<close>

definition cra_send ::
    "'c network \<Rightarrow> ClusterMessage prost \<Rightarrow> 'm RemoteMessage \<Rightarrow> 'm \<Rightarrow> u64 \<Rightarrow> nat \<Rightarrow> client_event list \<Rightarrow> 'c ClusterRemoteAddr
      \<Rightarrow> ((TransportError + Envelope) option \<times> 'c ClusterClient) option" where
  "cra_send N P RM m counter tx evs addr =
     map_option (\<lambda>(e, counter'). send_to_actor N P (cra_actor_id addr) e tx evs (cra_client addr))
       (cra_envelope RM m counter addr)"

definition decode_reply :: "'r RemoteMessage \<Rightarrow> TransportError + Envelope \<Rightarrow> TransportError + 'r" where
  "decode_reply RR res =
     (case res of
        Inl err \<Rightarrow> Inl err
      | Inr response \<Rightarrow>
          (case decode RR (payload response) of None \<Rightarrow> Inl (Io InvalidData) | Some r \<Rightarrow> Inr r))"

definition cra_call ::
    "'c network \<Rightarrow> ClusterMessage prost \<Rightarrow> 'm RemoteMessage \<Rightarrow> 'r RemoteMessage \<Rightarrow> 'm \<Rightarrow> u64 \<Rightarrow> nat \<Rightarrow> client_event list
      \<Rightarrow> 'c ClusterRemoteAddr \<Rightarrow> ((TransportError + 'r) option \<times> 'c ClusterClient) option" where
  "cra_call N P RM RR m counter tx evs addr =
     map_option (\<lambda>(res, cc). (map_option (decode_reply RR) res, cc)) (cra_send N P RM m counter tx evs addr)"

definition cra_do_send ::
    "'c network \<Rightarrow> ClusterMessage prost \<Rightarrow> 'm RemoteMessage \<Rightarrow> 'm \<Rightarrow> u64 \<Rightarrow> 'c ClusterRemoteAddr
      \<Rightarrow> ((TransportError + unit) \<times> 'c ClusterClient) option" where
  "cra_do_send N P RM m counter addr =
     map_option (\<lambda>(e, counter'). do_send_to_actor N P (cra_actor_id addr) e (cra_client addr))
       (cra_envelope RM m counter addr)"

section \<open>The pool is a table of connections\<close>

interpretation pool: name_table ConnectionPool_new
    "\<lambda>addr client pool. pool\<lparr>clients := hm_insert addr client (clients pool)\<rparr>"
    "\<lambda>pool. hm_get (clients pool)" "\<lambda>pool. hm_wf (clients pool)" ConnectionPool_remove
  by unfold_locales (simp_all add: ConnectionPool_new_def ConnectionPool_remove_def)

text \<open>Every pooled handle is the index of a client task.\<close>

definition pool_ok :: "'c ConnectionPool \<Rightarrow> bool" where
  "pool_ok pool \<longleftrightarrow> hm_wf (clients pool) \<and>
     (\<forall>addr client. hm_get (clients pool) addr = Some client \<longrightarrow> client < length (client_tasks pool))"

lemma get_or_connect_ok:
  assumes "pool_ok pool" and "ConnectionPool_get_or_connect N addr pool = (Inr client, pool')"
  shows "pool_ok pool' \<and> client < length (client_tasks pool') \<and> hm_get (clients pool') addr = Some client"
proof (cases "hm_get (clients pool) addr")
  case (Some old)
  with assms show ?thesis by (auto simp: ConnectionPool_get_or_connect_def pool_ok_def)
next
  case None
  with assms(2) obtain conn where c: "TcpTransport_connect N addr = Inr conn" "client = length (client_tasks pool)"
    "pool' = pool\<lparr>clients := hm_insert addr client (clients pool), client_tasks := client_tasks pool @ [client_start conn]\<rparr>"
    by (auto simp: ConnectionPool_get_or_connect_def Let_def split: sum.splits)
  have "c < Suc (length (client_tasks pool))" if "hm_get (clients pool) a = Some c" for a c
    using assms(1) that by (auto simp: pool_ok_def intro: less_SucI)
  with assms(1) c show ?thesis by (auto simp: pool_ok_def)
qed

text \<open>
  Connections are reused. Once a connection to an address is in the pool, asking for it
  again gives the same client and touches neither the pool nor the network, whatever the
  network would do, until it is removed; after the removal the next request dials again.
\<close>

lemma pool_reuses_connection:
  assumes "pool_ok pool" and "ConnectionPool_get_or_connect N addr pool = (Inr client, pool')"
  shows "ConnectionPool_get_or_connect N' addr pool' = (Inr client, pool') \<and>
    ConnectionPool_get_or_connect N' addr (ConnectionPool_remove addr pool') =
      (case TcpTransport_connect N' addr of
         Inl err \<Rightarrow> (Inl err, ConnectionPool_remove addr pool')
       | Inr conn \<Rightarrow>
           (Inr (length (client_tasks pool')),
            (ConnectionPool_remove addr pool')
              \<lparr>clients := hm_insert addr (length (client_tasks pool')) (hm_remove addr (clients pool')),
               client_tasks := client_tasks pool' @ [client_start conn]\<rparr>))"
  using get_or_connect_ok [OF assms]
  by (simp add: ConnectionPool_get_or_connect_def ConnectionPool_remove_def Let_def split: sum.split)

section \<open>Finding the actor\<close>

lemma find_member:
  assumes "cluster_ok c"
  shows "find (\<lambda>n. node_id n = i) (get_members c) = hm_get (members c) i"
proof (cases "hm_get (members c) i")
  case None
  have "node_id n \<noteq> i" if "n \<in> set (get_members c)" for n
    using that None assms hm_values_get [of "members c" n]
    by (auto simp: get_members_def cluster_ok_def members_ok_def)
  then show ?thesis using None by (simp add: find_None_iff)
next
  case (Some node)
  then have n: "node \<in> set (get_members c)" "node_id node = i"
    using assms hm_values_get [of "members c" node] by (auto simp: get_members_def cluster_ok_def members_ok_def)
  have inj: "inj_on node_id (set (get_members c))"
    using members_distinct [OF assms] by (simp add: distinct_map)
  obtain n' where n': "find (\<lambda>n. node_id n = i) (get_members c) = Some n'"
    using n by (cases "find (\<lambda>n. node_id n = i) (get_members c)") (auto simp: find_None_iff)
  then have "n' \<in> set (get_members c)" "node_id n' = i" by (auto simp: find_Some_iff)
  with n inj have "n' = node" by (metis inj_onD)
  with Some n' show ?thesis by simp
qed

text \<open>
  Every way a request can fail before it is sent. An actor that is not in the cluster's
  table, or one on a node that is not a member, gives a NotFound error, and a node that cannot
  be reached gives the connection's error; the pool gains nothing in these cases. Otherwise the
  request goes, wrapped and with the local node as sender, to the client of the node the actor
  lives on.
\<close>

lemma prepare_send_cases:
  assumes "cluster_ok (cc_cluster cc)" and "encode P \<lparr>cm_payload = Some (PayloadEnvelope e)\<rparr> = Some buf"
  shows "prepare_send N P actor_id e cc =
    (case lookup_actor (cc_cluster cc) actor_id of
       None \<Rightarrow> (Inl (Io NotFound), cc)
     | Some (i, ty) \<Rightarrow>
         (case hm_get (members (cc_cluster cc)) i of
            None \<Rightarrow> (Inl (Io NotFound), cc)
          | Some node \<Rightarrow>
              (case ConnectionPool_get_or_connect N (node_addr node) (cc_pool cc) of
                 (Inl err, pool) \<Rightarrow> (Inl err, cc\<lparr>cc_pool := ConnectionPool_remove (node_addr node) (cc_pool cc)\<rparr>)
               | (Inr client, pool) \<Rightarrow>
                   (Inr (client, node_addr node, cluster_envelope buf (cc_local_node_id cc) False), cc\<lparr>cc_pool := pool\<rparr>))))"
proof -
  have "snd (ConnectionPool_get_or_connect N addr pool) = pool" if "fst (ConnectionPool_get_or_connect N addr pool) = Inl err" for addr pool err
    using that by (auto simp: ConnectionPool_get_or_connect_def Let_def split: option.splits sum.splits)
  then have pool: "pool' = pool" if "ConnectionPool_get_or_connect N addr pool = (Inl err, pool')" for addr pool err pool'
    using that by (metis fst_conv snd_conv)
  show ?thesis
    using assms(2) find_member [OF assms(1)]
    by (auto simp: prepare_send_def locate_actor_def dest: pool split: option.split prod.split sum.split)
qed

section \<open>A call from end to end\<close>

text \<open>
  A network on which addr can be dialled, every envelope is accepted, and the other end, a
  cluster node b with its state s, answers as \<open>cluster_serve\<close> says.
\<close>

definition reaches ::
    "'c network \<Rightarrow> string \<Rightarrow> ClusterMessage prost \<Rightarrow> 's EnvelopeHandler \<Rightarrow> instant \<Rightarrow> ClusterNode \<times> 's \<Rightarrow> bool" where
  "reaches N addr P h now node \<longleftrightarrow>
     (\<exists>c0. dial N addr = Inr c0 \<and>
       (\<forall>e. \<exists>c1 c2. sink_send N e c0 = (None, c1) \<and>
          stream_next N c1 = (map_option Inr (fst (cluster_serve P (Some h) now e node)), c2)))"

lemma cluster_call:
  assumes "cluster_ok (cc_cluster cc)" and "lookup_actor (cc_cluster cc) actor_id = Some (i, ty)"
    and "hm_get (members (cc_cluster cc)) i = Some node" and "hm_get (clients (cc_pool cc)) (node_addr node) = None"
    and "reaches N (node_addr node) P h now (b, s)"
    and "Envelope_from_message RM m counter (cc_local_node_id cc) actor_id = Some e"
    and "prost_ok P \<lparr>cm_payload = Some (PayloadEnvelope e)\<rparr>"
    and "h e s = (Some resp, s')" and "prost_ok P \<lparr>cm_payload = Some (PayloadEnvelope resp)\<rparr>"
  shows "\<exists>cc'. cra_call N P RM RR m counter tx [ConnReady] (ClusterClient_remote_addr actor_id cc)
    = Some (Some (decode_reply RR (Inr resp)), cc')"
proof -
  obtain buf where buf: "encode P \<lparr>cm_payload = Some (PayloadEnvelope e)\<rparr> = Some buf"
    "decode P buf = Some \<lparr>cm_payload = Some (PayloadEnvelope e)\<rparr>"
    using assms(7) by (auto simp: prost_ok_def split: option.splits)
  obtain rbuf where rbuf: "encode P \<lparr>cm_payload = Some (PayloadEnvelope resp)\<rparr> = Some rbuf"
    "decode P rbuf = Some \<lparr>cm_payload = Some (PayloadEnvelope resp)\<rparr>"
    using assms(9) by (auto simp: prost_ok_def split: option.splits)
  let ?te = "cluster_envelope buf (cc_local_node_id cc) False"
  let ?re = "cluster_envelope rbuf (node_id (local_node b)) True"
  have serve: "fst (cluster_serve P (Some h) now ?te (b, s)) = Some ?re"
    using buf(2) rbuf(1) assms(8) by (simp add: cluster_serve_def cluster_envelope_def wrap_response_def)
  obtain c0 where d: "dial N (node_addr node) = Inr c0"
    and net: "\<forall>e. \<exists>c1 c2. sink_send N e c0 = (None, c1) \<and>
        stream_next N c1 = (map_option Inr (fst (cluster_serve P (Some h) now e (b, s))), c2)"
    using assms(5) unfolding reaches_def by blast
  obtain c1 c2 where n: "sink_send N ?te c0 = (None, c1)" "stream_next N c1 = (Some (Inr ?re), c2)"
    using net [rule_format, of ?te] serve by auto
  let ?pool = "(cc_pool cc)\<lparr>clients := hm_insert (node_addr node) (length (client_tasks (cc_pool cc))) (clients (cc_pool cc)),
      client_tasks := client_tasks (cc_pool cc) @ [client_start (TcpConnection_new N c0)]\<rparr>"
  have prep: "prepare_send N P actor_id e cc =
      (Inr (length (client_tasks (cc_pool cc)), node_addr node, ?te), cc\<lparr>cc_pool := ?pool\<rparr>)"
    using assms(2-4) d buf(1) find_member [OF assms(1), of i]
    by (simp add: prepare_send_def locate_actor_def ConnectionPool_get_or_connect_def TcpTransport_connect_def Let_def)
  have "\<exists>cc'. send_to_actor N P actor_id e tx [ConnReady] cc = (Some (Inr resp), cc')"
    using n rbuf(2)
    by (simp add: send_to_actor_def prep task_event_def client_start_def client_send_command_def client_track_def
        client_receive_def client_resolve_def TcpConnection_send_def TcpConnection_recv_def TcpConnection_new_def
        cluster_envelope_def client_rx_def finish_send_def Let_def)
  then show ?thesis
    using assms(6)
    by (auto simp: cra_call_def cra_send_def cra_envelope_def ClusterClient_remote_addr_def next_correlation_id_def fetch_add_def)
qed

text \<open>
  C35. Concurrent requests on one connection collide. Two requests to actors on the same node
  share the pooled connection, and both transport envelopes carry the correlation identifier 0.
  If the second is sent before the first is answered, the first fails as disconnected, although
  the connection is up, and the answer that arrives is handed to the second.
\<close>

theorem concurrent_requests_collide:
  assumes "prepare_send N P a1 e1 cc = (Inr (client, addr1, t1), cc1)"
    and "prepare_send N P a2 e2 cc1 = (Inr (client, addr2, t2), cc1)"
    and "client < length (client_tasks (cc_pool cc1))"
    and "client_tasks (cc_pool cc1) ! client = client_start conn0"
    and "TcpConnection_send N t1 conn0 = (Inr (), conn1)" and "TcpConnection_send N t2 conn1 = (Inr (), conn2)"
    and "TcpConnection_recv N conn2 = (Inr r, conn3)" and "is_response r" and "correlation_id r = 0"
    and "tx1 \<noteq> tx2"
  shows "\<exists>cc'. send_to_actor N P a1 e1 tx1 [CommandReady (ClientSend t2 (Some tx2)), ConnReady] cc = (Some (Inl Disconnected), cc')
    \<and> client_rx (client_tasks (cc_pool cc') ! client) tx2 = Some (Some (Inr r))"
proof -
  have ids: "correlation_id t1 = 0" "correlation_id t2 = 0"
    using assms(1,2) by (auto simp: prepare_send_def cluster_envelope_def split: sum.splits option.splits prod.splits)
  show ?thesis
    using assms(3-10)
    by (simp add: send_to_actor_def assms(1) ids task_event_def client_start_def client_send_command_def client_track_def
        client_receive_def client_resolve_def client_rx_def finish_send_def ConnectionPool_remove_def Let_def)
qed

section \<open>Witnesses\<close>

definition dialled_network :: "Envelope list network" where
  "dialled_network = scripted_network\<lparr>dial := \<lambda>addr. Inr [reply 0]\<rparr>"

definition any_prost :: "ClusterMessage prost" where
  "any_prost = two_prost \<lparr>cm_payload = Some (PayloadEnvelope (ask 1))\<rparr> \<lparr>cm_payload = None\<rparr>"

definition sample_client :: "Envelope list ClusterClient" where
  "sample_client = ClusterClient_new watching_cluster"

lemmas sample_client_defs = sample_client_def ClusterClient_new_def ConnectionPool_new_def dialled_network_def
  any_prost_def two_prost_def scripted_network_def

lemma sample_prepare_send:
  fixes e :: Envelope
  defines "pool \<equiv> \<lparr>clients = [(''host'', 0)],
    client_tasks = [client_start (TcpConnection_new dialled_network [reply 0])]\<rparr>"
  shows "\<exists>buf. prepare_send dialled_network any_prost ''kv'' e sample_client =
      (Inr (0, ''host'', cluster_envelope buf ''a'' False), sample_client\<lparr>cc_pool := pool\<rparr>)"
    and "\<exists>buf. prepare_send dialled_network any_prost ''kv'' e (sample_client\<lparr>cc_pool := pool\<rparr>) =
      (Inr (0, ''host'', cluster_envelope buf ''a'' False), sample_client\<lparr>cc_pool := pool\<rparr>)"
  by (auto simp: prepare_send_def locate_actor_def ConnectionPool_get_or_connect_def TcpTransport_connect_def
      get_members_def hm_values_def hm_insert_def hm_get_def sample_client_defs watching_cluster_defs pool_def)

theorem concurrent_requests_collide_witness:
  "\<exists>t2 cc'. send_to_actor dialled_network any_prost ''kv'' (ask 1) 1 [CommandReady (ClientSend t2 (Some 2)), ConnReady] sample_client
      = (Some (Inl Disconnected), cc')
    \<and> client_rx (client_tasks (cc_pool cc') ! 0) 2 = Some (Some (Inr (reply 0)))"
proof -
  let ?conn = "TcpConnection_new dialled_network [reply 0]"
  let ?cc = "sample_client\<lparr>cc_pool := \<lparr>clients = [(''host'', 0)], client_tasks = [client_start ?conn]\<rparr>\<rparr>"
  obtain buf1 where p1: "prepare_send dialled_network any_prost ''kv'' (ask 1) sample_client =
      (Inr (0, ''host'', cluster_envelope buf1 ''a'' False), ?cc)" using sample_prepare_send(1) by blast
  obtain buf2 where p2: "prepare_send dialled_network any_prost ''kv'' (ask 2) ?cc =
      (Inr (0, ''host'', cluster_envelope buf2 ''a'' False), ?cc)" using sample_prepare_send(2) by blast
  have net: "TcpConnection_send dialled_network e ?conn = (Inr (), ?conn)"
    "TcpConnection_recv dialled_network ?conn = (Inr (reply 0), ?conn\<lparr>framed := []\<rparr>)" for e
    by (simp_all add: TcpConnection_send_def TcpConnection_recv_def TcpConnection_new_def dialled_network_def scripted_network_def)
  show ?thesis
    using concurrent_requests_collide [OF p1 p2 _ _ net(1) net(1) net(2), of 1 2] by (auto simp: reply_def)
qed

end
