(* ===== verification/Decimal.thy ===== *)
theory Decimal
  imports Cineyma_Prelude
begin

text \<open>
  Decimal printing of unsigned integers, as the standard library's \<open>Display\<close> does it; the
  examples use it to build user names and socket addresses.
\<close>

definition digit :: "nat \<Rightarrow> char" where
  "digit d = char_of (48 + d)"

fun show_nat :: "nat \<Rightarrow> string" where
  "show_nat n = (if n < 10 then [digit n] else show_nat (n div 10) @ [digit (n mod 10)])"

declare show_nat.simps [simp del]

lemma of_char_digit: "d < 10 \<Longrightarrow> of_char (digit d) = 48 + d"
  by (simp add: digit_def of_char_of)

lemma digit_inject: "c < 10 \<Longrightarrow> d < 10 \<Longrightarrow> digit c = digit d \<longleftrightarrow> c = d"
  using of_char_digit by (metis add_left_cancel)

lemma show_nat_not_Nil [simp]: "show_nat n \<noteq> []" "[] \<noteq> show_nat n"
  by (subst show_nat.simps, simp)+

text \<open>Different numbers are printed differently.\<close>

lemma show_nat_inject: "show_nat m = show_nat n \<longleftrightarrow> m = n"
proof
  assume "show_nat m = show_nat n"
  then show "m = n"
  proof (induction m arbitrary: n rule: show_nat.induct)
    case (1 m)
    show ?case
    proof (cases "m < 10 \<longleftrightarrow> n < 10")
      case True
      with 1 show ?thesis
        by (cases "m < 10") (auto simp: show_nat.simps [of m] show_nat.simps [of n] digit_inject
            dest: arg_cong [where f = "\<lambda>x. 10 * x"], metis div_mult_mod_eq)
    next
      case False
      with "1.prems" show ?thesis
        by (auto simp: show_nat.simps [of m] show_nat.simps [of n] split: if_splits)
    qed
  qed
qed simp

end
