(* ===== verification/KV_Shell.thy ===== *)
theory KV_Shell
  imports KV_Store Cluster_Client Decimal
begin

text \<open>
  The \<open>main\<close> function of the distributed key-value example
  (\<open>examples/distributed-kv/src/main.rs\<close>): the arguments, the start of a node, joining a
  cluster through a seed, and the loop of the shell. The terminal is a list of input lines.
\<close>

section \<open>The port of a node\<close>

lemma parse_digits_snoc:
  "parse_digits acc (cs @ [c]) = (case parse_digits acc cs of None \<Rightarrow> None | Some n \<Rightarrow> parse_digits n [c])"
proof (induction cs arbitrary: acc)
  case (Cons x cs)
  show ?case
    unfolding append_Cons parse_digits.simps(2) [of acc x] Let_def
    by (simp only: Cons.IH option.case simp_thms split: if_split) blast
qed simp

lemma parse_digit: "d < 10 \<Longrightarrow> parse_digits acc [digit d] = (if acc * 10 + d \<le> 65535 then Some (acc * 10 + d) else None)"
  by (simp add: Let_def of_char_digit)

text \<open>Reading a printed number gives it back, unless it does not fit into 16 bits.\<close>

lemma parse_show: "parse_digits 0 (show_nat n) = (if n \<le> 65535 then Some n else None)"
proof (induction n rule: show_nat.induct)
  case (1 n)
  show ?case
  proof (cases "n < 10")
    case True
    then show ?thesis using parse_digit [of n 0] by (simp add: show_nat.simps [of n])
  next
    case False
    have "n div 10 * 10 + n mod 10 = n" by simp
    with False 1 parse_digit [of "n mod 10" "n div 10"] show ?thesis
      by (auto simp: show_nat.simps [of n] parse_digits_snoc simp del: parse_digits.simps)
  qed
qed

lemma show_nat_plain: "\<exists>d cs. show_nat n = digit d # cs \<and> d < 10"
proof (induction n rule: show_nat.induct)
  case (1 n)
  then show ?case by (cases "n < 10") (auto simp: show_nat.simps [of n])
qed

lemma parse_u16_show: "parse_u16 (show_nat n) = (if n \<le> 65535 then Some n else None)"
proof -
  obtain d cs where s: "show_nat n = digit d # cs" "d < 10" using show_nat_plain by blast
  have "digit d \<noteq> CHR ''+''" using of_char_digit [OF s(2)] by auto
  then show ?thesis using parse_show [of n] s(1) by (simp add: parse_u16_def del: parse_digits.simps)
qed

text \<open>
  C33. The port of \<open>node-n\<close>. For n up to 58535 the node named \<open>node-n\<close> listens on
  port 7000 + n. For larger n that fit into 16 bits the sum overflows, and a number that does
  not fit is read as 1, so that the node claims the port of \<open>node-1\<close>.
\<close>

theorem kv_port_of_number:
  "kv_port (''node-'' @ show_nat n) =
     (if n \<le> 58535 then Some (7000 + n) else if n \<le> 65535 then None else Some 7001)"
  by (auto simp: kv_port_def Let_def parse_u16_show)

section \<open>Starting a node\<close>

text \<open>None where the program prints its usage and exits.\<close>

definition kv_args :: "string list \<Rightarrow> (string \<times> string option) option" where
  "kv_args args =
     (case args of
        _ # node # rest \<Rightarrow> Some (node, case rest of [] \<Rightarrow> None | seed # _ \<Rightarrow> Some seed)
      | _ \<Rightarrow> None)"




section \<open>The shell\<close>

definition blank :: "char \<Rightarrow> bool" where
  "blank c \<longleftrightarrow> c = CHR '' '' \<or> (9 :: nat) \<le> of_char c \<and> of_char c \<le> (13 :: nat)"

text \<open>
  \<open>split_whitespace\<close> on text whose white space is ASCII; the further white space of
  Unicode is not represented. It drops blanks at both ends itself, so the \<open>trim\<close>
  before it makes no difference.
\<close>

fun split_words :: "string \<Rightarrow> string \<Rightarrow> string list" where
  "split_words w [] = (if w = [] then [] else [w])"
| "split_words w (c # cs) =
     (if blank c then (if w = [] then [] else [w]) @ split_words [] cs else split_words (w @ [c]) cs)"

datatype shell_phase = Prompting | Waiting | Exited | Panicked

record 'c kv_shell =
  sh_client :: "'c ClusterClient"
  sh_counter :: u64
  sh_output :: "string list"
  sh_phase :: shell_phase

text \<open>
  One round of the loop gets a line, what other tasks did to the cluster view in the meantime,
  and, for a call, the response channel and the events of the client task while it waits.
\<close>

record kv_input =
  in_line :: string
  in_view :: "ClusterNode \<Rightarrow> ClusterNode"
  in_tx :: nat
  in_events :: "client_event list"

definition show_status :: "NodeStatus \<Rightarrow> string" where
  "show_status st = (case st of Up \<Rightarrow> ''Up'' | Suspect \<Rightarrow> ''Suspect'' | Down \<Rightarrow> ''Down'')"

definition kv_members :: "ClusterNode \<Rightarrow> string list" where
  "kv_members c = ''cluster members:'' #
     map (\<lambda>m. ''  '' @ node_id m @ '' @ '' @ node_addr m @ '' ['' @ show_status (node_status m) @ '']'') (get_members c)"

definition kv_actors :: "ClusterNode \<Rightarrow> string list" where
  "kv_actors c = ''registered actors:'' #
     (case lookup_actor c ''kv-store'' of
        None \<Rightarrow> []
      | Some (node, ty) \<Rightarrow> [''  kv-store -> '' @ node @ '' ('' @ ty @ '')''])"

text \<open>
  The outcome of a call: the encoder's panic, a request that still waits, or a line that is
  printed; \<open>debug\<close> is the derived \<open>Debug\<close> text of an error.
\<close>

definition shell_reply ::
    "(TransportError \<Rightarrow> string) \<Rightarrow> ('r \<Rightarrow> string) \<Rightarrow> ((TransportError + 'r) option \<times> 'c ClusterClient) option
      \<Rightarrow> 'c kv_shell \<Rightarrow> 'c kv_shell" where
  "shell_reply debug text outcome st =
     (case outcome of
        None \<Rightarrow> st\<lparr>sh_phase := Panicked\<rparr>
      | Some (None, cc) \<Rightarrow> st\<lparr>sh_client := cc, sh_phase := Waiting\<rparr>
      | Some (Some res, cc) \<Rightarrow>
          st\<lparr>sh_client := cc,
             sh_output := sh_output st @ [case res of Inl e \<Rightarrow> ''error: '' @ debug e | Inr resp \<Rightarrow> text resp]\<rparr>)"

definition kv_shell_call ::
    "'c network \<Rightarrow> ClusterMessage prost \<Rightarrow> kv_codecs \<Rightarrow> (TransportError \<Rightarrow> string) \<Rightarrow> kv_input \<Rightarrow> kv_request
      \<Rightarrow> 'c kv_shell \<Rightarrow> 'c kv_shell" where
  "kv_shell_call N P K debug inp req st =
     (let remote = ClusterClient_remote_addr ''kv-store'' (sh_client st);
          counter = sh_counter st;
          st1 = st\<lparr>sh_counter := snd (next_correlation_id counter)\<rparr>
      in case req of
           GetRequest _ \<Rightarrow> shell_reply debug get_text
             (cra_call N P (get_request K) (as_get (get_response K)) req counter (in_tx inp) (in_events inp) remote) st1
         | SetRequest _ _ \<Rightarrow> shell_reply debug set_text
             (cra_call N P (set_request K) (as_set (set_response K)) req counter (in_tx inp) (in_events inp) remote) st1
         | DeleteRequest _ \<Rightarrow> shell_reply debug delete_text
             (cra_call N P (delete_request K) (as_delete (delete_response K)) req counter (in_tx inp) (in_events inp) remote) st1)"

definition shell_print :: "string list \<Rightarrow> 'c kv_shell \<Rightarrow> 'c kv_shell" where
  "shell_print texts st = st\<lparr>sh_output := sh_output st @ texts\<rparr>"

definition kv_shell_step ::
    "'c network \<Rightarrow> ClusterMessage prost \<Rightarrow> kv_codecs \<Rightarrow> (TransportError \<Rightarrow> string) \<Rightarrow> kv_input
      \<Rightarrow> 'c kv_shell \<Rightarrow> 'c kv_shell" where
  "kv_shell_step N P K debug inp st =
     (if sh_phase st \<noteq> Prompting then st
      else
        (let cc = sh_client st;
             st1 = (shell_print [''> ''] st)\<lparr>sh_client := cc\<lparr>cc_cluster := in_view inp (cc_cluster cc)\<rparr>\<rparr>;
             cluster = cc_cluster (sh_client st1)
         in (case kv_command (split_words [] (in_line inp)) of
               Ignored \<Rightarrow> st1
             | Usage text \<Rightarrow> shell_print [text] st1
             | CallStore req \<Rightarrow> kv_shell_call N P K debug inp req st1
             | ShowMembers \<Rightarrow> shell_print (kv_members cluster) st1
             | ShowActors \<Rightarrow> shell_print (kv_actors cluster) st1
             | Quit \<Rightarrow> (shell_print [''shutting down...''] st1)\<lparr>sh_phase := Exited\<rparr>
             | UnknownCommand cmd \<Rightarrow> shell_print [''unknown command: '' @ cmd] st1)))"

definition kv_shell_start :: "ClusterNode \<Rightarrow> u64 \<Rightarrow> 'c kv_shell" where
  "kv_shell_start cluster counter =
     \<lparr>sh_client = ClusterClient_new cluster, sh_counter = counter, sh_output = [], sh_phase = Prompting\<rparr>"

section \<open>The words of a line\<close>

definition word :: "string \<Rightarrow> bool" where
  "word w \<longleftrightarrow> w \<noteq> [] \<and> list_all (\<lambda>c. \<not> blank c) w"

lemma split_words_run: "list_all (\<lambda>c. \<not> blank c) w \<Longrightarrow> split_words acc (w @ cs) = split_words (acc @ w) cs"
  by (induction w arbitrary: acc) simp_all

lemma blanks [simp]: "blank (CHR '' '')" "blank (CHR 0x0A)"
  by (simp_all add: blank_def)

lemma split_words_word: "word w \<Longrightarrow> blank c \<Longrightarrow> split_words [] (w @ c # cs) = w # split_words [] cs"
  by (simp add: word_def split_words_run)

text \<open>Reading back words that were joined by single blanks.\<close>

lemma split_words_join: "list_all word ws \<Longrightarrow> split_words [] (join_words ws @ [CHR 0x0A]) = ws"
  by (induction ws rule: join_words.induct) (simp_all add: split_words_word)

text \<open>The first word of a line.\<close>

lemma split_words_rest:
  "w \<noteq> [] \<Longrightarrow> split_words w cs = (w @ takeWhile (\<lambda>c. \<not> blank c) cs) # split_words [] (dropWhile (\<lambda>c. \<not> blank c) cs)"
  by (induction cs arbitrary: w) simp_all

lemma split_words_first:
  "split_words [] cs =
     (let ds = dropWhile blank cs
      in if ds = [] then []
         else takeWhile (\<lambda>c. \<not> blank c) ds # split_words [] (dropWhile (\<lambda>c. \<not> blank c) ds))"
proof (induction cs)
  case (Cons c cs)
  show ?case
  proof (cases "blank c")
    case True
    then have "split_words [] (c # cs) = split_words [] cs" "dropWhile blank (c # cs) = dropWhile blank cs" by simp_all
    with Cons.IH show ?thesis by metis
  next
    case False
    then show ?thesis using split_words_rest [of "[c]" cs] by (simp add: Let_def)
  qed
qed simp

section \<open>A command on the store, end to end\<close>

text \<open>
  The words of the command for a request, and what the store, seen as a map, makes the shell
  print for it.
\<close>

primrec asks :: "kv_request \<Rightarrow> string list \<Rightarrow> bool" where
  "asks (GetRequest key) ws \<longleftrightarrow> ws = [''get'', key]"
| "asks (SetRequest key val) ws \<longleftrightarrow> (\<exists>vs. vs \<noteq> [] \<and> ws = [''set'', key] @ vs \<and> val = join_words vs)"
| "asks (DeleteRequest key) ws \<longleftrightarrow> ws = [''delete'', key]"

primrec store_prints :: "kv_request \<Rightarrow> (string \<rightharpoonup> string) \<Rightarrow> string" where
  "store_prints (GetRequest key) m = (case m key of Some val \<Rightarrow> val | None \<Rightarrow> ''(nil)'')"
| "store_prints (SetRequest key val) m = ''OK''"
| "store_prints (DeleteRequest key) m = (if key \<in> dom m then ''deleted'' else ''not found'')"

lemma kv_command_asks: "asks req ws \<Longrightarrow> kv_command ws = CallStore req"
  by (cases req) (auto simp: kv_command_def split: list.split)

lemma kv_shell_call_prints:
  assumes "\<And>RR :: string option RemoteMessage. \<exists>cc'. cra_call N P (request_codec K req) RR req (sh_counter st) (in_tx inp) (in_events inp)
      (ClusterClient_remote_addr ''kv-store'' (sh_client st)) = Some (Some (decode_reply RR (Inr resp)), cc')"
    and "\<And>RR :: bool RemoteMessage. \<exists>cc'. cra_call N P (request_codec K req) RR req (sh_counter st) (in_tx inp) (in_events inp)
      (ClusterClient_remote_addr ''kv-store'' (sh_client st)) = Some (Some (decode_reply RR (Inr resp)), cc')"
    and "decode (response_codec K req) (payload resp) = Some (snd (kv_handle req store))"
  shows "sh_output (kv_shell_call N P K debug inp req st) = sh_output st @ [store_prints req (hm_get (data store))]
    \<and> sh_phase (kv_shell_call N P K debug inp req st) = sh_phase st"
proof (cases req)
  case (GetRequest key)
  with assms(1) [of "as_get (get_response K)"] assms(3) show ?thesis
    by (auto simp: kv_shell_call_def Let_def shell_reply_def decode_reply_def as_get_def kv_get_def get_text_def)
next
  case (SetRequest key val)
  with assms(2) [of "as_set (set_response K)"] assms(3) show ?thesis
    by (auto simp: kv_shell_call_def Let_def shell_reply_def decode_reply_def as_set_def kv_set_def set_text_def)
next
  case (DeleteRequest key)
  with assms(2) [of "as_delete (delete_response K)"] assms(3) show ?thesis
    by (auto simp: kv_shell_call_def Let_def shell_reply_def decode_reply_def as_delete_def kv_delete_def delete_text_def dom_def)
qed

text \<open>
  C16. A command typed at any node acts on the store. Take a shell at its prompt whose view of
  the cluster knows the node of \<open>kv-store\<close>, with no connection to it yet, and let that node
  serve the idle store actor through its router. When the line of a \<open>get\<close>, \<open>set\<close> or
  \<open>delete\<close> command is typed and prost can serialize the messages of this call, then the
  request goes through the pool, the wire, the node's router and the store's mailbox and back,
  and the shell prints what a map with the store's contents answers: the value of the key or
  \<open>(nil)\<close>, \<open>OK\<close>, \<open>deleted\<close> or \<open>not found\<close>; then it prompts again.
\<close>

theorem kv_shell_prints_answer:
  assumes "sh_phase st = Prompting" and "in_events inp = [ConnReady]"
    and "list_all word ws" and "asks req ws" and "in_line inp = join_words ws @ [CHR 0x0A]"
    and "in_view inp (cc_cluster (sh_client st)) = c" and "cluster_ok c"
    and "lookup_actor c ''kv-store'' = Some (i, ty)" and "hm_get (members c) i = Some node"
    and "hm_get (clients (cc_pool (sh_client st))) (node_addr node) = None"
    and "reaches N (node_addr node) P (kv_router K i (actor_port_of M kv_behaviour spoll sig)) now (b, t)"
    and "mpsc_laws M contents cap live" and "idle contents cap live t store"
    and "distinct [type_id (get_request K), type_id (set_request K), type_id (delete_request K)]"
    and "prost_ok (request_codec K req) req" and "prost_ok (response_codec K req) (snd (kv_handle req store))"
    and "Envelope_from_message (request_codec K req) req (sh_counter st) (cc_local_node_id (sh_client st)) ''kv-store'' = Some e"
    and "prost_ok P \<lparr>cm_payload = Some (PayloadEnvelope e)\<rparr>"
    and "prost_ok P \<lparr>cm_payload = Some (PayloadEnvelope
      \<lparr>message_type = type_id (response_codec K req), payload = the (encode (response_codec K req) (snd (kv_handle req store))),
       correlation_id = correlation_id e, sender_node = i, target_actor = sender_node e, is_response = True\<rparr>)\<rparr>"
  shows "sh_output (kv_shell_step N P K debug inp st) = sh_output st @ [''> '', store_prints req (hm_get (data store))]
    \<and> sh_phase (kv_shell_step N P K debug inp st) = Prompting"
proof -
  let ?st = "(shell_print [''> ''] st)\<lparr>sh_client := (sh_client st)\<lparr>cc_cluster := c\<rparr>\<rparr>"
  let ?port = "actor_port_of M kv_behaviour spoll sig"
  have "message_type e = type_id (request_codec K req)"
    using assms(17) by (auto simp: Envelope_from_message_def split: option.splits)
  note route = kv_router_types [OF assms(14) this]
  obtain resp t' where resp: "kv_router K i ?port e t = (Some resp, t')"
    "decode (response_codec K req) (payload resp) = Some (snd (kv_handle req store))"
    "prost_ok P \<lparr>cm_payload = Some (PayloadEnvelope resp)\<rparr>"
    using store_handler_step [OF assms(12,13,15,16,17), of "LocalNode_new i" spoll sig] assms(19)
    by (auto simp: route LocalNode_new_def)
  have net: "cluster_ok (cc_cluster (sh_client ?st))" "lookup_actor (cc_cluster (sh_client ?st)) ''kv-store'' = Some (i, ty)"
    "hm_get (members (cc_cluster (sh_client ?st))) i = Some node"
    "hm_get (clients (cc_pool (sh_client ?st))) (node_addr node) = None"
    "Envelope_from_message (request_codec K req) req (sh_counter ?st) (cc_local_node_id (sh_client ?st)) ''kv-store'' = Some e"
    using assms(7-10,17) by (simp_all add: shell_print_def)
  note call = cluster_call [OF net(1-4) assms(11) net(5) assms(18) resp(1,3)]
  have "kv_command (split_words [] (in_line inp)) = CallStore req"
    by (simp add: assms(5) split_words_join [OF assms(3)] kv_command_asks [OF assms(4)])
  then have "kv_shell_step N P K debug inp st = kv_shell_call N P K debug inp req ?st"
    using assms(1,6) by (simp add: kv_shell_step_def Let_def shell_print_def)
  moreover have "sh_output (kv_shell_call N P K debug inp req ?st) = sh_output ?st @ [store_prints req (hm_get (data store))]
      \<and> sh_phase (kv_shell_call N P K debug inp req ?st) = sh_phase ?st"
    by (rule kv_shell_call_prints [OF _ _ resp(2)]) (unfold assms(2), (rule call)+)
  ultimately show ?thesis using assms(1) by (simp add: shell_print_def)
qed

definition store_view :: ClusterNode where
  "store_view = test_insert_actor ''kv-store'' ''node-1'' ''KVStore''
     (add_member \<lparr>node_id = ''node-1'', node_addr = ''host'', node_status = Up\<rparr> 0 (sample_cluster ''node-2''))"

lemma store_view_ok: "cluster_ok store_view"
proof -
  have "cluster_ok (fold cluster_step [AddMember \<lparr>node_id = ''node-1'', node_addr = ''host'', node_status = Up\<rparr> 0,
      InsertActor ''kv-store'' ''node-1'' ''KVStore''] (sample_cluster ''node-2''))"
    unfolding sample_cluster_def by (rule cluster.inv_run [OF ClusterNode_new_ok])
  then show ?thesis by (simp add: store_view_def)
qed

theorem kv_shell_prints_answer_witness:
  "\<exists>(N :: Envelope option network) P. sh_output (kv_shell_step N P sample_codecs (\<lambda>_. [])
      \<lparr>in_line = ''get k'' @ [CHR 0x0A], in_view = (\<lambda>_. store_view), in_tx = 7, in_events = [ConnReady]\<rparr>
      (kv_shell_start (sample_cluster ''node-2'') 1)) = [''> '', ''v'']"
proof -
  let ?inp = "\<lparr>in_line = ''get k'' @ [CHR 0x0A], in_view = (\<lambda>_. store_view), in_tx = 7, in_events = [ConnReady]\<rparr>"
  let ?st = "kv_shell_start (sample_cluster ''node-2'') 1 :: Envelope option kv_shell"
  let ?K = sample_codecs and ?req = "GetRequest ''k''" and ?store = "\<lparr>data = [(''k'', ''v'')]\<rparr>"
  let ?sp = "\<lambda>st :: unit. (StreamPending :: unit stream_poll, st)"
  let ?t = "ActorRunning True [] (kv_cell\<lparr>actor := ?store\<rparr>)"
  let ?node = "\<lparr>node_id = ''node-1'', node_addr = ''host'', node_status = Up\<rparr>"
  obtain e where e: "Envelope_from_message (request_codec ?K ?req) ?req (sh_counter ?st) (cc_local_node_id (sh_client ?st)) ''kv-store'' = Some e"
    by (simp add: Envelope_from_message_def sample_codecs_def one_message_def)
  let ?resp = "\<lparr>message_type = type_id (response_codec ?K ?req), payload = the (encode (response_codec ?K ?req) (snd (kv_handle ?req ?store))),
       correlation_id = correlation_id e, sender_node = ''node-1'', target_actor = sender_node e, is_response = True\<rparr>"
  let ?P = "two_prost \<lparr>cm_payload = Some (PayloadEnvelope e)\<rparr> \<lparr>cm_payload = Some (PayloadEnvelope ?resp)\<rparr>"
  let ?h = "kv_router ?K ''node-1'' (actor_port_of list_mpsc kv_behaviour ?sp quiet)"
  let ?N = "answering_network (\<lambda>e. fst (cluster_serve ?P (Some ?h) 5 e (sample_cluster ''node-1'', ?t)))"
  have net: "reaches ?N (node_addr ?node) ?P ?h 5 (sample_cluster ''node-1'', ?t)"
    by (simp add: reaches_def answering_network_def)
  have idle: "idle (\<lambda>(n, live, xs). xs) fst (\<lambda>(n, live, xs). live) ?t ?store" by (auto simp: idle_def kv_cell_def)
  have view: "lookup_actor store_view ''kv-store'' = Some (''node-1'', ''KVStore'')" "hm_get (members store_view) ''node-1'' = Some ?node"
    by (simp_all add: store_view_def watching_cluster_defs)
  have ws: "list_all word [''get'', ''k'']" by (simp add: word_def blank_def)
  have ty: "distinct [type_id (get_request ?K), type_id (set_request ?K), type_id (delete_request ?K)]"
    by (simp add: sample_codecs_def one_message_def)
  have "sh_output (kv_shell_step ?N ?P ?K (\<lambda>_. []) ?inp ?st) = sh_output ?st @ [''> '', store_prints ?req (hm_get (data ?store))]"
    by (rule conjunct1 [OF kv_shell_prints_answer [OF _ _ ws _ _ _ store_view_ok view _ net list_mpsc_laws idle ty _ _ e two_prost_ok]])
      (simp_all add: kv_shell_start_def ClusterClient_new_def ConnectionPool_new_def sample_codecs_def one_message_def
        prost_ok_def kv_get_def hm_get_def)
  then show ?thesis by (auto simp: kv_shell_start_def hm_get_def)
qed

definition typed_line :: "string \<Rightarrow> kv_input" where
  "typed_line text = \<lparr>in_line = text, in_view = (\<lambda>c. c), in_tx = 0, in_events = []\<rparr>"

section \<open>How the shell ends\<close>

lemma kv_shell_rest: "sh_phase st \<noteq> Prompting \<Longrightarrow> fold (kv_shell_step N P K debug) ins st = st"
  by (induction ins) (simp_all add: kv_shell_step_def)

lemma kv_shell_call_not_exited:
  "sh_phase st = Prompting \<Longrightarrow> sh_phase (kv_shell_call N P K debug inp req st) \<noteq> Exited"
  by (auto simp: kv_shell_call_def shell_reply_def Let_def split: option.split kv_request.split)

lemma kv_command_quits: "kv_command ws = Quit \<longleftrightarrow> ws \<noteq> [] \<and> hd ws \<in> {''quit'', ''exit''}"
  by (cases ws) (auto simp: kv_command_def split: list.split)

lemma kv_shell_step_exits:
  assumes "sh_phase st = Prompting"
  shows "sh_phase (kv_shell_step N P K debug inp st) = Exited \<longleftrightarrow>
    takeWhile (\<lambda>c. \<not> blank c) (dropWhile blank (in_line inp)) \<in> {''quit'', ''exit''}"
proof -
  have "kv_command (split_words [] (in_line inp)) = Quit \<longleftrightarrow>
      takeWhile (\<lambda>c. \<not> blank c) (dropWhile blank (in_line inp)) \<in> {''quit'', ''exit''}"
    unfolding kv_command_quits
    by (subst (1 2) split_words_first) (simp add: Let_def del: dropWhile_eq_Nil_conv)
  with assms show ?thesis
    by (auto simp: kv_shell_step_def shell_print_def Let_def kv_shell_call_not_exited split: kv_action.split)
qed

text \<open>
  C17. The shell ends on \<open>quit\<close> or \<open>exit\<close> and on nothing else. It has ended after some
  input exactly when it was prompting at a line whose first word, after leading blanks, is one
  of these two; what comes after that line has no effect.
\<close>

theorem kv_shell_exits:
  "sh_phase (fold (kv_shell_step N P K debug) ins (kv_shell_start cluster counter)) = Exited \<longleftrightarrow>
     (\<exists>ins1 inp ins2. ins = ins1 @ inp # ins2
        \<and> sh_phase (fold (kv_shell_step N P K debug) ins1 (kv_shell_start cluster counter)) = Prompting
        \<and> takeWhile (\<lambda>c. \<not> blank c) (dropWhile blank (in_line inp)) \<in> {''quit'', ''exit''}
        \<and> fold (kv_shell_step N P K debug) ins (kv_shell_start cluster counter)
            = fold (kv_shell_step N P K debug) (ins1 @ [inp]) (kv_shell_start cluster counter))"
    (is "?exited ins = (\<exists>ins1 inp ins2. ?at ins ins1 inp ins2)")
proof
  let ?run = "\<lambda>ins. fold (kv_shell_step N P K debug) ins (kv_shell_start cluster counter)"
  show "?exited ins \<Longrightarrow> \<exists>ins1 inp ins2. ?at ins ins1 inp ins2"
  proof (induction ins rule: rev_induct)
    case (snoc inp ins)
    show ?case
    proof (cases "sh_phase (?run ins) = Prompting")
      case True
      with snoc.prems kv_shell_step_exits [OF True] show ?thesis
        by (intro exI [of _ ins] exI [of _ inp] exI [of _ "[]"]) auto
    next
      case False
      then have same: "?run (ins @ [inp]) = ?run ins" by (simp add: kv_shell_step_def)
      with snoc obtain ins1 inp' ins2 where "?at ins ins1 inp' ins2" by auto
      with same show ?thesis by (intro exI [of _ ins1] exI [of _ inp'] exI [of _ "ins2 @ [inp]"]) auto
    qed
  qed (simp add: kv_shell_start_def)
  assume "\<exists>ins1 inp ins2. ?at ins ins1 inp ins2"
  then show "?exited ins" using kv_shell_step_exits by fastforce
qed

text \<open>
  C34. The shell does not notice the end of its input. From the end of the input on,
  \<open>read_line\<close> gives an empty line without an error; the shell then prints prompt after prompt
  and never ends.
\<close>

theorem kv_shell_ignores_eof:
  assumes "sh_phase st = Prompting" and "list_all (\<lambda>inp. in_line inp = []) ins"
  shows "sh_phase (fold (kv_shell_step N P K debug) ins st) = Prompting
    \<and> sh_output (fold (kv_shell_step N P K debug) ins st) = sh_output st @ replicate (length ins) ''> ''"
  using assms
proof (induction ins arbitrary: st)
  case (Cons inp ins)
  let ?st = "kv_shell_step N P K debug inp st"
  have "sh_phase ?st = Prompting" "sh_output ?st = sh_output st @ [''> '']"
    using Cons.prems by (simp_all add: kv_shell_step_def shell_print_def Let_def kv_command_def)
  with Cons.IH [of ?st] Cons.prems(2) show ?case by simp
qed simp

theorem kv_shell_ignores_eof_witness:
  "sh_output (fold (kv_shell_step scripted_network (two_prost \<lparr>cm_payload = None\<rparr> \<lparr>cm_payload = None\<rparr>) sample_codecs (\<lambda>_. []))
      [typed_line [], typed_line [], typed_line []] (kv_shell_start (sample_cluster ''a'') 1)) = [''> '', ''> '', ''> '']"
proof -
  have start: "sh_phase (kv_shell_start (sample_cluster ''a'') 1) = Prompting"
    "sh_output (kv_shell_start (sample_cluster ''a'') 1) = []" by (simp_all add: kv_shell_start_def)
  have "list_all (\<lambda>inp. in_line inp = []) [typed_line [], typed_line [], typed_line []]" by (simp add: typed_line_def)
  note eof = conjunct2 [OF kv_shell_ignores_eof [OF start(1) this]]
  show ?thesis unfolding eof start(2) by (simp add: numeral_3_eq_3)
qed

section \<open>Joining a cluster\<close>







end
