(* ===== verification/Chat.thy ===== *)
theory Chat
  imports Actor_Stream
begin

text \<open>
  The chat example (\<open>examples/chat/src/main.rs\<close>): the server that knows the clients and
  forwards their lines, and the session actor of one connection. Both are programs over the
  context API, so the runtime of the other theories can run them.
\<close>

section \<open>Messages\<close>

text \<open>The four message types of the example, as one type for the mailboxes of both actors.\<close>

datatype chat_message =
    Connect string Addr
  | Disconnect string
  | Broadcast string string
  | SendLine string

section \<open>The server\<close>

record ChatServer =
  chat_clients :: "(string, Addr) hashmap"

definition ChatServer_new :: ChatServer where
  "ChatServer_new = \<lparr>chat_clients = []\<rparr>"

text \<open>A loop of \<open>try_send\<close>s whose results are ignored, followed by the rest of the program.\<close>

fun send_lines ::
    "'a \<Rightarrow> string \<Rightarrow> Addr list \<Rightarrow> ('a, chat_message, 'st, 'r) prog \<Rightarrow> ('a, chat_message, 'st, 'r) prog" where
  "send_lines a line [] k = k"
| "send_lines a line (addr # addrs) k =
     Call a (ApiTrySend addr (User (SendLine line))) (\<lambda>_. send_lines a line addrs k)"

definition ChatServer_broadcast ::
    "ChatServer \<Rightarrow> string \<Rightarrow> (ChatServer, chat_message, 'st, 'r) prog \<Rightarrow> (ChatServer, chat_message, 'st, 'r) prog" where
  "ChatServer_broadcast a line k = send_lines a line (hm_values (chat_clients a)) k"

definition newline :: string where
  "newline = [char_of (10 :: nat)]"

definition handle_connect :: "string \<Rightarrow> Addr \<Rightarrow> ChatServer \<Rightarrow> (ChatServer, chat_message, 'st, unit) prog" where
  "handle_connect username addr a =
     ChatServer_broadcast a (''* '' @ username @ '' joined the chat'' @ newline)
       (Ret (a\<lparr>chat_clients := hm_insert username addr (chat_clients a)\<rparr>) ())"

definition handle_disconnect :: "string \<Rightarrow> ChatServer \<Rightarrow> (ChatServer, chat_message, 'st, unit) prog" where
  "handle_disconnect username a =
     (let a' = a\<lparr>chat_clients := hm_remove username (chat_clients a)\<rparr>
      in ChatServer_broadcast a' (''* '' @ username @ '' left the chat'' @ newline) (Ret a' ()))"

definition chat_line :: "string \<Rightarrow> string \<Rightarrow> string" where
  "chat_line sender txt = ''['' @ sender @ '']: '' @ txt @ newline"

definition handle_broadcast :: "string \<Rightarrow> string \<Rightarrow> ChatServer \<Rightarrow> (ChatServer, chat_message, 'st, unit) prog" where
  "handle_broadcast sender txt a =
     send_lines a (chat_line sender txt)
       (map snd (filter (\<lambda>(username, client). username \<noteq> sender) (chat_clients a))) (Ret a ())"

text \<open>The arms for messages the server has no handler for are never reached.\<close>

definition chat_server :: "(ChatServer, chat_message, 'st, unit, 'i) behaviour" where
  "chat_server =
     \<lparr>started = (\<lambda>a. Ret a ()), stopped = (\<lambda>a. Ret a ()),
      handle = (\<lambda>m a. case m of
          User (Connect username addr) \<Rightarrow> handle_connect username addr a
        | User (Disconnect username) \<Rightarrow> handle_disconnect username a
        | User (Broadcast sender txt) \<Rightarrow> handle_broadcast sender txt a
        | _ \<Rightarrow> Panic a),
      item = (\<lambda>i a. Ret a ()), finished = (\<lambda>a. Ret a ())\<rparr>"

section \<open>A client session\<close>

text \<open>\<open>written\<close> is what the session has put into the channel of its writer task.\<close>

record 'st ClientSession =
  session_username :: string
  session_server :: Addr
  written :: "string list"
  lines_stream :: "'st option"

text \<open>
  \<open>str::trim\<close> on text whose white space is ASCII: strings are lists of 8-bit characters
  here, and the further white space of Unicode is not represented.
\<close>

definition trim :: "string \<Rightarrow> string" where
  "trim s =
     (let blank = (\<lambda>c. c = CHR '' '' \<or> (9 :: nat) \<le> of_char c \<and> of_char c \<le> (13 :: nat))
      in rev (dropWhile blank (rev (dropWhile blank s))))"

definition session_started :: "'st ClientSession \<Rightarrow> ('st ClientSession, chat_message, 'st, unit) prog" where
  "session_started a =
     (let register = (\<lambda>a'. Call a' ApiAddress (\<lambda>ans.
            (case ans of
               AnsAddr addr \<Rightarrow>
                 Call a' (ApiTrySend (session_server a') (User (Connect (session_username a') addr))) (\<lambda>_. Ret a' ())
             | _ \<Rightarrow> Ret a' ())))
      in (case lines_stream a of
            Some st \<Rightarrow> (let a' = a\<lparr>lines_stream := None\<rparr> in Call a' (ApiAddStream st) (\<lambda>_. register a'))
          | None \<Rightarrow> register a))"

definition session_stopped :: "'st ClientSession \<Rightarrow> ('st ClientSession, chat_message, 'st, unit) prog" where
  "session_stopped a =
     Call a (ApiTrySend (session_server a) (User (Disconnect (session_username a)))) (\<lambda>_. Ret a ())"

text \<open>A stream item is a line or an I/O error (None).\<close>

definition session_item :: "string option \<Rightarrow> 'st ClientSession \<Rightarrow> ('st ClientSession, chat_message, 'st, unit) prog" where
  "session_item it a =
     (case it of
        Some line \<Rightarrow>
          (let txt = trim line
           in if txt \<noteq> [] then
                Call a (ApiTrySend (session_server a) (User (Broadcast (session_username a) txt))) (\<lambda>_. Ret a ())
              else Ret a ())
      | None \<Rightarrow> Call a ApiStop (\<lambda>_. Ret a ()))"

definition client_session :: "('st ClientSession, chat_message, 'st, unit, string option) behaviour" where
  "client_session =
     \<lparr>started = session_started, stopped = session_stopped,
      handle = (\<lambda>m a. case m of User (SendLine line) \<Rightarrow> Ret (a\<lparr>written := written a @ [line]\<rparr>) () | _ \<Rightarrow> Panic a),
      item = session_item, finished = (\<lambda>a. Call a ApiStop (\<lambda>_. Ret a ()))\<rparr>"

section \<open>Who hears what\<close>

lemma exec_send_lines:
  "exec M (send_lines a line addrs k) s =
     exec M k (s\<lparr>shared := fold (\<lambda>x w. snd (Addr_try_send M x (User (SendLine line)) w)) addrs (shared s),
                actor := (if addrs = [] then actor s else a)\<rparr>)"
proof (induction addrs arbitrary: s)
  case (Cons addr addrs)
  then show ?case by (simp add: split_beta)
qed simp

text \<open>
  A chat line reaches everybody else. When the server handles a broadcast, every client
  other than the sender gets the line once behind what is in its mailbox, if there is room; the
  sender and everybody who is not a client get nothing, and the server's clients stay the same.
\<close>

lemma chat_broadcast_reaches_others:
  assumes "mpsc_laws M contents cap live" and "actor s = a"
    and "exec M (handle chat_server (User (Broadcast sender txt)) a) s = (r, s')"
  shows "r = Some () \<and> actor s' = a \<and>
    contents (mailbox (shared s') i) = contents (mailbox (shared s) i) @
      replicate (min (length (filter (\<lambda>(u, addr). u \<noteq> sender \<and> addr_id addr = i) (chat_clients a)))
                     (room contents cap live (mailbox (shared s) i)))
        (Sync (MessageEnvelope_new (User (SendLine (chat_line sender txt)))))"
proof -
  let ?addrs = "map snd (filter (\<lambda>(u, addr). u \<noteq> sender) (chat_clients a))"
  have len: "length (filter (\<lambda>x. addr_id x = i) ?addrs)
      = length (filter (\<lambda>(u, addr). u \<noteq> sender \<and> addr_id addr = i) (chat_clients a))"
    by (simp add: filter_map comp_def filter_filter case_prod_unfold conj_commute)
  have "r = Some ()" "actor s' = a"
    "shared s' = fold (\<lambda>x w. snd (Addr_try_send M x (User (SendLine (chat_line sender txt))) w)) ?addrs (shared s)"
    using assms(2,3) by (auto simp: chat_server_def handle_broadcast_def exec_send_lines)
  then show ?thesis
    using fold_try_send [OF assms(1), of "User (SendLine (chat_line sender txt))" ?addrs "shared s" i] len by simp
qed

definition two_clients :: ChatServer where
  "two_clients = \<lparr>chat_clients = [(''user1'', Addr_new (ActorId 1) 1), (''user2'', Addr_new (ActorId 2) 2)]\<rparr>"

definition chat_cell :: "(ChatServer, chat_message, unit, unit, chat_message ActorMessage list_channel) cell" where
  "chat_cell = \<lparr>actor = two_clients, ctx = Context_with_signals (Addr_new (ActorId 9) 9) 9 0 10,
     shared = \<lparr>next_actor_id = 10, next_notify = 11, next_oneshot = 0, next_timer = 0,
       mailbox = (\<lambda>i. (4, True, [])), watchers = (\<lambda>i. [])\<rparr>, log = []\<rparr>"

end
