(* ===== verification/Chat_Main.thy ===== *)
theory Chat_Main
  imports Chat Actor_System Decimal
begin

text \<open>
  The \<open>main\<close> function of the chat example (\<open>examples/chat/src/main.rs\<close>): the loop that
  accepts connections, names them and spawns a session actor for each, and the writer task of a
  connection. The listener and the socket are inputs. The theorems follow a line from one
  client's socket through session, server and session to another client's writer.
\<close>

section \<open>The writer task\<close>

text \<open>
  The unbounded channel between a session and its writer task, and the lines written to the
  socket. Sending to a writer that has ended fails, and the session ignores that.
\<close>

record writer_task =
  writer_rx :: "string list"
  socket_lines :: "string list"
  writer_open :: bool

definition writer_start :: writer_task where
  "writer_start = \<lparr>writer_rx = [], socket_lines = [], writer_open = True\<rparr>"

datatype writer_event =
    WriterSend string
  | WriterPoll bool

text \<open>\<open>WriterPoll ok\<close>: the task takes the next line and \<open>write_all\<close> succeeds or not.\<close>

primrec writer_step :: "writer_event \<Rightarrow> writer_task \<Rightarrow> writer_task" where
  "writer_step (WriterSend line) t =
     (if writer_open t then t\<lparr>writer_rx := writer_rx t @ [line]\<rparr> else t)"
| "writer_step (WriterPoll ok) t =
     (if \<not> writer_open t then t
      else
        (case writer_rx t of
           [] \<Rightarrow> t
         | line # rest \<Rightarrow>
             if ok then t\<lparr>writer_rx := rest, socket_lines := socket_lines t @ [line]\<rparr>
             else t\<lparr>writer_rx := [], writer_open := False\<rparr>))"

primrec sent_line :: "writer_event \<Rightarrow> string list" where
  "sent_line (WriterSend line) = [line]"
| "sent_line (WriterPoll ok) = []"

definition writer_ok :: "string list \<Rightarrow> writer_task \<Rightarrow> bool" where
  "writer_ok sent t \<longleftrightarrow>
     (if writer_open t then sent = socket_lines t @ writer_rx t
      else \<exists>lost. sent = socket_lines t @ lost)"

lemma writer_step_ok: "writer_ok sent t \<Longrightarrow> writer_ok (sent @ sent_line ev) (writer_step ev t)"
  by (cases ev) (auto simp: writer_ok_def split: list.split)

interpretation writer: task "\<lambda>ev (sent, t). (sent @ sent_line ev, writer_step ev t)" "\<lambda>(sent, t). writer_ok sent t"
  by unfold_locales (auto simp: writer_step_ok)

section \<open>Accepting connections\<close>

text \<open>
  The state of the accept loop: the counter, the state actors share, and the sessions spawned so
  far. None is a panic: the counter overflows, or tokio rejects the capacity of a mailbox.
\<close>

record ('st, 'q) chat_main =
  client_counter :: u32
  main_world :: "'q world"
  sessions :: "(string \<times> Addr \<times> ('st ClientSession, chat_message, 'st, unit, 'q) actor_task) list"

definition chat_accept ::
    "('q, chat_message) channel \<Rightarrow> Addr \<Rightarrow> nat \<Rightarrow> 'st \<Rightarrow> ('st, 'q) chat_main \<Rightarrow> ('st, 'q) chat_main option" where
  "chat_accept M server shutdown lines st =
     (if unat (client_counter st) + 1 = 2 ^ 32 then None
      else
        (let counter = client_counter st + 1;
             username = ''user'' @ show_nat (unat counter);
             session = \<lparr>session_username = username, session_server = server, written = [], lines_stream = Some lines\<rparr>
         in map_option (\<lambda>(addr, t).
              \<lparr>client_counter = counter, main_world = shared (task_cell t),
               sessions = sessions st @ [(username, addr, t)]\<rparr>)
              (spawn_with_shutdown M session shutdown 256 (main_world st))))"

primrec chat_accepts ::
    "('q, chat_message) channel \<Rightarrow> Addr \<Rightarrow> nat \<Rightarrow> 'st list \<Rightarrow> ('st, 'q) chat_main \<Rightarrow> ('st, 'q) chat_main option" where
  "chat_accepts M server shutdown [] st = Some st"
| "chat_accepts M server shutdown (lines # rest) st =
     Option.bind (chat_accept M server shutdown lines st) (chat_accepts M server shutdown rest)"

text \<open>The start of \<open>main\<close>: the server actor is spawned before the first connection.\<close>

definition chat_start ::
    "('q, chat_message) channel \<Rightarrow> nat \<Rightarrow> 'q world
      \<Rightarrow> (Addr \<times> (ChatServer, chat_message, 'st, unit, 'q) actor_task \<times> ('st, 'q) chat_main) option" where
  "chat_start M shutdown w =
     map_option (\<lambda>(server, t). (server, t, \<lparr>client_counter = 0, main_world = shared (task_cell t), sessions = []\<rparr>))
       (spawn_with_shutdown M ChatServer_new shutdown 256 w)"

lemma spawn_Some:
  assumes "mpsc_channel M capacity = Some q"
  shows "\<exists>addr t. spawn_with_shutdown M a shutdown capacity w = Some (addr, t)"
  using assms by (auto simp: spawn_with_shutdown_def Let_def split: prod.split)

lemma chat_accept_Some:
  fixes st :: "('st, 'q) chat_main"
  assumes "mpsc_channel M 256 = Some q" and "unat (client_counter st) + 1 < 2 ^ 32"
  obtains addr t where "chat_accept M server shutdown lines st =
      Some \<lparr>client_counter = client_counter st + 1, main_world = shared (task_cell t),
            sessions = sessions st @ [(''user'' @ show_nat (unat (client_counter st) + 1), addr, t)]\<rparr>"
    and "unat (client_counter st + 1) = unat (client_counter st) + 1"
proof -
  have n: "unat (client_counter st + 1) = unat (client_counter st) + 1"
    using assms(2) by (simp add: unat_word_ariths)
  let ?session = "\<lparr>session_username = ''user'' @ show_nat (unat (client_counter st) + 1), session_server = server,
    written = [], lines_stream = Some lines\<rparr>"
  obtain addr and t :: "('st ClientSession, chat_message, 'st, unit, 'q) actor_task"
    where s: "spawn_with_shutdown M ?session shutdown 256 (main_world st) = Some (addr, t)"
    using spawn_Some [OF assms(1), of ?session shutdown "main_world st"] by auto
  from assms(2) s n show ?thesis by (intro that [of t addr]) (simp_all add: chat_accept_def Let_def)
qed

lemma chat_accepts_names:
  assumes "mpsc_channel M 256 = Some q" and "unat (client_counter st) + length streams < 2 ^ 32"
  shows "\<exists>st'. chat_accepts M server shutdown streams st = Some st' \<and>
    map fst (sessions st') = map fst (sessions st) @
      map (\<lambda>k. ''user'' @ show_nat k) [unat (client_counter st) + 1..<unat (client_counter st) + length streams + 1]"
  using assms(2)
proof (induction streams arbitrary: st)
  case (Cons x streams)
  let ?n = "unat (client_counter st)"
  have "?n + 1 < 2 ^ 32" using Cons.prems by simp
  then obtain addr t where a: "chat_accept M server shutdown x st =
      Some \<lparr>client_counter = client_counter st + 1, main_world = shared (task_cell t),
            sessions = sessions st @ [(''user'' @ show_nat (?n + 1), addr, t)]\<rparr>" (is "_ = Some ?st")
    and n: "unat (client_counter st + 1) = ?n + 1"
    by (rule chat_accept_Some [OF assms(1)])
  have "[?n + 1..<?n + length (x # streams) + 1] = (?n + 1) # [?n + 2..<?n + 1 + length streams + 1]"
    by (subst upt_conv_Cons) simp_all
  with Cons.IH [of ?st] Cons.prems a n show ?case by simp
qed simp

lemma chat_accepts_overflow:
  assumes "2 ^ 32 \<le> unat (client_counter st) + length streams"
  shows "chat_accepts M server shutdown streams st = None"
  using assms
proof (induction streams arbitrary: st)
  case Nil
  have "unat (client_counter st) < 2 ^ 32" using unsigned_less [of "client_counter st"] by simp
  with Nil show ?case by simp
next
  case (Cons x streams)
  show ?case
  proof (cases "chat_accept M server shutdown x st")
    case (Some st')
    then have "unat (client_counter st) + 1 \<noteq> 2 ^ 32" "client_counter st' = client_counter st + 1"
      by (auto simp: chat_accept_def Let_def split: if_splits)
    moreover have "unat (client_counter st) < 2 ^ 32" using unsigned_less [of "client_counter st"] by simp
    ultimately have "unat (client_counter st') = unat (client_counter st) + 1" by (simp add: unat_word_ariths)
    with Cons.IH [of st'] Cons.prems Some show ?thesis by simp
  qed simp
qed

text \<open>
  C32. Users are told apart. If tokio accepts the mailbox capacity, the accept loop names any
  number of connections below \<open>2 ^ 32\<close> without a panic, all names are different, so that no
  session takes over another one's entry in the server's table, and the connection that makes it
  \<open>2 ^ 32\<close> panics on the overflow of the counter.
\<close>

theorem chat_users_distinct:
  assumes "mpsc_channel M 256 = Some q" and "client_counter st = 0" and "sessions st = []"
  shows "case chat_accepts M server shutdown streams st of
      Some st' \<Rightarrow> length streams < 2 ^ 32 \<and> length (sessions st') = length streams \<and> distinct (map fst (sessions st'))
    | None \<Rightarrow> 2 ^ 32 \<le> length streams"
proof (cases "length streams < 2 ^ 32")
  case True
  with chat_accepts_names [OF assms(1), of st streams server shutdown] assms(2,3) obtain st' where
    s: "chat_accepts M server shutdown streams st = Some st'"
      "map fst (sessions st') = map (\<lambda>k. ''user'' @ show_nat k) [1..<length streams + 1]" by auto
  from s(2) have "length (sessions st') = length streams" by (metis length_map length_upt diff_add_inverse2)
  moreover have "distinct (map fst (sessions st'))"
    unfolding s(2) by (simp add: distinct_map inj_on_def show_nat_inject)
  ultimately show ?thesis using s(1) True by simp
next
  case False
  with chat_accepts_overflow [of st streams M server shutdown] assms(2) show ?thesis by simp
qed

theorem chat_users_distinct_witness:
  "\<exists>st'. chat_accepts list_mpsc (Addr_new (ActorId 1) 1) 0 [(), ()]
      \<lparr>client_counter = 0, main_world = shared chat_cell, sessions = []\<rparr> = Some st'
    \<and> distinct (map fst (sessions st'))"
proof -
  let ?st = "\<lparr>client_counter = 0, main_world = shared chat_cell, sessions = []\<rparr>"
  have "mpsc_channel list_mpsc 256 = Some (256, True, [])" by (simp add: list_mpsc_def)
  from chat_users_distinct [OF this, where st = ?st and streams = "[(), ()]" and server = "Addr_new (ActorId 1) 1" and shutdown = 0] show ?thesis
    by (auto split: option.splits)
qed

section \<open>The writer keeps the order\<close>

lemma fold_writer:
  "fold (\<lambda>ev (sent, t). (sent @ sent_line ev, writer_step ev t)) evs (sent, t) =
     (sent @ concat (map sent_line evs), fold writer_step evs t)"
  by (induction evs arbitrary: sent t) simp_all

text \<open>
  A client gets its lines in order. Whatever lines the session sends and whenever the writer
  task runs, the lines written to the socket are the first ones that were sent, in order and
  each once; while the writer lives, the others are waiting in its channel, and it is a failed
  write that loses lines.
\<close>

lemma writer_in_order:
  "if writer_open (fold writer_step evs writer_start)
   then concat (map sent_line evs) =
     socket_lines (fold writer_step evs writer_start) @ writer_rx (fold writer_step evs writer_start)
   else WriterPoll False \<in> set evs \<and>
     (\<exists>lost. concat (map sent_line evs) = socket_lines (fold writer_step evs writer_start) @ lost)"
proof -
  have "writer_ok [] writer_start" by (simp add: writer_ok_def writer_start_def)
  with writer.inv_run [of "([], writer_start)" evs] have "writer_ok (concat (map sent_line evs)) (fold writer_step evs writer_start)"
    by (simp add: fold_writer)
  moreover have "writer_open (fold writer_step evs t)" if "writer_open t" "WriterPoll False \<notin> set evs" for t
    using that
  proof (induction evs arbitrary: t)
    case (Cons ev evs)
    then show ?case by (cases ev) (auto split: list.split)
  qed simp
  moreover have "writer_open writer_start" by (simp add: writer_start_def)
  ultimately show ?thesis unfolding writer_ok_def by metis
qed

section \<open>A line from socket to socket\<close>

text \<open>A poll of an actor that has one message and whose handler returns.\<close>

lemma poll_handles_message:
  assumes "mpsc_laws M contents cap live"
    and "contents (mailbox (shared s) (addr_id (ctx_addr (ctx s)))) = [Sync (MessageEnvelope_new m)]"
    and "\<And>s1. actor s1 = actor s \<Longrightarrow> \<exists>r s2. exec M (handle B m (actor s)) s1 = (Some r, s2) \<and> R s1 s2"
  obtains q s2 where "actor_step M B spoll (Poll sig) (ActorRunning False streams s) = ActorRunning True streams s2"
    and "R (emit (HandleCalled m) (s\<lparr>shared := set_mailbox (addr_id (ctx_addr (ctx s))) q (shared s)\<rparr>)) s2"
proof -
  let ?i = "addr_id (ctx_addr (ctx s))"
  obtain r q where r: "mpsc_recv M (mailbox (shared s) ?i) = (r, q)" by (rule prod.exhaust)
  from mpsc_recvD [OF assms(1) r] have "r = Some (Some (Sync (MessageEnvelope_new m)))"
    using assms(2) by (auto simp: recv_law_def)
  moreover obtain res s2 where
    "exec M (handle B m (actor s)) (emit (HandleCalled m) (s\<lparr>shared := set_mailbox ?i q (shared s)\<rparr>)) = (Some res, s2)"
    "R (emit (HandleCalled m) (s\<lparr>shared := set_mailbox ?i q (shared s)\<rparr>)) s2"
    using assms(3) [of "emit (HandleCalled m) (s\<lparr>shared := set_mailbox ?i q (shared s)\<rparr>)"] by auto
  ultimately show ?thesis
    by (intro that [of s2 q]) (simp_all add: collect_streams_def actor_select_def Let_def r
        MessageEnvelope_handle_def MessageEnvelope_new_def)
qed

lemma session_relays_line:
  assumes "spoll st = (StreamItem (Some line), st')" and "trim line \<noteq> []"
    and "mpsc_recv M (mailbox (shared s) (addr_id (ctx_addr (ctx s)))) = (None, q)"
  shows "shared (task_cell (actor_step M client_session spoll (Poll sig) (ActorRunning False [st] s))) =
    snd (Addr_try_send M (session_server (actor s)) (User (Broadcast (session_username (actor s)) (trim line)))
      (set_mailbox (addr_id (ctx_addr (ctx s))) q (shared s)))"
  using assms
  by (simp add: collect_streams_def actor_select_def Let_def StreamWrapper_poll_next_def client_session_def
      session_item_def split_beta)

lemma server_relays_line:
  fixes s :: "(ChatServer, chat_message, 'st, unit, 'q) cell" and spoll :: "('st, 'i) stream_source"
  assumes "mpsc_laws M contents cap live"
    and "contents (mailbox (shared s) (addr_id (ctx_addr (ctx s)))) = [Sync (MessageEnvelope_new (User (Broadcast sender txt)))]"
    and "b \<noteq> addr_id (ctx_addr (ctx s))"
  shows "contents (mailbox (shared (task_cell (actor_step M chat_server spoll (Poll sig) (ActorRunning False [] s)))) b) =
    contents (mailbox (shared s) b) @
      replicate (min (length (filter (\<lambda>(u, addr). u \<noteq> sender \<and> addr_id addr = b) (chat_clients (actor s))))
                     (room contents cap live (mailbox (shared s) b)))
        (Sync (MessageEnvelope_new (User (SendLine (chat_line sender txt)))))"
proof -
  let ?B = "chat_server :: (ChatServer, chat_message, 'st, unit, 'i) behaviour"
  let ?lines = "\<lambda>w. replicate (min (length (filter (\<lambda>(u, addr). u \<noteq> sender \<and> addr_id addr = b) (chat_clients (actor s))))
    (room contents cap live (mailbox w b))) (Sync (MessageEnvelope_new (User (SendLine (chat_line sender txt)))))"
  let ?R = "\<lambda>s1 s2. contents (mailbox (shared s2) b) = contents (mailbox (shared s1) b) @ ?lines (shared s1)"
  have handled: "\<exists>r s2. exec M (handle ?B (User (Broadcast sender txt)) (actor s)) s1 = (Some r, s2) \<and> ?R s1 s2"
    if "actor s1 = actor s" for s1
  proof -
    obtain r s2 where e: "exec M (handle ?B (User (Broadcast sender txt)) (actor s)) s1 = (r, s2)" by (rule prod.exhaust)
    from chat_broadcast_reaches_others [OF assms(1) that e, of b] e show ?thesis by simp
  qed
  obtain q s2 where "actor_step M ?B spoll (Poll sig) (ActorRunning False [] s) = ActorRunning True [] s2"
    "?R (emit (HandleCalled (User (Broadcast sender txt)))
      (s\<lparr>shared := set_mailbox (addr_id (ctx_addr (ctx s))) q (shared s)\<rparr>)) s2"
    by (rule poll_handles_message [OF assms(1,2) handled])
  with assms(3) show ?thesis by (simp del: actor_step.simps)
qed

lemma session_writes_line:
  assumes "mpsc_laws M contents cap live"
    and "contents (mailbox (shared s) (addr_id (ctx_addr (ctx s)))) = [Sync (MessageEnvelope_new (User (SendLine line)))]"
  shows "written (actor (task_cell (actor_step M client_session spoll (Poll sig) (ActorRunning False streams s))))
    = written (actor s) @ [line]"
proof -
  obtain q s2 where "actor_step M client_session spoll (Poll sig) (ActorRunning False streams s) = ActorRunning True streams s2"
    "written (actor s2) = written (actor (emit (HandleCalled (User (SendLine line)))
      (s\<lparr>shared := set_mailbox (addr_id (ctx_addr (ctx s))) q (shared s)\<rparr>))) @ [line]"
    by (rule poll_handles_message [OF assms, where R = "\<lambda>s1 s2. written (actor s2) = written (actor s1) @ [line]"
          and B = client_session]) (auto simp: client_session_def)
  then show ?thesis by (simp del: actor_step.simps)
qed

text \<open>
  C14. A line travels from client to client. When the stream of one session gives a line that is
  not blank, and the server and the session of another user have empty mailboxes with room, then
  after one poll of each of the three actors' tasks, in this order, the other session has put
  exactly the line, with the sender's name in front, into the channel of its writer task.
\<close>

theorem chat_line_delivered:
  assumes "mpsc_laws M contents cap live"
    and "spoll st = (StreamItem (Some line), st')" and "trim line \<noteq> []"
    and "mpsc_recv M (mailbox (shared sa) (addr_id (ctx_addr (ctx sa)))) = (None, q)"
    and "session_server (actor sa) = ctx_addr (ctx ss)"
    and "distinct [addr_id (ctx_addr (ctx sa)), addr_id (ctx_addr (ctx ss)), addr_id (ctx_addr (ctx sb))]"
    and "contents (mailbox (shared sa) (addr_id (ctx_addr (ctx ss)))) = []"
    and "0 < room contents cap live (mailbox (shared sa) (addr_id (ctx_addr (ctx ss))))"
    and "contents (mailbox (shared sa) (addr_id (ctx_addr (ctx sb)))) = []"
    and "0 < room contents cap live (mailbox (shared sa) (addr_id (ctx_addr (ctx sb))))"
    and "filter (\<lambda>(u, addr). u \<noteq> session_username (actor sa) \<and> addr_id addr = addr_id (ctx_addr (ctx sb)))
           (chat_clients (actor ss)) = [client]"
  shows "let ta = actor_step M client_session spoll (Poll sig1) (ActorRunning False [st] sa);
      ts = fold (actor_step M chat_server spoll') [Interfere (\<lambda>_. shared (task_cell ta)), Poll sig2] (ActorRunning False [] ss);
      tb = fold (actor_step M client_session spoll) [Interfere (\<lambda>_. shared (task_cell ts)), Poll sig3] (ActorRunning False streams sb)
    in written (actor (task_cell tb)) = written (actor sb) @ [chat_line (session_username (actor sa)) (trim line)]"
proof -
  let ?a = "addr_id (ctx_addr (ctx sa))" and ?s = "addr_id (ctx_addr (ctx ss))" and ?b = "addr_id (ctx_addr (ctx sb))"
  let ?m = "User (Broadcast (session_username (actor sa)) (trim line))"
  let ?line = "chat_line (session_username (actor sa)) (trim line)"
  let ?w = "shared (task_cell (actor_step M client_session spoll (Poll sig1) (ActorRunning False [st] sa)))"
  have w: "?w = snd (Addr_try_send M (ctx_addr (ctx ss)) ?m (set_mailbox ?a q (shared sa)))"
    using session_relays_line [of spoll st, OF assms(2,3), of M sa q sig1, OF assms(4)] assms(5) by simp
  have ne: "?s \<noteq> ?a" "?b \<noteq> ?a" "?b \<noteq> ?s" using assms(6) by auto
  have ws: "contents (mailbox ?w ?s) = [Sync (MessageEnvelope_new ?m)]"
    unfolding w try_send_effect(3) [OF assms(1)] using ne assms(7,8) by (simp add: room_def split: if_splits)
  have wb: "contents (mailbox ?w ?b) = []" "room contents cap live (mailbox ?w ?b) > 0"
    unfolding w room_def try_send_effect [OF assms(1)] using ne assms(9,10) by (auto simp: room_def split: if_splits)
  let ?ts = "actor_step M chat_server spoll' (Poll sig2) (ActorRunning False [] (ss\<lparr>shared := ?w\<rparr>))"
  have "contents (mailbox (shared (task_cell ?ts)) ?b) = [Sync (MessageEnvelope_new (User (SendLine ?line)))]"
    using server_relays_line [OF assms(1), of "ss\<lparr>shared := ?w\<rparr>" "session_username (actor sa)" "trim line" ?b spoll' sig2]
      ws wb ne(3) assms(11) by (simp del: actor_step.simps)
  from session_writes_line [OF assms(1), of "sb\<lparr>shared := shared (task_cell ?ts)\<rparr>" ?line spoll sig3 streams] this
  show ?thesis by (simp add: Let_def del: actor_step.simps) (simp only: actor_step.simps cell.simps)
qed

definition session_cell ::
    "string \<Rightarrow> u64 \<Rightarrow> (unit ClientSession, chat_message, unit, unit, chat_message ActorMessage list_channel) cell" where
  "session_cell u i =
     \<lparr>actor = \<lparr>session_username = u, session_server = Addr_new (ActorId 9) 9, written = [], lines_stream = None\<rparr>,
      ctx = Context_with_signals (Addr_new (ActorId i) 1) 1 0 2, shared = shared chat_cell, log = []\<rparr>"

lemma session_cell_sel [simp]:
  "session_username (actor (session_cell u i)) = u" "session_server (actor (session_cell u i)) = Addr_new (ActorId 9) 9"
  "written (actor (session_cell u i)) = []" "ctx_addr (ctx (session_cell u i)) = Addr_new (ActorId i) 1"
  "mailbox (shared (session_cell u i)) j = (4, True, [])"
  by (simp_all add: session_cell_def Context_with_signals_def chat_cell_def)

theorem chat_line_delivered_witness:
  "let spoll = (\<lambda>_. (StreamItem (Some '' hi ''), ()));
      ta = actor_step list_mpsc client_session spoll (Poll quiet)
        (ActorRunning False [()] (session_cell ''user1'' 1));
      ts = fold (actor_step list_mpsc chat_server spoll)
        [Interfere (\<lambda>_. shared (task_cell ta)), Poll quiet]
        (ActorRunning False [] chat_cell);
      tb = fold (actor_step list_mpsc client_session spoll)
        [Interfere (\<lambda>_. shared (task_cell ts)), Poll quiet]
        (ActorRunning False [] (session_cell ''user2'' 2))
    in written (actor (task_cell tb)) = [chat_line ''user1'' ''hi'']"
proof -
  have trim: "trim '' hi '' = ''hi''" by (simp add: trim_def)
  have server: "ctx_addr (ctx chat_cell) = Addr_new (ActorId 9) 9" "actor chat_cell = two_clients"
    by (simp_all add: chat_cell_def Context_with_signals_def)
  have clients: "filter (\<lambda>(u, addr). u \<noteq> ''user1'' \<and> addr_id addr = ActorId 2) (chat_clients two_clients)
      = [(''user2'', Addr_new (ActorId 2) 2)]"
    by (simp add: two_clients_def Addr_new_def)
  have recv: "mpsc_recv list_mpsc (4, True, []) = (None, (4, True, []))" by (simp add: list_mpsc_def)
  show ?thesis
    using chat_line_delivered [OF list_mpsc_laws, where spoll = "\<lambda>_. (StreamItem (Some '' hi ''), ())" and st = "()"
        and line = "'' hi ''" and st' = "()" and sa = "session_cell ''user1'' 1" and ss = chat_cell
        and sb = "session_cell ''user2'' 2" and q = "(4, True, [])" and client = "(''user2'', Addr_new (ActorId 2) 2)"
        and streams = "[]" and ?sig1.0 = quiet and ?sig2.0 = quiet and ?sig3.0 = quiet
        and spoll' = "\<lambda>_. (StreamItem (Some '' hi ''), ())"]
    by (simp add: trim server clients Addr_new_def room_def recv del: actor_step.simps fold_simps)
qed

end
