(* ===== verification/Spec2Isabelle.thy ===== *)
theory Spec2Isabelle
  imports Task_Equivalence Local_Registry Timers Server_Loops Gossip_Network KV_Shell Chat_Main
begin

text \<open>
  A verification development for cineyma, an actor framework for Rust on the tokio runtime with
  remote actors and a gossip-based cluster. File names below are those of the crate's
  \<open>src/\<close> directory unless they start with \<open>examples\<close> or \<open>proto\<close>.

  The program. An actor is a value with handlers, owned by one task that takes envelopes from a
  bounded mailbox (\<open>address.rs\<close>, \<open>envelope.rs\<close>), polls attached streams
  (\<open>stream.rs\<close>) and listens for stop, shutdown and escalate signals (\<open>system.rs\<close>).
  Handlers use a context (\<open>context.rs\<close>) to stop, watch other actors, set timers, attach
  streams and spawn children, which a supervision strategy restarts (\<open>supervisor.rs\<close>).
  Names are kept in a registry (\<open>registry.rs\<close>). Remote messages are protobuf envelopes in
  length-prefixed frames (\<open>remote/tcp.rs\<close>); a client task matches responses to requests
  (\<open>remote/client.rs\<close>), a server dispatches envelopes to local actors
  (\<open>remote/server.rs\<close>, \<open>remote/handler.rs\<close>). Cluster nodes gossip their members and
  actors (\<open>remote/cluster.rs\<close>), and the cluster client finds an actor's node and talks to
  it (\<open>remote/cluster_client.rs\<close>).

  The theories, with the code they model and what they show.

  \<^item> \<open>Cineyma_Prelude\<close>: integers, durations, \<open>HashMap\<close> as an association list with
    distinct keys, atomic counters; the locales for lookup tables, identifier sources and tasks.
  \<^item> \<open>Supervisor\<close> (\<open>supervisor.rs\<close>): the restart tracker never grants more than
    \<open>max_restarts\<close> in a window and decides as if it remembered every restart.
  \<^item> \<open>Mailbox\<close> (\<open>address.rs\<close>, \<open>actor.rs\<close>, \<open>error.rs\<close>, \<open>message.rs\<close>,
    \<open>envelope.rs\<close>, \<open>watcher.rs\<close>): mailboxes are bounded queues in send order; who is told
    of a death; what a timeout covers; identifiers do not repeat.
  \<^item> \<open>Actor_Context\<close> (\<open>context.rs\<close>, \<open>actor.rs\<close>, \<open>envelope.rs\<close>): an envelope is
    answered once. \<open>Actor_Stream\<close> (\<open>stream.rs\<close>): a round of stream polling.
  \<^item> \<open>Actor_System\<close> (\<open>system.rs\<close>): the task of a top-level actor, its lifecycle, the
    order of selection and of shutting down, what an uncaught panic skips, and that a task that
    is over has closed its mailbox.
  \<^item> \<open>Child_Supervision\<close> (\<open>context.rs\<close>): the restart loop of a child, its lifecycle,
    restart intensity, escalation and the one-shot factory. \<open>Task_Equivalence\<close>: the select
    loop, which the source has twice, behaves alike in both tasks, down to the flag that tells
    a child's supervision of a panic.
  \<^item> \<open>Local_Registry\<close> (\<open>registry.rs\<close>, \<open>system.rs\<close>): typed lookup and the clean-up of
    dead actors. \<open>Timers\<close> (\<open>timer.rs\<close>, \<open>context.rs\<close>): one-shot timers, intervals,
    cancelling.
  \<^item> \<open>Local_Call\<close>: a request through mailbox, task and oneshot channel; an actor whose
    handler is pure refines a sequential object.
  \<^item> \<open>Wire\<close> (\<open>remote/mod.rs\<close>, \<open>remote/tcp.rs\<close>, \<open>remote/transport.rs\<close>,
    \<open>remote/registry.rs\<close>, \<open>proto/messages.proto\<close>): the codec under any fragmentation,
    frames too long for the length field, the registry of message types.
  \<^item> \<open>Remote_Client\<close> (\<open>remote/client.rs\<close>, \<open>remote/addr.rs\<close>): every request waits,
    is answered once or is dropped once. \<open>Remote_Handler\<close> (\<open>remote/handler.rs\<close>,
    \<open>remote/server.rs\<close>): handlers, dispatch and a round of the server.
  \<^item> \<open>Cluster_Node\<close>, \<open>Cluster_Server\<close> (\<open>remote/cluster.rs\<close>): well-formed views,
    agreement after an exchange, failure detection and clean-up, gossip over a connection.
    \<open>Gossip_Network\<close>: clusters of any size; knowledge is never lost, and two rounds of one
    node with all others make all views equal. \<open>Server_Loops\<close>: the loops that serve a
    connection end with it, having handled what came in over the connection once and in order
    and sent the answers, which fit their requests.
  \<^item> \<open>Cluster_Client\<close> (\<open>remote/cluster_client.rs\<close>): discovery, the connection pool,
    typed calls, and the collision of concurrent requests.
  \<^item> \<open>KV_Store\<close> (\<open>examples/distributed-kv\<close>) and \<open>Chat\<close> (\<open>examples/chat\<close>): the
    store refines a map, a remote set is seen by a remote get, a chat line reaches the others.
    \<open>KV_Shell\<close> and \<open>Chat_Main\<close> are their \<open>main\<close> functions: ports, joining through a
    seed, the shell's commands from the typed line to the printed answer, and its end; naming of users, the writer task, and a line on its
    way from one client's socket to another's. \<open>Decimal\<close>: printing of numbers.
  \<^item> This theory: a typed call across the cluster, through all the layers.

  How the code is represented. A task is a step function on its state, and a run is a fold over
  a list of inputs. One input of an actor's task is one poll, which says which signals are ready,
  what the clock reads and how other tasks changed the shared state in between; the theorems
  quantify over all lists of inputs, so over all schedules. Since each input makes one step of a
  total function, no fuel is needed. A handler, synchronous or async, runs within one step: other
  tasks act between the polls of a task, not while one of its handlers runs. The two server loops
  are also written as \<open>while_option\<close>, where None would be a loop that never ends. Panics are \<open>None\<close>, errors are the left side of a sum.
  The shared state holds the mailboxes, watchers and counters. A log in the actor's cell records
  the calls the runtime makes, which is what the lifecycle theorems speak of; the lists
  \<open>answered\<close>, \<open>dropped\<close> and \<open>delivered\<close> of other tasks play the same role. What goes
  over a connection is read off the connection itself: \<open>duplex\<close> names the envelopes that come
  in over it and those sent, \<open>peer_serves\<close> a node at its other end. An actor's own code is a parameter: a program over the calls of the context.

  Assumptions. The tokio channel is the record \<open>mpsc\<close> with the documented laws
  \<open>mpsc_laws\<close>, which \<open>list_mpsc\<close> satisfies; prost is a pair of functions per message
  type, with a round trip assumed only for the messages at hand (\<open>prost_ok\<close>); sockets are
  the record \<open>network\<close>, with the laws of a connection where a theorem needs them, which
  \<open>pipe_network\<close> and \<open>node_network\<close> satisfy; streams are the parameter \<open>spoll\<close>; the random choice of a gossip
  peer is a parameter. Clock readings are natural numbers, assumed not to decrease where stated.

  Not modelled. The suspension points of async handlers, and that a remote handler waiting for
  its actor holds up its connection; the panic of tokio's \<open>interval\<close> on a zero period in the
  periodic gossip task (for \<open>run_interval\<close> it is modelled); white space beyond ASCII in the
  examples; the iteration order of a \<open>HashMap\<close>, on which no theorem depends. Binding and
  accepting sockets, terminal input and log output; the code generated
  from the protobuf files; lock contention and poisoning, as each critical section is one step;
  \<open>Clone\<close> and \<open>Default\<close> implementations that only copy or call \<open>new\<close>; the
  messages the examples print at their start; \<open>lib.rs\<close>, the build scripts, benchmarks and tests.
  Arithmetic overflow is a panic, as in a build with overflow checks, except for the atomic
  counters, which wrap.
\<close>

section \<open>A cluster call from end to end\<close>

text \<open>
  C4. A typed call across the cluster. A client whose view of the cluster knows the actor's node
  calls the actor; the request is serialized, wrapped, sent over a new connection and served by
  the node, whose handler asks the running actor through its mailbox; the answer travels back
  under the client task's bookkeeping and is decoded. If prost can serialize the four messages
  involved and the actor's handler returns r, the call returns r.
\<close>

theorem cluster_call_answered:
  assumes "cluster_ok (cc_cluster cc)" and "lookup_actor (cc_cluster cc) actor_id = Some (i, ty)"
    and "hm_get (members (cc_cluster cc)) i = Some node" and "hm_get (clients (cc_pool cc)) (node_addr node) = None"
    and "reaches N (node_addr node) P (LocalNode_handler n RM RR (actor_port_of M B spoll sig)) now (b, ActorRunning head streams s)"
    and "mpsc_laws M contents cap live"
    and "contents (mailbox (shared s) (addr_id (ctx_addr (ctx s)))) = []"
    and "0 < cap (mailbox (shared s) (addr_id (ctx_addr (ctx s))))"
    and "live (mailbox (shared s) (addr_id (ctx_addr (ctx s))))"
    and "sent_on (next_oneshot (shared s)) (log s) = []"
    and "handler_returns M B (User m) s r"
    and "prost_ok RM m" and "prost_ok RR r"
    and "Envelope_from_message RM m counter (cc_local_node_id cc) actor_id = Some e"
    and "prost_ok P \<lparr>cm_payload = Some (PayloadEnvelope e)\<rparr>"
    and "prost_ok P \<lparr>cm_payload = Some (PayloadEnvelope
      \<lparr>message_type = type_id RR, payload = the (encode RR r), correlation_id = correlation_id e,
       sender_node = node_name (local_id n), target_actor = sender_node e, is_response = True\<rparr>)\<rparr>"
  shows "\<exists>cc'. cra_call N P RM RR m counter tx [ConnReady] (ClusterClient_remote_addr actor_id cc) = Some (Some (Inr r), cc')"
proof -
  obtain resp t' where h: "LocalNode_handler n RM RR (actor_port_of M B spoll sig) e (ActorRunning head streams s) = (Some resp, t')"
    and r: "decode RR (payload resp) = Some r"
    and resp: "prost_ok P \<lparr>cm_payload = Some (PayloadEnvelope resp)\<rparr>"
    using remote_request_answer [OF assms(6-14)] assms(16) by blast
  from cluster_call [OF assms(1-5) assms(14,15) h resp, of RR tx] r show ?thesis
    by (simp add: decode_reply_def)
qed

theorem cluster_call_answered_witness:
  "\<exists>(N :: Envelope option network) P cc'. cra_call N P (nat_message ''Add'') (nat_message ''Sum'') 3 1 7 [ConnReady]
     (ClusterClient_remote_addr ''kv'' (ClusterClient_new watching_cluster)) = Some (Some (Inr 8), cc')"
proof -
  let ?cc = "ClusterClient_new watching_cluster :: Envelope option ClusterClient"
  let ?RM = "nat_message ''Add''" and ?RR = "nat_message ''Sum''" and ?n = "LocalNode_new ''b''"
  let ?sp = "\<lambda>st :: unit. (StreamPending :: unit stream_poll, st)"
  obtain e where e: "Envelope_from_message ?RM 3 1 (cc_local_node_id ?cc) ''kv'' = Some e"
    by (simp add: Envelope_from_message_def nat_message_def)
  let ?resp = "\<lparr>message_type = type_id ?RR, payload = the (encode ?RR 8), correlation_id = correlation_id e,
       sender_node = node_name (local_id ?n), target_actor = sender_node e, is_response = True\<rparr>"
  let ?P = "two_prost \<lparr>cm_payload = Some (PayloadEnvelope e)\<rparr> \<lparr>cm_payload = Some (PayloadEnvelope ?resp)\<rparr>"
  let ?h = "LocalNode_handler ?n ?RM ?RR (actor_port_of list_mpsc echo_behaviour ?sp quiet)"
  let ?node = "(sample_cluster ''b'', ActorRunning True [] sample_cell)"
  let ?N = "answering_network (\<lambda>e. fst (cluster_serve ?P (Some ?h) 5 e ?node))"
  have net: "reaches ?N (node_addr \<lparr>node_id = ''b'', node_addr = ''host'', node_status = Up\<rparr>) ?P ?h 5 ?node" by (simp add: reaches_def answering_network_def)
  have h: "handler_returns list_mpsc echo_behaviour (User 3) sample_cell 8"
    by (simp add: handler_returns_def echo_behaviour_def sample_cell_def)
  have p: "prost_ok (nat_message ty) k" for ty k by (simp add: prost_ok_def nat_message_def)
  have cl: "cluster_ok (cc_cluster ?cc)" "lookup_actor (cc_cluster ?cc) ''kv'' = Some (''b'', ''Store'')"
    "hm_get (members (cc_cluster ?cc)) ''b'' = Some \<lparr>node_id = ''b'', node_addr = ''host'', node_status = Up\<rparr>"
    by (simp_all add: ClusterClient_new_def watching_cluster_ok) (simp_all add: watching_cluster_defs)
  have "\<exists>cc'. cra_call ?N ?P ?RM ?RR 3 1 7 [ConnReady] (ClusterClient_remote_addr ''kv'' ?cc) = Some (Some (Inr 8), cc')"
    by (rule cluster_call_answered [OF cl _ net list_mpsc_laws _ _ _ _ h p p e two_prost_ok])
      (simp_all add: ClusterClient_new_def ConnectionPool_new_def sample_cell_def sample_world_def)
  then show ?thesis by blast
qed

end
